(* ===== verification/Prelude.thy ===== *)
theory Prelude
  imports Main "HOL-Library.Word" "HOL-Library.Sublist" "HOL-Library.Multiset"
begin

unbundle bit_operations_syntax

text \<open>
  What every component shares: Go's sized integers as words, the dynamic values an
  \<open>interface{}\<close> can hold, error values, calls that return, fail or panic, byte order,
  and slices whose backing array may be longer than their length.
\<close>

section \<open>Integers, values and errors of Go\<close>

type_synonym byte = "8 word"
type_synonym u16 = "16 word"
type_synonym u32 = "32 word"
type_synonym u64 = "64 word"
type_synonym i64 = "64 word"  \<comment> \<open>Go's \<open>int\<close> and \<open>int64\<close>: read with \<open>sint\<close>\<close>
type_synonym f32 = "32 word"  \<comment> \<open>the IEEE 754 bit pattern of a \<open>float32\<close>\<close>
type_synonym f64 = "64 word"  \<comment> \<open>the IEEE 754 bit pattern of a \<open>float64\<close>\<close>

text \<open>
  The dynamic types the program switches on; \<open>VOther\<close> is a value of any other one, with the
  type's name, its kind and, for a slice, the kind of its elements.
\<close>

datatype goval =
    VNil
  | VBool bool
  | VInt i64
  | VInt16 u16
  | VInt32 u32
  | VInt64 i64
  | VUint u64
  | VUint16 u16
  | VUint32 u32
  | VUint64 u64
  | VF32 f32
  | VF64 f64
  | VStr string
  | VBytes "byte list"
  | VU16s "u16 list"
  | VBools "bool list"
  | VObjectID u16 u32
  | VList "goval list"
  | VMap "(string \<times> goval) list"
  | VOther string string string

type_synonym gomap = "string \<rightharpoonup> goval"

definition mget :: "gomap \<Rightarrow> string \<Rightarrow> goval" where
  \<comment> \<open>reading a missing key of a Go map gives the zero value, nil\<close>
  "mget m k = (case m k of None \<Rightarrow> VNil | Some v \<Rightarrow> v)"

lemma mget_upd [simp]: "mget (m(k \<mapsto> v)) k' = (if k' = k then v else mget m k')"
  by (simp add: mget_def)

lemma mget_empty [simp]: "mget Map.empty k = VNil"
  by (simp add: mget_def)

fun go_typename :: "goval \<Rightarrow> string" where  \<comment> \<open>the \<open>%T\<close> of \<open>fmt\<close>\<close>
  "go_typename VNil = ''<nil>''"
| "go_typename (VBool _) = ''bool''"
| "go_typename (VInt _) = ''int''"
| "go_typename (VInt16 _) = ''int16''"
| "go_typename (VInt32 _) = ''int32''"
| "go_typename (VInt64 _) = ''int64''"
| "go_typename (VUint _) = ''uint''"
| "go_typename (VUint16 _) = ''uint16''"
| "go_typename (VUint32 _) = ''uint32''"
| "go_typename (VUint64 _) = ''uint64''"
| "go_typename (VF32 _) = ''float32''"
| "go_typename (VF64 _) = ''float64''"
| "go_typename (VStr _) = ''string''"
| "go_typename (VBytes _) = ''[]uint8''"
| "go_typename (VU16s _) = ''[]uint16''"
| "go_typename (VBools _) = ''[]bool''"
| "go_typename (VObjectID _ _) = ''bacnet.ObjectID''"
| "go_typename (VList _) = ''[]interface {}''"
| "go_typename (VMap _) = ''map[string]interface {}''"
| "go_typename (VOther t _ _) = t"

text \<open>An error: \<open>io.EOF\<close>, a \<open>net.Error\<close> (is it temporary, its text), or another text.\<close>

datatype gerr = EOF | NetErr bool string | ErrText string

fun err_text :: "gerr \<Rightarrow> string" where
  "err_text EOF = ''EOF''"
| "err_text (NetErr _ t) = t"
| "err_text (ErrText t) = t"

datatype panic = NilDeref | IndexRange | SliceBounds | BadAssertion string | Raised gerr

section \<open>Calls that return, fail or panic\<close>

datatype 'a out = Ok 'a | Err gerr | Panic panic

fun bind_out :: "'a out \<Rightarrow> ('a \<Rightarrow> 'b out) \<Rightarrow> 'b out" where
  "bind_out (Ok a) f = f a"
| "bind_out (Err e) f = Err e"
| "bind_out (Panic p) f = Panic p"

lemma bind_out_Ok_iff [simp]: "bind_out r f = Ok b \<longleftrightarrow> (\<exists>a. r = Ok a \<and> f a = Ok b)"
  by (cases r) auto

lemma bind_out_Err_iff:
  "bind_out r f = Err e \<longleftrightarrow> r = Err e \<or> (\<exists>a. r = Ok a \<and> f a = Err e)"
  by (cases r) auto

lemma bind_out_Panic_iff:
  "bind_out r f = Panic p \<longleftrightarrow> r = Panic p \<or> (\<exists>a. r = Ok a \<and> f a = Panic p)"
  by (cases r) auto

lemma bind_out_cong [fundef_cong]:
  "r = r' \<Longrightarrow> (\<And>a. r' = Ok a \<Longrightarrow> f a = g a) \<Longrightarrow> bind_out r f = bind_out r' g"
  by (cases r') auto

fun panic_of :: "'a out \<Rightarrow> panic option" where
  "panic_of (Panic x) = Some x"
| "panic_of r = None"

definition is_panic :: "'a out \<Rightarrow> bool" where
  "is_panic r = (case r of Panic _ \<Rightarrow> True | _ \<Rightarrow> False)"

lemma is_panic_simps [simp]:
  "is_panic (Ok a) = False" "is_panic (Err e) = False" "is_panic (Panic p) = True"
  by (simp_all add: is_panic_def)

text \<open>Running a fallible step over a list, left to right, stopping at the first failure.\<close>

fun map_out :: "('a \<Rightarrow> 'b out) \<Rightarrow> 'a list \<Rightarrow> 'b list out" where
  "map_out f [] = Ok []"
| "map_out f (x # xs) = bind_out (f x) (\<lambda>y. bind_out (map_out f xs) (\<lambda>ys. Ok (y # ys)))"

lemma map_out_Ok: "(\<And>x. x \<in> set xs \<Longrightarrow> f x = Ok (g x)) \<Longrightarrow> map_out f xs = Ok (map g xs)"
  by (induction xs) auto

lemma map_out_Ok_length: "map_out f xs = Ok ys \<Longrightarrow> length ys = length xs"
  by (induction xs arbitrary: ys) auto

lemma map_out_Ok_nth: "map_out f xs = Ok ys \<Longrightarrow> i < length xs \<Longrightarrow> f (xs ! i) = Ok (ys ! i)"
  by (induction xs arbitrary: ys i) (auto simp: nth_Cons split: nat.splits)

lemma map_out_Panic:
  "map_out f xs = Panic p \<Longrightarrow> \<exists>x \<in> set xs. f x = Panic p"
  by (induction xs) (auto simp: bind_out_Panic_iff)

lemma map_out_Panic_first:
  assumes "\<And>x. x \<in> set xs \<Longrightarrow> (\<exists>y. f x = Ok y) \<or> f x = Panic p" "x \<in> set xs" "f x = Panic p"
  shows "map_out f xs = Panic p"
  using assms
proof (induction xs)
  case (Cons a xs)
  then show ?case by (cases "x = a") fastforce+
qed simp

section \<open>Byte order\<close>

definition be16 :: "byte \<Rightarrow> byte \<Rightarrow> u16" where  \<comment> \<open>\<open>binary.BigEndian.Uint16\<close>\<close>
  "be16 b0 b1 = push_bit 8 (ucast b0) OR ucast b1"

definition put16 :: "u16 \<Rightarrow> byte list" where  \<comment> \<open>\<open>binary.BigEndian.PutUint16\<close>\<close>
  "put16 v = [ucast (drop_bit 8 v), ucast v]"

definition be32 :: "byte \<Rightarrow> byte \<Rightarrow> byte \<Rightarrow> byte \<Rightarrow> u32" where
  "be32 b0 b1 b2 b3 =
     push_bit 24 (ucast b0) OR push_bit 16 (ucast b1) OR push_bit 8 (ucast b2) OR ucast b3"

definition le32 :: "byte \<Rightarrow> byte \<Rightarrow> byte \<Rightarrow> byte \<Rightarrow> u32" where
  "le32 b0 b1 b2 b3 = be32 b3 b2 b1 b0"

definition put32 :: "u32 \<Rightarrow> byte list" where
  "put32 v = [ucast (drop_bit 24 v), ucast (drop_bit 16 v), ucast (drop_bit 8 v), ucast v]"

definition be64 :: "byte \<Rightarrow> byte \<Rightarrow> byte \<Rightarrow> byte \<Rightarrow> byte \<Rightarrow> byte \<Rightarrow> byte \<Rightarrow> byte \<Rightarrow> u64" where
  "be64 b0 b1 b2 b3 b4 b5 b6 b7 =
     push_bit 56 (ucast b0) OR push_bit 48 (ucast b1) OR push_bit 40 (ucast b2) OR
     push_bit 32 (ucast b3) OR push_bit 24 (ucast b4) OR push_bit 16 (ucast b5) OR
     push_bit 8 (ucast b6) OR ucast b7"

definition le64 :: "byte \<Rightarrow> byte \<Rightarrow> byte \<Rightarrow> byte \<Rightarrow> byte \<Rightarrow> byte \<Rightarrow> byte \<Rightarrow> byte \<Rightarrow> u64" where
  "le64 b0 b1 b2 b3 b4 b5 b6 b7 = be64 b7 b6 b5 b4 b3 b2 b1 b0"

definition put64 :: "u64 \<Rightarrow> byte list" where
  "put64 v = [ucast (drop_bit 56 v), ucast (drop_bit 48 v), ucast (drop_bit 40 v),
     ucast (drop_bit 32 v), ucast (drop_bit 24 v), ucast (drop_bit 16 v),
     ucast (drop_bit 8 v), ucast v]"

lemma be16_put16 [simp]: "be16 (ucast (drop_bit 8 v)) (ucast v) = v"
  by (rule bit_word_eqI) (auto simp: be16_def bit_simps)

lemma byte_of_shift:
  fixes v :: "'a::len word"
  shows "bit (push_bit k (ucast (ucast (drop_bit k v) :: byte)) :: 'a word) n \<longleftrightarrow>
    n < LENGTH('a) \<and> k \<le> n \<and> n < k + 8 \<and> bit v n"
  by (auto simp: bit_simps)

lemma byte_of_low:
  fixes v :: "'a::len word"
  shows "bit (ucast (ucast v :: byte) :: 'a word) n \<longleftrightarrow> n < 8 \<and> bit v n"
  by (auto simp: bit_simps dest: bit_imp_le_length)

lemma be32_put32 [simp]:
  "be32 (ucast (drop_bit 24 v)) (ucast (drop_bit 16 v)) (ucast (drop_bit 8 v)) (ucast v) = v"
  (is "?w = v")
proof (rule bit_word_eqI)
  fix n assume "n < LENGTH(32)"
  then have "n < 32" by simp
  then show "bit ?w n = bit v n"
    unfolding be32_def bit_or_iff byte_of_shift byte_of_low by simp linarith
qed

lemma be64_put64 [simp]:
  "be64 (ucast (drop_bit 56 v)) (ucast (drop_bit 48 v)) (ucast (drop_bit 40 v))
     (ucast (drop_bit 32 v)) (ucast (drop_bit 24 v)) (ucast (drop_bit 16 v))
     (ucast (drop_bit 8 v)) (ucast v) = v"
  (is "?w = v")
proof (rule bit_word_eqI)
  fix n assume "n < LENGTH(64)"
  then have "n < 64" by simp
  then show "bit ?w n = bit v n"
    unfolding be64_def bit_or_iff byte_of_shift byte_of_low by simp linarith
qed

lemma byte_bit_high [simp]: "bit (b :: byte) (8 + n) = False"
  by (auto dest: bit_imp_le_length)

lemma put16_be16 [simp]: "put16 (be16 a b) = [a, b]"
  by (auto simp: put16_def be16_def bit_simps intro!: bit_word_eqI)

lemma length_put16 [simp]: "length (put16 v) = 2"
  by (simp add: put16_def)

text \<open>Narrowing an \<open>int\<close> to 16 bits.\<close>

lemma word16_of_take_bit: "(word_of_int (take_bit 64 k) :: 16 word) = word_of_int k"
  by (simp add: word_of_int_eq_iff take_bit_take_bit)

lemma ucast_u16_of_int: "(ucast (word_of_int k :: 64 word) :: 16 word) = word_of_int k"
  by (simp add: unsigned_of_int word16_of_take_bit)

lemma ucast_u16_diff: "(ucast (a - b :: 64 word) :: 16 word) = ucast a - ucast b"
proof -
  have "a - b = word_of_int (uint a - uint b)" by simp
  then have "(ucast (a - b) :: 16 word) = word_of_int (uint a - uint b)"
    by (simp only: ucast_u16_of_int)
  then show ?thesis by simp
qed

lemma ucast_u16_of_nat: "(ucast (word_of_nat n :: 64 word) :: 16 word) = word_of_nat n"
  using ucast_u16_of_int [of "int n"] by simp

section \<open>Slices\<close>

text \<open>
  A slice is its elements and the rest of its backing array. An index expression is checked
  against the length, a slice expression \<open>s[lo:hi]\<close> against the capacity, so it can reach
  bytes beyond the length.
\<close>

datatype slice = Slice (sdata: "byte list") (sspare: "byte list")

definition slice_len :: "slice \<Rightarrow> nat" where
  "slice_len s = length (sdata s)"

definition slice_index :: "slice \<Rightarrow> nat \<Rightarrow> byte out" where
  "slice_index s i = (if i < slice_len s then Ok (sdata s ! i) else Panic IndexRange)"

definition slice_u16 :: "slice \<Rightarrow> nat \<Rightarrow> u16 out" where
  \<comment> \<open>\<open>binary.BigEndian.Uint16(s[i : i+2])\<close>\<close>
  "slice_u16 s i =
     (let a = sdata s @ sspare s
      in if i + 2 \<le> length a then Ok (be16 (a ! i) (a ! (i + 1))) else Panic SliceBounds)"

lemma slice_index_Ok: "i < length (sdata s) \<Longrightarrow> slice_index s i = Ok (sdata s ! i)"
  by (simp add: slice_index_def slice_len_def)

lemma slice_u16_Ok:
  "i + 2 \<le> length (sdata s) \<Longrightarrow> slice_u16 s i = Ok (be16 (sdata s ! i) (sdata s ! (i + 1)))"
  by (simp add: slice_u16_def Let_def nth_append)

text \<open>The words a big-endian byte string holds, two bytes each.\<close>

definition regs_bytes :: "u16 list \<Rightarrow> byte list" where
  "regs_bytes vs = concat (map put16 vs)"

lemma regs_bytes_simps [simp]:
  "regs_bytes [] = []" "regs_bytes (v # vs) = put16 v @ regs_bytes vs"
  by (simp_all add: regs_bytes_def)

lemma length_regs_bytes [simp]: "length (regs_bytes vs) = 2 * length vs"
  by (induction vs) auto

lemma regs_bytes_nth:
  "i < length vs \<Longrightarrow> be16 (regs_bytes vs ! (2 * i)) (regs_bytes vs ! (2 * i + 1)) = vs ! i"
proof (induction vs arbitrary: i)
  case Nil
  then show ?case by simp
next
  case (Cons v vs)
  show ?case
    using Cons by (cases i) (simp_all add: put16_def)
qed

end
