(* ===== verification/Go_Strings.thy ===== *)
theory Go_Strings
  imports Prelude
begin

text \<open>
  The string operations of Go's standard library that the program uses: \<open>strings.Contains\<close>,
  \<open>HasPrefix\<close>, \<open>ToUpper\<close> and \<open>ToLower\<close>, the decimal \<open>%d\<close> of \<open>fmt.Sprintf\<close>, and the integer
  scanning of \<open>fmt.Sscanf\<close>. A string is its bytes (UTF-8), one \<open>char\<close> per byte.
\<close>

section \<open>Searching and case\<close>

fun go_contains :: "string \<Rightarrow> string \<Rightarrow> bool" where
  "go_contains [] sub = (sub = [])"
| "go_contains (c # cs) sub = (prefix sub (c # cs) \<or> go_contains cs sub)"

lemma go_contains_iff: "go_contains s sub \<longleftrightarrow> sublist sub s"
  by (induction s) (auto simp: sublist_Cons_right)

definition ch_upper :: "char \<Rightarrow> char" where
  "ch_upper c = (if 97 \<le> (of_char c :: nat) \<and> (of_char c :: nat) \<le> 122
     then char_of ((of_char c :: nat) - 32) else c)"

definition ch_lower :: "char \<Rightarrow> char" where
  "ch_lower c = (if 65 \<le> (of_char c :: nat) \<and> (of_char c :: nat) \<le> 90
     then char_of ((of_char c :: nat) + 32) else c)"

text \<open>
  \<open>ToUpper\<close> maps Unicode letters. Two letters outside ASCII have an ASCII upper case, the
  dotless i (bytes C4 B1) and the long s (C5 BF); two have an ASCII lower case, the dotted
  capital I (C4 B0) and the Kelvin sign (E2 84 AA). Every other letter outside ASCII stays
  outside it, and its bytes are kept here: the program only compares the result with ASCII
  strings, for which this is exact.
\<close>

fun go_upper :: "string \<Rightarrow> string" where
  "go_upper (a # b # s) =
     (if a = CHR 0xC4 \<and> b = CHR 0xB1 then CHR ''I'' # go_upper s
      else if a = CHR 0xC5 \<and> b = CHR 0xBF then CHR ''S'' # go_upper s
      else ch_upper a # go_upper (b # s))"
| "go_upper [a] = [ch_upper a]"
| "go_upper [] = []"

fun go_lower :: "string \<Rightarrow> string" where
  "go_lower (a # b # s) =
     (if a = CHR 0xC4 \<and> b = CHR 0xB0 then CHR ''i'' # go_lower s
      else if a = CHR 0xE2 \<and> prefix [CHR 0x84, CHR 0xAA] (b # s)
        then CHR ''k'' # go_lower (drop 1 s)
      else ch_lower a # go_lower (b # s))"
| "go_lower [a] = [ch_lower a]"
| "go_lower [] = []"

section \<open>Decimal printing\<close>

definition digit_char :: "nat \<Rightarrow> char" where
  "digit_char d = char_of (48 + d)"

lemma digit_char_simps [simp]:
  "digit_char 0 = CHR ''0''" "digit_char (Suc 0) = CHR ''1''" "digit_char 1 = CHR ''1''"
  "digit_char 2 = CHR ''2''" "digit_char 3 = CHR ''3''" "digit_char 4 = CHR ''4''"
  "digit_char 5 = CHR ''5''" "digit_char 6 = CHR ''6''" "digit_char 7 = CHR ''7''"
  "digit_char 8 = CHR ''8''" "digit_char 9 = CHR ''9''"
  by code_simp+

function dec_of_nat :: "nat \<Rightarrow> string" where
  "dec_of_nat n = (if n < 10 then [digit_char n] else dec_of_nat (n div 10) @ [digit_char (n mod 10)])"
  by pat_completeness auto
termination
  by (relation "measure id") auto

declare dec_of_nat.simps [simp del]

definition dec_of_int :: "int \<Rightarrow> string" where  \<comment> \<open>\<open>%d\<close>\<close>
  "dec_of_int i = (if i < 0 then CHR ''-'' # dec_of_nat (nat (- i)) else dec_of_nat (nat i))"

definition is_digit :: "char \<Rightarrow> bool" where
  "is_digit c = (48 \<le> (of_char c :: nat) \<and> (of_char c :: nat) \<le> 57)"

definition digit_val :: "char \<Rightarrow> nat" where
  "digit_val c = (of_char c :: nat) - 48"

lemma digit_char_props [simp]:
  assumes "d < 10"
  shows "is_digit (digit_char d)" "digit_val (digit_char d) = d"
  using assms by (simp_all add: is_digit_def digit_val_def digit_char_def)

lemma dec_of_nat_nonempty [simp]: "dec_of_nat n \<noteq> []"
  by (subst dec_of_nat.simps) simp

lemma dec_of_nat_digits: "c \<in> set (dec_of_nat n) \<Longrightarrow> is_digit c"
proof (induction n rule: dec_of_nat.induct)
  case (1 n)
  show ?case
    using 1 by (subst (asm) (2) dec_of_nat.simps) (auto split: if_splits)
qed

lemma length_dec_of_nat: "10 \<le> n \<Longrightarrow> 2 \<le> length (dec_of_nat n)"
  by (subst dec_of_nat.simps) (use dec_of_nat_nonempty [of "n div 10"] in \<open>auto simp: Suc_le_eq\<close>)

lemma hd_dec_step: "10 \<le> n \<Longrightarrow> hd (dec_of_nat n) = hd (dec_of_nat (n div 10))"
  by (subst dec_of_nat.simps) simp

lemma hd_dec_digit: "n < 10 \<Longrightarrow> hd (dec_of_nat n) = digit_char n"
  by (subst dec_of_nat.simps) simp

lemma hd_dec_5:
  assumes "10000 \<le> n" "n < 100000"
  shows "hd (dec_of_nat n) = digit_char (n div 10000)"
proof -
  have "hd (dec_of_nat n) = hd (dec_of_nat (n div 10))"
    "hd (dec_of_nat (n div 10)) = hd (dec_of_nat (n div 100))"
    "hd (dec_of_nat (n div 100)) = hd (dec_of_nat (n div 1000))"
    "hd (dec_of_nat (n div 1000)) = hd (dec_of_nat (n div 10000))"
    using assms hd_dec_step [of n] hd_dec_step [of "n div 10"] hd_dec_step [of "n div 100"]
      hd_dec_step [of "n div 1000"] by (simp_all flip: div_mult2_eq)
  then show ?thesis
    using assms hd_dec_digit [of "n div 10000"] by simp
qed

section \<open>Scanning integers\<close>

definition dec_value :: "string \<Rightarrow> nat" where
  "dec_value s = foldl (\<lambda>acc c. acc * 10 + digit_val c) 0 s"

lemma dec_value_snoc: "dec_value (s @ [c]) = dec_value s * 10 + digit_val c"
  by (simp add: dec_value_def)

lemma dec_value_dec_of_nat: "dec_value (dec_of_nat n) = n"
proof (induction n rule: dec_of_nat.induct)
  case (1 n)
  show ?case
    using 1 by (subst dec_of_nat.simps) (auto simp: dec_value_snoc dec_value_def [of "[_]"])
qed

text \<open>
  \<open>SkipSpace\<close> of \<open>fmt\<close>'s scanner: white space is skipped, a newline is an error (\<open>None\<close>).
  The white space outside ASCII, in UTF-8: U+0085, U+00A0, U+1680, U+2000 to U+200A, U+2028,
  U+2029, U+202F, U+205F and U+3000.
\<close>

fun skip_space :: "string \<Rightarrow> string option" where
  "skip_space [] = Some []"
| "skip_space (a # s) =
     (if a = CHR 0x0A then None
      else if a \<in> {CHR 0x09, CHR 0x0B, CHR 0x0C, CHR 0x0D, CHR 0x20} then skip_space s
      else case s of
        b # t \<Rightarrow>
          if a = CHR 0xC2 \<and> b \<in> {CHR 0x85, CHR 0xA0} then skip_space t
          else (case t of
            c # u \<Rightarrow>
              if (a = CHR 0xE1 \<and> b = CHR 0x9A \<and> c = CHR 0x80) \<or>
                 (a = CHR 0xE2 \<and> b = CHR 0x80 \<and>
                    (c \<in> set (map char_of [0x80..<0x8B :: nat]) \<or>
                     c \<in> {CHR 0xA8, CHR 0xA9, CHR 0xAF})) \<or>
                 (a = CHR 0xE2 \<and> b = CHR 0x81 \<and> c = CHR 0x9F) \<or>
                 (a = CHR 0xE3 \<and> b = CHR 0x80 \<and> c = CHR 0x80)
              then skip_space u else Some (a # s)
          | [] \<Rightarrow> Some (a # s))
      | [] \<Rightarrow> Some (a # s))"

text \<open>
  \<open>Sscanf(s, "%d", &v)\<close> for an \<open>int\<close>: white space, a sign, decimal digits; what follows is
  not read. \<open>ParseInt\<close> refuses a number outside 64 bits. The texts of the library's scan
  errors are not modelled, only that there is one.
\<close>

definition scan_int :: "string \<Rightarrow> gerr + i64" where
  "scan_int s =
     (case skip_space s of
        None \<Rightarrow> Inl (ErrText ''unexpected newline'')
      | Some t \<Rightarrow>
          if t = [] then Inl EOF
          else
            let neg = (hd t = CHR ''-'');
                u = (if hd t = CHR ''-'' \<or> hd t = CHR ''+'' then tl t else t);
                ds = takeWhile is_digit u;
                n = (if neg then - int (dec_value ds) else int (dec_value ds))
            in if u = [] then Inl EOF
               else if ds = [] then Inl (ErrText ''expected integer'')
               else if - (2 ^ 63) \<le> n \<and> n < 2 ^ 63 then Inr (word_of_int n)
               else Inl (ErrText ''value out of range''))"

lemma digit_not_space:
  assumes "is_digit c"
  shows "skip_space (c # s) = Some (c # s)"
proof -
  have "c \<noteq> CHR 0x0A" "c \<notin> {CHR 0x09, CHR 0x0B, CHR 0x0C, CHR 0x0D, CHR 0x20}"
    "c \<noteq> CHR 0xC2" "c \<noteq> CHR 0xE1" "c \<noteq> CHR 0xE2" "c \<noteq> CHR 0xE3"
    using assms by (auto simp: is_digit_def)
  then show ?thesis by (auto split: list.splits)
qed

lemma digit_not_sign: "is_digit c \<Longrightarrow> c \<noteq> CHR ''-'' \<and> c \<noteq> CHR ''+''"
  by (auto simp: is_digit_def)

text \<open>Printing and scanning: a round trip for every non-negative \<open>int\<close>.\<close>

lemma scan_int_dec_of_nat:
  assumes "n < 2 ^ 63"
  shows "scan_int (dec_of_nat n) = Inr (word_of_nat n)"
proof -
  obtain c s where cs: "dec_of_nat n = c # s"
    using dec_of_nat_nonempty by (meson neq_Nil_conv)
  have dig: "\<And>d. d \<in> set (dec_of_nat n) \<Longrightarrow> is_digit d"
    by (rule dec_of_nat_digits)
  then have c: "is_digit c" by (simp add: cs)
  have tw: "takeWhile is_digit (dec_of_nat n) = dec_of_nat n"
    using dig by (simp add: takeWhile_eq_all_conv)
  have "skip_space (dec_of_nat n) = Some (dec_of_nat n)"
    using digit_not_space [OF c] by (simp add: cs)
  moreover have "hd (dec_of_nat n) \<noteq> CHR ''-''" "hd (dec_of_nat n) \<noteq> CHR ''+''"
    using digit_not_sign [OF c] by (simp_all add: cs)
  ultimately show ?thesis
    using assms by (simp add: scan_int_def Let_def tw dec_value_dec_of_nat)
qed

end
