(* ===== verification/Go_Float.thy ===== *)
theory Go_Float
  imports Prelude "HOL-Library.Log_Nat"
begin

text \<open>
  The IEEE 754 arithmetic of \<open>float64\<close> that the program uses, on bit patterns: addition,
  multiplication, division, \<open>math.Round\<close>, widening of \<open>float32\<close>, conversion from and to
  integers. A result is the exact rational rounded to nearest, ties to even. NaN has one
  pattern here, since the code never looks at a NaN's payload. A conversion of a value out of
  range to an integer is implementation-defined in Go; the model has amd64's rule.
\<close>

section \<open>Reading and packing bit patterns\<close>

text \<open>A finite value is its sign (\<open>True\<close> is negative), an integer significand and an exponent of 2.\<close>

datatype fval = FNaN | FInf bool | FFin bool nat int

definition f64_val :: "f64 \<Rightarrow> fval" where
  "f64_val w =
     (let n = unat w; m = n mod 2 ^ 52; e = (n div 2 ^ 52) mod 2 ^ 11; s = (2 ^ 63 \<le> n)
      in if e = 2047 then (if m = 0 then FInf s else FNaN)
         else if e = 0 then FFin s m (- 1074)
         else FFin s (m + 2 ^ 52) (int e - 1075))"

definition f32_val :: "f32 \<Rightarrow> fval" where
  "f32_val w =
     (let n = unat w; m = n mod 2 ^ 23; e = (n div 2 ^ 23) mod 2 ^ 8; s = (2 ^ 31 \<le> n)
      in if e = 255 then (if m = 0 then FInf s else FNaN)
         else if e = 0 then FFin s m (- 149)
         else FFin s (m + 2 ^ 23) (int e - 150))"

definition f64_pack :: "bool \<Rightarrow> nat \<Rightarrow> f64" where
  "f64_pack s n = word_of_nat ((if s then 2 ^ 63 else 0) + n)"

definition f64_nan :: f64 where
  "f64_nan = 0x7FF8000000000000"

definition f64_inf :: "bool \<Rightarrow> f64" where
  "f64_inf s = f64_pack s (2047 * 2 ^ 52)"

section \<open>Rounding\<close>

definition f64_scale :: "nat \<Rightarrow> nat \<Rightarrow> int \<Rightarrow> nat \<times> nat" where
  \<comment> \<open>\<open>num / den / 2^e\<close> as a quotient of naturals\<close>
  "f64_scale num den e =
     (if 0 \<le> e then (num, den * 2 ^ nat e) else (num * 2 ^ nat (- e), den))"

definition f64_exponent :: "nat \<Rightarrow> nat \<Rightarrow> int" where
  \<comment> \<open>the exponent of the last place of \<open>num / den\<close>, at least that of the subnormals\<close>
  "f64_exponent num den =
     (let e1 = int (floorlog 2 num) - int (floorlog 2 den) - 53;
          (a, b) = f64_scale num den e1
      in max (if 2 ^ 53 \<le> a div b then e1 + 1 else e1) (- 1074))"

definition round_even :: "nat \<Rightarrow> nat \<Rightarrow> nat" where
  "round_even a b =
     (let q = a div b; r = a mod b
      in if b < 2 * r \<or> (b = 2 * r \<and> odd q) then q + 1 else q)"

definition f64_round :: "bool \<Rightarrow> nat \<Rightarrow> nat \<Rightarrow> f64" where
  "f64_round s num den =
     (if num = 0 then f64_pack s 0
      else
        let e = f64_exponent num den;
            (a, b) = f64_scale num den e;
            q = round_even a b;
            n = (if q < 2 ^ 52 then q else nat (e + 1074) * 2 ^ 52 + q)
        in if 2047 * 2 ^ 52 \<le> n then f64_inf s else f64_pack s n)"

definition f64_scaled :: "bool \<Rightarrow> nat \<Rightarrow> int \<Rightarrow> f64" where
  \<comment> \<open>rounding \<open>m * 2^e\<close>\<close>
  "f64_scaled s m e =
     (if 0 \<le> e then f64_round s (m * 2 ^ nat e) 1 else f64_round s m (2 ^ nat (- e)))"

section \<open>Operations\<close>

definition f64_of_int :: "int \<Rightarrow> f64" where  \<comment> \<open>\<open>float64(v)\<close> of an integer\<close>
  "f64_of_int z = f64_round (z < 0) (nat \<bar>z\<bar>) 1"

definition f64_of_f32 :: "f32 \<Rightarrow> f64" where  \<comment> \<open>\<open>float64(v)\<close> of a \<open>float32\<close>\<close>
  "f64_of_f32 w =
     (case f32_val w of FNaN \<Rightarrow> f64_nan | FInf s \<Rightarrow> f64_inf s | FFin s m e \<Rightarrow> f64_scaled s m e)"

fun fval_add :: "fval \<Rightarrow> fval \<Rightarrow> f64" where
  "fval_add FNaN _ = f64_nan"
| "fval_add _ FNaN = f64_nan"
| "fval_add (FInf s) (FInf t) = (if s = t then f64_inf s else f64_nan)"
| "fval_add (FInf s) (FFin _ _ _) = f64_inf s"
| "fval_add (FFin _ _ _) (FInf t) = f64_inf t"
| "fval_add (FFin s1 m1 e1) (FFin s2 m2 e2) =
     (let e = min e1 e2;
          a = (if s1 then - 1 else 1) * int m1 * 2 ^ nat (e1 - e);
          b = (if s2 then - 1 else 1) * int m2 * 2 ^ nat (e2 - e)
      in if a + b = 0 then f64_pack (s1 \<and> s2) 0
         else f64_scaled (a + b < 0) (nat \<bar>a + b\<bar>) e)"

definition f64_add :: "f64 \<Rightarrow> f64 \<Rightarrow> f64" where
  "f64_add x y = fval_add (f64_val x) (f64_val y)"

fun fval_mul :: "fval \<Rightarrow> fval \<Rightarrow> f64" where
  "fval_mul FNaN _ = f64_nan"
| "fval_mul _ FNaN = f64_nan"
| "fval_mul (FInf s) (FInf t) = f64_inf (s \<noteq> t)"
| "fval_mul (FInf s) (FFin t m _) = (if m = 0 then f64_nan else f64_inf (s \<noteq> t))"
| "fval_mul (FFin s m _) (FInf t) = (if m = 0 then f64_nan else f64_inf (s \<noteq> t))"
| "fval_mul (FFin s1 m1 e1) (FFin s2 m2 e2) = f64_scaled (s1 \<noteq> s2) (m1 * m2) (e1 + e2)"

definition f64_mul :: "f64 \<Rightarrow> f64 \<Rightarrow> f64" where
  "f64_mul x y = fval_mul (f64_val x) (f64_val y)"

fun fval_div :: "fval \<Rightarrow> fval \<Rightarrow> f64" where
  "fval_div FNaN _ = f64_nan"
| "fval_div _ FNaN = f64_nan"
| "fval_div (FInf _) (FInf _) = f64_nan"
| "fval_div (FInf s) (FFin t _ _) = f64_inf (s \<noteq> t)"
| "fval_div (FFin s _ _) (FInf t) = f64_pack (s \<noteq> t) 0"
| "fval_div (FFin s1 m1 e1) (FFin s2 m2 e2) =
     (if m2 = 0 then (if m1 = 0 then f64_nan else f64_inf (s1 \<noteq> s2))
      else if e1 < e2 then f64_round (s1 \<noteq> s2) m1 (m2 * 2 ^ nat (e2 - e1))
      else f64_round (s1 \<noteq> s2) (m1 * 2 ^ nat (e1 - e2)) m2)"

definition f64_div :: "f64 \<Rightarrow> f64 \<Rightarrow> f64" where
  "f64_div x y = fval_div (f64_val x) (f64_val y)"

definition f64_math_round :: "f64 \<Rightarrow> f64" where  \<comment> \<open>\<open>math.Round\<close>: halves away from zero\<close>
  "f64_math_round x =
     (case f64_val x of
        FFin s m e \<Rightarrow>
          if 0 \<le> e then x
          else f64_round s ((m + 2 ^ (nat (- e) - 1)) div 2 ^ nat (- e)) 1
      | _ \<Rightarrow> x)"

definition f64_trunc :: "f64 \<Rightarrow> int option" where
  \<comment> \<open>the value without its fraction, if it is a number\<close>
  "f64_trunc x =
     (case f64_val x of
        FFin s m e \<Rightarrow>
          Some ((if s then - 1 else 1) *
            (if 0 \<le> e then int m * 2 ^ nat e else int (m div 2 ^ nat (- e))))
      | _ \<Rightarrow> None)"

definition f64_to_int :: "f64 \<Rightarrow> i64" where  \<comment> \<open>\<open>int(v)\<close>\<close>
  "f64_to_int x =
     (case f64_trunc x of
        Some n \<Rightarrow> if - (2 ^ 63) \<le> n \<and> n < 2 ^ 63 then word_of_int n else 0x8000000000000000
      | None \<Rightarrow> 0x8000000000000000)"

definition f64_to_byte :: "f64 \<Rightarrow> byte" where
  \<comment> \<open>\<open>byte(v)\<close>: converted to 32 bits, of which the low 8 are kept\<close>
  "f64_to_byte x =
     (case f64_trunc x of
        Some n \<Rightarrow> if - (2 ^ 31) \<le> n \<and> n < 2 ^ 31 then word_of_int n else 0
      | None \<Rightarrow> 0)"

section \<open>Functions of package math\<close>

definition f64_abs :: "f64 \<Rightarrow> f64" where
  "f64_abs x = x AND 0x7FFFFFFFFFFFFFFF"

text \<open>The integer square root, two bits at a time.\<close>

fun isqrt :: "nat \<Rightarrow> nat" where
  "isqrt n =
     (if n = 0 then 0
      else let r = 2 * isqrt (n div 4) in if (r + 1) * (r + 1) \<le> n then r + 1 else r)"

declare isqrt.simps [simp del]

definition f64_sqrt :: "f64 \<Rightarrow> f64" where
  \<comment> \<open>rounded from 55 bits or more of the root and a last one that says whether it is exact\<close>
  "f64_sqrt x =
     (case f64_val x of
        FNaN \<Rightarrow> f64_nan
      | FInf s \<Rightarrow> if s then f64_nan else x
      | FFin s m e \<Rightarrow>
          if m = 0 then x
          else if s then f64_nan
          else
            let n = m * 2 ^ (if even e then 110 else 111);
                e1 = (if even e then e - 110 else e - 111) div 2;
                q = isqrt n
            in f64_scaled False (2 * q + (if q * q = n then 0 else 1)) (e1 - 1))"

fun fval_less :: "fval \<Rightarrow> fval \<Rightarrow> bool" where
  "fval_less FNaN _ = False"
| "fval_less _ FNaN = False"
| "fval_less (FInf s) (FInf t) = (s \<and> \<not> t)"
| "fval_less (FInf s) (FFin _ _ _) = s"
| "fval_less (FFin _ _ _) (FInf t) = (\<not> t)"
| "fval_less (FFin s1 m1 e1) (FFin s2 m2 e2) =
     (let e = min e1 e2
      in (if s1 then - 1 else 1) * int m1 * 2 ^ nat (e1 - e)
         < (if s2 then - 1 else 1) * int m2 * 2 ^ nat (e2 - e))"

definition f64_less :: "f64 \<Rightarrow> f64 \<Rightarrow> bool" where
  "f64_less x y = fval_less (f64_val x) (f64_val y)"

definition f64_is_zero :: "f64 \<Rightarrow> bool" where
  "f64_is_zero x = (f64_abs x = 0)"

definition f64_min :: "f64 \<Rightarrow> f64 \<Rightarrow> f64" where
  "f64_min x y =
     (if f64_val x = FInf True \<or> f64_val y = FInf True then f64_inf True
      else if f64_val x = FNaN \<or> f64_val y = FNaN then f64_nan
      else if f64_is_zero x \<and> f64_is_zero y then (if x = 0 then y else x)
      else if f64_less x y then x else y)"

definition f64_max :: "f64 \<Rightarrow> f64 \<Rightarrow> f64" where
  "f64_max x y =
     (if f64_val x = FInf False \<or> f64_val y = FInf False then f64_inf False
      else if f64_val x = FNaN \<or> f64_val y = FNaN then f64_nan
      else if f64_is_zero x \<and> f64_is_zero y then (if x = 0 then x else y)
      else if f64_less y x then x else y)"

end
