(* ===== verification/Data_Types.thy ===== *)
theory Data_Types
  imports Prelude
begin

text \<open>
  The structs of \<open>types/\<close>, \<open>schema/\<close> and \<open>protocols/\<close>, one record each with the fields in
  the source's order, and the conversions between them: \<open>toPointConfig\<close> and
  \<open>extractPointAddresses\<close> of main.go, \<open>MapPointsToConfig\<close>, and the flattening of the rule
  groups in \<open>config/edge_rule_loader.go\<close>. A selector has the struct's initials in front,
  since Isabelle's field names are global.
\<close>

section \<open>Points\<close>

record AlarmRule =
  ar_Enable :: bool
  ar_Condition :: string
  ar_Level :: string
  ar_Message :: string

record PointMapping =
  pm_Address :: string
  pm_Name :: string
  pm_Type :: string
  pm_Unit :: string
  pm_Transform :: string
  pm_Format :: string
  pm_Alarm :: AlarmRule

record DevicePointSet =
  ds_DeviceID :: string
  ds_Protocol :: string
  ds_ProtocolName :: string
  ds_Points :: "PointMapping list"

record FunctionPointGroup =
  fg_Function :: string
  fg_Points :: "PointMapping list"

record DevicePointSetV2 =
  d2_DeviceID :: string
  d2_Protocol :: string
  d2_ProtocolName :: string
  d2_Functions :: "FunctionPointGroup list"

record PointConfig =
  pc_PointID :: string
  pc_Address :: string
  pc_Type :: string
  pc_Unit :: string
  pc_Transform :: string
  pc_Format :: string

record PointValue =
  pv_PointID :: string
  pv_Value :: goval
  pv_Quality :: string
  pv_Timestamp :: i64

section \<open>Devices\<close>

record DeviceMeta =
  dm_ID :: string
  dm_Name :: string
  dm_Description :: string
  dm_Protocol :: string
  dm_ProtocolName :: string
  dm_Interval :: string
  dm_EnablePing :: bool
  dm_IP :: string
  dm_Port :: i64
  dm_SlaveID :: i64

text \<open>The \<open>Config\<close> map may be nil (\<open>None\<close>).\<close>

record DeviceConfigWithMeta =
  dc_Meta :: DeviceMeta
  dc_Config :: "gomap option"

record DeviceConfig =
  cf_ID :: string
  cf_Protocol :: string
  cf_Interval :: i64
  cf_Config :: gomap

section \<open>Edge rules and reports\<close>

record AggregateRule =
  ag_ID :: string
  ag_Description :: string
  ag_Type :: string
  ag_DeviceID :: string
  ag_Point :: string
  ag_Method :: string
  ag_Window :: i64

record AlarmRuleEdge =
  al_ID :: string
  al_Description :: string
  al_Type :: string
  al_DeviceID :: string
  al_Point :: string
  al_Condition :: string
  al_Level :: string
  al_Message :: string

record LinkageRule =
  lk_ID :: string
  lk_Description :: string
  lk_Type :: string
  lk_SourceDevice :: string
  lk_SourcePoint :: string
  lk_Condition :: string
  lk_ActionDevice :: string
  lk_ActionAddress :: string
  lk_ActionValue :: goval

record DeviceEdgeRules =
  de_DeviceID :: string
  de_Aggregate :: "AggregateRule list"
  de_Alarm :: "AlarmRuleEdge list"
  de_Linkage :: "LinkageRule list"

record AlarmInfo =
  ai_Name :: string
  ai_Level :: string
  ai_Message :: string

record DataReport =
  dr_DeviceID :: string
  dr_Timestamp :: i64
  dr_Data :: gomap
  dr_Alarm :: "AlarmInfo list"
  dr_Metrics :: gomap

section \<open>Conversions\<close>

fun toPointConfig :: "PointMapping list \<Rightarrow> PointConfig list" where
  \<comment> \<open>a nil and an empty slice are both the empty list\<close>
  "toPointConfig [] = []"
| "toPointConfig (p # ps) =
     \<lparr>pc_PointID = pm_Name p, pc_Address = pm_Address p, pc_Type = pm_Type p,
      pc_Unit = pm_Unit p, pc_Transform = pm_Transform p, pc_Format = []\<rparr> # toPointConfig ps"

fun MapPointsToConfig :: "PointMapping list \<Rightarrow> PointConfig list" where
  "MapPointsToConfig [] = []"
| "MapPointsToConfig (p # ps) =
     \<lparr>pc_PointID = pm_Name p, pc_Address = pm_Address p, pc_Type = pm_Type p,
      pc_Unit = pm_Unit p, pc_Transform = pm_Transform p, pc_Format = []\<rparr> # MapPointsToConfig ps"

fun extractPointAddresses :: "PointMapping list \<Rightarrow> string list" where
  "extractPointAddresses [] = []"
| "extractPointAddresses (p # ps) = pm_Address p # extractPointAddresses ps"

lemma extractPointAddresses_map [simp]: "extractPointAddresses ps = map pm_Address ps"
  by (induction ps) auto

text \<open>
  The rule groups are flattened by two nested loops appending to \<open>out\<close>; the group's device
  and the kind of rule overwrite the rule's own fields.
\<close>

fun agg_group :: "string \<Rightarrow> AggregateRule list \<Rightarrow> AggregateRule list \<Rightarrow> AggregateRule list" where
  "agg_group d [] acc = acc"
| "agg_group d (r # rs) acc =
     agg_group d rs (acc @ [r\<lparr>ag_DeviceID := d, ag_Type := ''aggregate''\<rparr>])"

fun ExtractAggregateRules_from ::
  "DeviceEdgeRules list \<Rightarrow> AggregateRule list \<Rightarrow> AggregateRule list" where
  "ExtractAggregateRules_from [] acc = acc"
| "ExtractAggregateRules_from (dr # drs) acc =
     ExtractAggregateRules_from drs (agg_group (de_DeviceID dr) (de_Aggregate dr) acc)"

definition ExtractAggregateRules :: "DeviceEdgeRules list \<Rightarrow> AggregateRule list" where
  "ExtractAggregateRules drs = ExtractAggregateRules_from drs []"

fun alarm_group :: "string \<Rightarrow> AlarmRuleEdge list \<Rightarrow> AlarmRuleEdge list \<Rightarrow> AlarmRuleEdge list" where
  "alarm_group d [] acc = acc"
| "alarm_group d (r # rs) acc =
     alarm_group d rs (acc @ [r\<lparr>al_DeviceID := d, al_Type := ''alarm''\<rparr>])"

fun ExtractAlarmRules_from ::
  "DeviceEdgeRules list \<Rightarrow> AlarmRuleEdge list \<Rightarrow> AlarmRuleEdge list" where
  "ExtractAlarmRules_from [] acc = acc"
| "ExtractAlarmRules_from (dr # drs) acc =
     ExtractAlarmRules_from drs (alarm_group (de_DeviceID dr) (de_Alarm dr) acc)"

definition ExtractAlarmRules :: "DeviceEdgeRules list \<Rightarrow> AlarmRuleEdge list" where
  "ExtractAlarmRules drs = ExtractAlarmRules_from drs []"

fun linkage_group :: "string \<Rightarrow> LinkageRule list \<Rightarrow> LinkageRule list \<Rightarrow> LinkageRule list" where
  "linkage_group d [] acc = acc"
| "linkage_group d (r # rs) acc =
     linkage_group d rs (acc @ [r\<lparr>lk_SourceDevice := d, lk_Type := ''linkage''\<rparr>])"

fun ExtractLinkageRules_from ::
  "DeviceEdgeRules list \<Rightarrow> LinkageRule list \<Rightarrow> LinkageRule list" where
  "ExtractLinkageRules_from [] acc = acc"
| "ExtractLinkageRules_from (dr # drs) acc =
     ExtractLinkageRules_from drs (linkage_group (de_DeviceID dr) (de_Linkage dr) acc)"

definition ExtractLinkageRules :: "DeviceEdgeRules list \<Rightarrow> LinkageRule list" where
  "ExtractLinkageRules drs = ExtractLinkageRules_from drs []"

text \<open>The rules one group contributes.\<close>

abbreviation aggs_of :: "DeviceEdgeRules \<Rightarrow> AggregateRule list" where
  "aggs_of dr \<equiv>
     map (\<lambda>r. r\<lparr>ag_DeviceID := de_DeviceID dr, ag_Type := ''aggregate''\<rparr>) (de_Aggregate dr)"

abbreviation alarms_of :: "DeviceEdgeRules \<Rightarrow> AlarmRuleEdge list" where
  "alarms_of dr \<equiv>
     map (\<lambda>r. r\<lparr>al_DeviceID := de_DeviceID dr, al_Type := ''alarm''\<rparr>) (de_Alarm dr)"

abbreviation linkages_of :: "DeviceEdgeRules \<Rightarrow> LinkageRule list" where
  "linkages_of dr \<equiv>
     map (\<lambda>r. r\<lparr>lk_SourceDevice := de_DeviceID dr, lk_Type := ''linkage''\<rparr>) (de_Linkage dr)"

lemma agg_group_eq:
  "agg_group d rs acc = acc @ map (\<lambda>r. r\<lparr>ag_DeviceID := d, ag_Type := ''aggregate''\<rparr>) rs"
  by (induction rs arbitrary: acc) auto

lemma alarm_group_eq:
  "alarm_group d rs acc = acc @ map (\<lambda>r. r\<lparr>al_DeviceID := d, al_Type := ''alarm''\<rparr>) rs"
  by (induction rs arbitrary: acc) auto

lemma linkage_group_eq:
  "linkage_group d rs acc = acc @ map (\<lambda>r. r\<lparr>lk_SourceDevice := d, lk_Type := ''linkage''\<rparr>) rs"
  by (induction rs arbitrary: acc) auto

lemma ExtractAggregateRules_from_eq:
  "ExtractAggregateRules_from drs acc = acc @ concat (map aggs_of drs)"
  by (induction drs arbitrary: acc) (auto simp: agg_group_eq)

lemma ExtractAlarmRules_from_eq:
  "ExtractAlarmRules_from drs acc = acc @ concat (map alarms_of drs)"
  by (induction drs arbitrary: acc) (auto simp: alarm_group_eq)

lemma ExtractLinkageRules_from_eq:
  "ExtractLinkageRules_from drs acc = acc @ concat (map linkages_of drs)"
  by (induction drs arbitrary: acc) (auto simp: linkage_group_eq)

lemma ExtractAggregateRules_eq: "ExtractAggregateRules drs = concat (map aggs_of drs)"
  by (simp add: ExtractAggregateRules_def ExtractAggregateRules_from_eq)

lemma ExtractAlarmRules_eq: "ExtractAlarmRules drs = concat (map alarms_of drs)"
  by (simp add: ExtractAlarmRules_def ExtractAlarmRules_from_eq)

lemma ExtractLinkageRules_eq: "ExtractLinkageRules drs = concat (map linkages_of drs)"
  by (simp add: ExtractLinkageRules_def ExtractLinkageRules_from_eq)

end
