(* ===== verification/Modbus_Client.thy ===== *)
theory Modbus_Client
  imports Go_Strings Go_Float Data_Types
begin

unbundle bit_operations_syntax

text \<open>
  \<open>protocols/modbus/modbus_tcp.go\<close>, first part: the client's state, \<open>Init\<close>, the forced
  reconnection, the six single reads and writes of coils and registers, \<open>Read\<close>, \<open>Write\<close>,
  \<open>Close\<close> and \<open>SetSlave\<close>. The Modbus library (\<open>github.com/goburrow/modbus\<close>) and the network
  behind it are a parameter: a record of functions over a world.
\<close>

section \<open>State and library\<close>

datatype mbfunc = FCoils | FDiscrete | FHolding | FInput  \<comment> \<open>01, 02, 03, 04\<close>

datatype mbwrite =
    WSingleCoil u16 u16
  | WSingleRegister u16 u16
  | WMultipleCoils u16 u16 "byte list"
  | WMultipleRegisters u16 u16 "byte list"

text \<open>The fields of the library's \<open>TCPClientHandler\<close> that the code sets.\<close>

record mbhandler =
  hAddress :: string
  hTimeout :: nat  \<comment> \<open>in seconds\<close>
  hSlaveId :: byte

text \<open>
  The client holds pointers to handlers: \<open>heap\<close> is the handlers allocated so far, a pointer
  is an index in it. \<open>client\<close> is the pointer the library's client was made with. \<open>m.lock\<close> only
  serialises \<open>ForceReconnect\<close>, which is one step here.
\<close>

record modbusTCP =
  client :: "nat option"
  handler :: "nat option"
  failCount :: i64
  ip :: string
  port :: i64
  slaveId :: byte
  heap :: "mbhandler list"

record 'w mblib =
  lib_connect :: "nat \<Rightarrow> mbhandler \<Rightarrow> 'w \<Rightarrow> gerr option \<times> 'w"
  lib_close :: "nat \<Rightarrow> mbhandler \<Rightarrow> 'w \<Rightarrow> gerr option \<times> 'w"
  lib_read :: "nat \<Rightarrow> mbhandler \<Rightarrow> mbfunc \<Rightarrow> u16 \<Rightarrow> u16 \<Rightarrow> 'w \<Rightarrow> (gerr + slice) \<times> 'w"
  lib_write :: "nat \<Rightarrow> mbhandler \<Rightarrow> mbwrite \<Rightarrow> 'w \<Rightarrow> gerr option \<times> 'w"
  lib_now :: "'w \<Rightarrow> i64"  \<comment> \<open>\<open>time.Now().Unix()\<close>\<close>

definition NewModbusTCP :: modbusTCP where
  "NewModbusTCP =
     \<lparr>client = None, handler = None, failCount = 0, ip = [], port = 0, slaveId = 0, heap = []\<rparr>"

definition mb_addr :: "string \<Rightarrow> i64 \<Rightarrow> string" where
  "mb_addr i p = i @ '':'' @ dec_of_int (sint p)"

section \<open>Connecting\<close>

definition mb_Init :: "'w mblib \<Rightarrow> gomap \<Rightarrow> modbusTCP \<Rightarrow> 'w \<Rightarrow> gerr option \<times> modbusTCP \<times> 'w" where
  "mb_Init lib config m w =
     (case mget config ''ip'' of
        VStr i \<Rightarrow>
          (case (case mget config ''port'' of
                   VF64 v \<Rightarrow> Inr (f64_to_int v)
                 | VInt v \<Rightarrow> Inr v
                 | VInt64 v \<Rightarrow> Inr v
                 | v \<Rightarrow> Inl (ErrText (''invalid port type: '' @ go_typename v))) of
             Inl e \<Rightarrow> (Some e, m, w)
           | Inr p \<Rightarrow>
               (case (case mget config ''slave_id'' of
                        VF64 v \<Rightarrow> Inr (f64_to_byte v)
                      | VInt v \<Rightarrow> Inr (ucast v)
                      | VInt64 v \<Rightarrow> Inr (ucast v)
                      | v \<Rightarrow> Inl (ErrText (''invalid slave_id type: '' @ go_typename v))) of
                  Inl e \<Rightarrow> (Some e, m, w)
                | Inr s \<Rightarrow>
                    let h = \<lparr>hAddress = mb_addr i p, hTimeout = 5, hSlaveId = s\<rparr>;
                        r = length (heap m);
                        m1 = m\<lparr>heap := heap m @ [h]\<rparr>
                    in (case lib_connect lib r h w of
                          (Some e, w1) \<Rightarrow> (Some e, m1, w1)
                        | (None, w1) \<Rightarrow>
                            (None, m1\<lparr>handler := Some r, client := Some r, ip := i, port := p,
                                      slaveId := s\<rparr>, w1))))
      | _ \<Rightarrow> (Some (ErrText ''invalid ip address''), m, w))"

definition ForceReconnect :: "'w mblib \<Rightarrow> modbusTCP \<Rightarrow> 'w \<Rightarrow> gerr option \<times> modbusTCP \<times> 'w" where
  "ForceReconnect lib m w =
     (let (m0, w0) =
        (case handler m of
           None \<Rightarrow> (m, w)
         | Some r \<Rightarrow> (m\<lparr>handler := None, client := None\<rparr>, snd (lib_close lib r (heap m ! r) w)));
          h = \<lparr>hAddress = mb_addr (ip m0) (port m0), hTimeout = 5, hSlaveId = slaveId m0\<rparr>;
          r = length (heap m0);
          m1 = m0\<lparr>heap := heap m0 @ [h]\<rparr>
      in case lib_connect lib r h w0 of
           (Some e, w1) \<Rightarrow> (Some e, m1\<lparr>handler := None, client := None\<rparr>, w1)
         | (None, w1) \<Rightarrow> (None, m1\<lparr>handler := Some r, client := Some r\<rparr>, w1))"

definition mb_Reconnect :: "'w mblib \<Rightarrow> modbusTCP \<Rightarrow> 'w \<Rightarrow> gerr option \<times> modbusTCP \<times> 'w" where
  "mb_Reconnect lib m w = ForceReconnect lib m w"

fun isConnError :: "gerr option \<Rightarrow> bool" where
  "isConnError None = False"
| "isConnError (Some EOF) = True"
| "isConnError (Some (NetErr False t)) = True"
| "isConnError (Some e) =
     (go_contains (err_text e) ''connection closed'' \<or>
      go_contains (err_text e) ''broken pipe'' \<or>
      go_contains (err_text e) ''connection reset'' \<or>
      go_contains (err_text e) ''use of closed network connection'')"

section \<open>Reading\<close>

text \<open>A call of the library's client, which a nil client turns into a panic.\<close>

definition lib_request ::
  "'w mblib \<Rightarrow> modbusTCP \<Rightarrow> mbfunc \<Rightarrow> u16 \<Rightarrow> u16 \<Rightarrow> 'w \<Rightarrow> slice out \<times> 'w" where
  "lib_request lib m fc a q w =
     (case client m of
        None \<Rightarrow> (Panic NilDeref, w)
      | Some r \<Rightarrow>
          (case lib_read lib r (heap m ! r) fc a q w of
             (Inl e, w1) \<Rightarrow> (Err e, w1)
           | (Inr s, w1) \<Rightarrow> (Ok s, w1)))"

text \<open>
  The first half of the four reads: connect when there is no connection, ask, and on a
  connection error reconnect and ask once more.
\<close>

definition mb_fetch ::
  "'w mblib \<Rightarrow> modbusTCP \<Rightarrow> mbfunc \<Rightarrow> u16 \<Rightarrow> u16 \<Rightarrow> 'w \<Rightarrow> slice out \<times> modbusTCP \<times> 'w" where
  "mb_fetch lib m fc a q w =
     (case (if handler m = None \<or> client m = None then ForceReconnect lib m w else (None, m, w)) of
        (Some e, m1, w1) \<Rightarrow> (Err e, m1, w1)
      | (None, m1, w1) \<Rightarrow>
          (case lib_request lib m1 fc a q w1 of
             (Err e, w2) \<Rightarrow>
               if isConnError (Some e)
               then (case ForceReconnect lib m1 w2 of
                       (None, m2, w3) \<Rightarrow>
                         let (r, w4) = lib_request lib m2 fc a q w3 in (r, m2, w4)
                     | (Some _, m2, w3) \<Rightarrow> (Err e, m2, w3))
               else (Err e, m1, w2)
           | (r, w2) \<Rightarrow> (r, m1, w2)))"

definition bit_at :: "slice \<Rightarrow> nat \<Rightarrow> bool out" where
  \<comment> \<open>\<open>(results[i/8]>>(i%8))&0x01 == 0x01\<close>\<close>
  "bit_at s i = bind_out (slice_index s (i div 8)) (\<lambda>b. Ok (drop_bit (i mod 8) b AND 1 = 1))"

definition unpack_bits :: "u16 \<Rightarrow> slice \<Rightarrow> bool list out" where
  "unpack_bits q s = map_out (bit_at s) [0..<unat q]"

definition unpack_regs :: "u16 \<Rightarrow> slice \<Rightarrow> u16 list out" where
  "unpack_regs q s = map_out (\<lambda>i. slice_u16 s (2 * i)) [0..<unat q]"

definition ReadCoils ::
  "'w mblib \<Rightarrow> modbusTCP \<Rightarrow> u16 \<Rightarrow> u16 \<Rightarrow> 'w \<Rightarrow> bool list out \<times> modbusTCP \<times> 'w" where
  "ReadCoils lib m a q w =
     (let (r, m1, w1) = mb_fetch lib m FCoils a q w in (bind_out r (unpack_bits q), m1, w1))"

definition ReadDiscreteInputs ::
  "'w mblib \<Rightarrow> modbusTCP \<Rightarrow> u16 \<Rightarrow> u16 \<Rightarrow> 'w \<Rightarrow> bool list out \<times> modbusTCP \<times> 'w" where
  "ReadDiscreteInputs lib m a q w =
     (let (r, m1, w1) = mb_fetch lib m FDiscrete a q w in (bind_out r (unpack_bits q), m1, w1))"

definition ReadHoldingRegisters ::
  "'w mblib \<Rightarrow> modbusTCP \<Rightarrow> u16 \<Rightarrow> u16 \<Rightarrow> 'w \<Rightarrow> u16 list out \<times> modbusTCP \<times> 'w" where
  "ReadHoldingRegisters lib m a q w =
     (let (r, m1, w1) = mb_fetch lib m FHolding a q w in (bind_out r (unpack_regs q), m1, w1))"

definition ReadInputRegisters ::
  "'w mblib \<Rightarrow> modbusTCP \<Rightarrow> u16 \<Rightarrow> u16 \<Rightarrow> 'w \<Rightarrow> u16 list out \<times> modbusTCP \<times> 'w" where
  "ReadInputRegisters lib m a q w =
     (let (r, m1, w1) = mb_fetch lib m FInput a q w in (bind_out r (unpack_regs q), m1, w1))"

text \<open>\<open>Read\<close>: ten holding registers from address 0, through the client as it is.\<close>

definition mb_Read :: "'w mblib \<Rightarrow> modbusTCP \<Rightarrow> 'w \<Rightarrow> PointValue list out \<times> 'w" where
  "mb_Read lib m w =
     (let (r, w1) = lib_request lib m FHolding 0 10 w
      in (bind_out r (\<lambda>s. map_out (\<lambda>i. bind_out (slice_u16 s (i * 2)) (\<lambda>v.
            Ok \<lparr>pv_PointID = ''reg'' @ dec_of_nat i, pv_Value = VUint16 v, pv_Quality = ''good'',
                pv_Timestamp = lib_now lib w1\<rparr>)) [0..<slice_len s div 2]), w1))"

section \<open>Writing\<close>

definition lib_send :: "'w mblib \<Rightarrow> modbusTCP \<Rightarrow> mbwrite \<Rightarrow> 'w \<Rightarrow> unit out \<times> 'w" where
  "lib_send lib m req w =
     (case client m of
        None \<Rightarrow> (Panic NilDeref, w)
      | Some r \<Rightarrow>
          (case lib_write lib r (heap m ! r) req w of
             (Some e, w1) \<Rightarrow> (Err e, w1)
           | (None, w1) \<Rightarrow> (Ok (), w1)))"

definition WriteSingleCoil :: "'w mblib \<Rightarrow> modbusTCP \<Rightarrow> u16 \<Rightarrow> bool \<Rightarrow> 'w \<Rightarrow> unit out \<times> 'w" where
  "WriteSingleCoil lib m a v w = lib_send lib m (WSingleCoil a (if v then 0xFF00 else 0)) w"

definition WriteSingleRegister :: "'w mblib \<Rightarrow> modbusTCP \<Rightarrow> u16 \<Rightarrow> u16 \<Rightarrow> 'w \<Rightarrow> unit out \<times> 'w" where
  "WriteSingleRegister lib m a v w = lib_send lib m (WSingleRegister a v) w"

fun pack_loop :: "bool list \<Rightarrow> nat \<Rightarrow> byte list \<Rightarrow> byte list" where
  "pack_loop [] i buf = buf"
| "pack_loop (b # bs) i buf =
     pack_loop bs (i + 1)
       (if b then buf[i div 8 := (buf ! (i div 8)) OR push_bit (i mod 8) 1] else buf)"

definition pack_bits :: "bool list \<Rightarrow> byte list" where
  "pack_bits vs = pack_loop vs 0 (replicate ((length vs + 7) div 8) 0)"

definition WriteMultipleCoils ::
  "'w mblib \<Rightarrow> modbusTCP \<Rightarrow> u16 \<Rightarrow> bool list \<Rightarrow> 'w \<Rightarrow> unit out \<times> 'w" where
  "WriteMultipleCoils lib m a vs w =
     lib_send lib m (WMultipleCoils a (word_of_nat (length vs)) (pack_bits vs)) w"

fun put_loop :: "u16 list \<Rightarrow> nat \<Rightarrow> byte list \<Rightarrow> byte list" where
  \<comment> \<open>\<open>PutUint16(buf[2*i:], val)\<close> for each value\<close>
  "put_loop [] i buf = buf"
| "put_loop (v # vs) i buf =
     put_loop vs (i + 1) (buf[2 * i := put16 v ! 0, 2 * i + 1 := put16 v ! 1])"

definition WriteMultipleRegisters ::
  "'w mblib \<Rightarrow> modbusTCP \<Rightarrow> u16 \<Rightarrow> u16 list \<Rightarrow> 'w \<Rightarrow> unit out \<times> 'w" where
  "WriteMultipleRegisters lib m a vs w =
     lib_send lib m (WMultipleRegisters a (word_of_nat (length vs))
       (put_loop vs 0 (replicate (2 * length vs) 0))) w"

section \<open>Addresses, generic write, close\<close>

definition parseAddress :: "string \<Rightarrow> gerr + u16" where
  "parseAddress point =
     (if length point < 2 then Inl (ErrText ''invalid point address'')
      else
        let base = (if hd point = CHR ''4'' then 40001 else 1 :: i64)
        in case scan_int point of
             Inl e \<Rightarrow> Inl e
           | Inr addr \<Rightarrow> Inr (ucast (addr - base)))"

definition mb_Write :: "'w mblib \<Rightarrow> modbusTCP \<Rightarrow> string \<Rightarrow> goval \<Rightarrow> 'w \<Rightarrow> unit out \<times> 'w" where
  "mb_Write lib m point v w =
     (case parseAddress point of
        Inl e \<Rightarrow> (Err e, w)
      | Inr addr \<Rightarrow>
          (case v of
             VBool b \<Rightarrow> lib_send lib m (WSingleCoil addr (if b then 0xFF00 else 0)) w
           | VUint16 x \<Rightarrow> lib_send lib m (WSingleRegister addr x) w
           | VInt x \<Rightarrow> lib_send lib m (WSingleRegister addr (ucast x)) w
           | _ \<Rightarrow> (Err (ErrText (''unsupported value type: '' @ go_typename v)), w)))"

definition mb_Close :: "'w mblib \<Rightarrow> modbusTCP \<Rightarrow> 'w \<Rightarrow> gerr option \<times> 'w" where
  "mb_Close lib m w =
     (case handler m of None \<Rightarrow> (None, w) | Some r \<Rightarrow> lib_close lib r (heap m ! r) w)"

definition SetSlave :: "byte \<Rightarrow> modbusTCP \<Rightarrow> modbusTCP" where
  "SetSlave s m =
     (case handler m of
        None \<Rightarrow> m
      | Some r \<Rightarrow> m\<lparr>heap := (heap m)[r := (heap m ! r)\<lparr>hSlaveId := s\<rparr>]\<rparr>)"

section \<open>The connection invariant\<close>

text \<open>The client and the handler are nil together, and the client uses the current handler.\<close>

definition mb_wf :: "modbusTCP \<Rightarrow> bool" where
  "mb_wf m \<longleftrightarrow>
     client m = handler m \<and> (case handler m of None \<Rightarrow> True | Some r \<Rightarrow> r < length (heap m))"

lemma mb_wf_New [simp]: "mb_wf NewModbusTCP"
  by (simp add: mb_wf_def NewModbusTCP_def)

lemma mb_wf_ForceReconnect:
  "ForceReconnect lib m w = (e, m1, w1) \<Longrightarrow> mb_wf m1"
  by (auto simp: ForceReconnect_def Let_def mb_wf_def split: option.splits prod.splits)

lemma ForceReconnect_None:
  "ForceReconnect lib m w = (None, m1, w1) \<Longrightarrow> client m1 \<noteq> None"
  by (auto simp: ForceReconnect_def Let_def split: option.splits prod.splits)

lemma ForceReconnect_Some:
  "ForceReconnect lib m w = (Some e, m1, w1) \<Longrightarrow> client m1 = None"
  by (auto simp: ForceReconnect_def Let_def split: option.splits prod.splits)

lemma mb_wf_Init: "mb_wf m \<Longrightarrow> mb_Init lib c m w = (e, m1, w1) \<Longrightarrow> mb_wf m1"
  by (auto simp: mb_Init_def Let_def mb_wf_def less_Suc_eq
        split: goval.splits sum.splits option.splits prod.splits)

lemma mb_wf_SetSlave: "mb_wf m \<Longrightarrow> mb_wf (SetSlave s m)"
  by (auto simp: SetSlave_def mb_wf_def split: option.splits)

lemma mb_wf_fetch: "mb_wf m \<Longrightarrow> mb_fetch lib m fc a q w = (r, m1, w1) \<Longrightarrow> mb_wf m1"
  by (auto simp: mb_fetch_def Let_def split: if_splits option.splits prod.splits out.splits
        dest: mb_wf_ForceReconnect)

lemma lib_request_panic: "lib_request lib m fc a q w = (Panic p, w1) \<Longrightarrow> client m = None"
  by (auto simp: lib_request_def split: option.splits prod.splits sum.splits)

lemma fetch_not_nil:
  assumes "mb_wf m"
  shows "mb_fetch lib m fc a q w \<noteq> (Panic p, m1, w1)"
  using assms
  by (auto simp: mb_fetch_def Let_def mb_wf_def split: if_splits option.splits prod.splits out.splits
      dest!: ForceReconnect_None lib_request_panic)

section \<open>Packing and unpacking\<close>

lemma bit_at_Ok: "i div 8 < length bs \<Longrightarrow> bit_at (Slice bs sp) i = Ok (bit (bs ! (i div 8)) (i mod 8))"
  by (auto simp: bit_at_def slice_index_def slice_len_def and_one_eq bit_iff_odd_drop_bit odd_iff_mod_2_eq_one)

lemma length_pack_loop [simp]: "length (pack_loop vs i buf) = length buf"
  by (induction vs i buf rule: pack_loop.induct) auto

lemma length_pack_bits [simp]: "length (pack_bits vs) = (length vs + 7) div 8"
  by (simp add: pack_bits_def)

lemma bit_pack_loop:
  assumes "i + length vs \<le> 8 * length buf" "j < length buf" "t < 8"
  shows "bit (pack_loop vs i buf ! j) t \<longleftrightarrow>
    bit (buf ! j) t \<or> (\<exists>k < length vs. vs ! k \<and> i + k = 8 * j + t)"
  using assms(1,2)
proof (induction vs i buf rule: pack_loop.induct)
  case (1 i buf)
  then show ?case by simp
next
  case (2 b bs i buf)
  let ?buf = "if b then buf[i div 8 := (buf ! (i div 8)) OR push_bit (i mod 8) 1] else buf"
  have "i div 8 < length buf" using 2(2) by simp
  moreover have "i = 8 * j + t \<longleftrightarrow> j = i div 8 \<and> t = i mod 8"
    using assms(3) by auto
  ultimately have head: "bit (?buf ! j) t \<longleftrightarrow> bit (buf ! j) t \<or> (b \<and> i = 8 * j + t)"
    using assms(3) by (auto simp: nth_list_update bit_simps)
  have "(\<exists>k < Suc (length bs). (b # bs) ! k \<and> i + k = 8 * j + t) \<longleftrightarrow>
      (b \<and> i = 8 * j + t) \<or> (\<exists>k < length bs. bs ! k \<and> Suc (i + k) = 8 * j + t)"
    by (auto simp: nth_Cons less_Suc_eq_0_disj)
  then show ?case
    using 2 head by (simp cong: if_cong)
qed

lemma bit_pack_bits:
  assumes "k < length vs"
  shows "bit (pack_bits vs ! (k div 8)) (k mod 8) = vs ! k"
proof -
  have "k div 8 < (length vs + 7) div 8" using assms by simp
  moreover have "length vs \<le> 8 * ((length vs + 7) div 8)" by simp
  ultimately show ?thesis
    using assms by (auto simp: pack_bits_def bit_pack_loop intro!: exI [of _ k])
qed

lemma put_loop_eq:
  "2 * (i + length vs) \<le> length buf \<Longrightarrow>
   put_loop vs i buf = take (2 * i) buf @ regs_bytes vs @ drop (2 * (i + length vs)) buf"
proof (induction vs i buf rule: put_loop.induct)
  case (1 i buf)
  then show ?case by simp
next
  case (2 v vs i buf)
  let ?buf = "buf[2 * i := put16 v ! 0, 2 * i + 1 := put16 v ! 1]"
  have "take (2 * (i + 1)) ?buf = take (2 * i) buf @ put16 v"
    using 2(2) by (auto simp: put16_def take_Suc_conv_app_nth nth_list_update)
  then show ?case
    using 2 by simp
qed

lemma put_loop_regs_bytes: "put_loop vs 0 (replicate (2 * length vs) 0) = regs_bytes vs"
  by (simp add: put_loop_eq)



lemma unpack_pack_bits:
  assumes "length vs < 2 ^ 16"
  shows "unpack_bits (word_of_nat (length vs)) (Slice (pack_bits vs) sp) = Ok vs"
proof -
  have "unpack_bits (word_of_nat (length vs)) (Slice (pack_bits vs) sp) =
      map_out (bit_at (Slice (pack_bits vs) sp)) [0..<length vs]"
    using assms by (simp add: unpack_bits_def unat_of_nat take_bit_nat_eq_self)
  also have "\<dots> = Ok (map (\<lambda>k. vs ! k) [0..<length vs])"
  proof (rule map_out_Ok)
    fix k assume "k \<in> set [0..<length vs]"
    then show "bit_at (Slice (pack_bits vs) sp) k = Ok (vs ! k)"
      by (subst bit_at_Ok) (auto simp: bit_pack_bits)
  qed
  finally show ?thesis by (simp add: map_nth)
qed

lemma unpack_regs_bytes:
  assumes "length vs < 2 ^ 16"
  shows "unpack_regs (word_of_nat (length vs)) (Slice (regs_bytes vs) sp) = Ok vs"
proof -
  have "unpack_regs (word_of_nat (length vs)) (Slice (regs_bytes vs) sp) =
      map_out (\<lambda>i. slice_u16 (Slice (regs_bytes vs) sp) (2 * i)) [0..<length vs]"
    using assms by (simp add: unpack_regs_def unat_of_nat take_bit_nat_eq_self)
  also have "\<dots> = Ok (map (\<lambda>k. vs ! k) [0..<length vs])"
    by (rule map_out_Ok) (simp add: slice_u16_Ok regs_bytes_nth del: One_nat_def add_2_eq_Suc')
  finally show ?thesis by (simp add: map_nth)
qed

lemma unpack_bits_total:
  assumes "unat q \<le> 8 * length bs"
  shows "unpack_bits q (Slice bs sp) = Ok (map (\<lambda>i. bit (bs ! (i div 8)) (i mod 8)) [0..<unat q])"
  unfolding unpack_bits_def
  by (rule map_out_Ok) (use assms in \<open>auto simp: bit_at_Ok\<close>)

lemma bit_at_cases: "(\<exists>b. bit_at s i = Ok b) \<or> bit_at s i = Panic IndexRange"
  by (auto simp: bit_at_def slice_index_def)

lemma unpack_bits_short:
  assumes "8 * length bs < unat q"
  shows "unpack_bits q (Slice bs sp) = Panic IndexRange"
  unfolding unpack_bits_def
  by (rule map_out_Panic_first [OF bit_at_cases, of "8 * length bs"])
    (use assms in \<open>auto simp: bit_at_def slice_index_def slice_len_def\<close>)

section \<open>Addresses\<close>

lemma parseAddress_dec:
  assumes "10 \<le> n" "n < 2 ^ 63"
  shows "parseAddress (dec_of_nat n) =
    Inr (word_of_nat n - (if hd (dec_of_nat n) = CHR ''4'' then 40001 else 1))"
  using assms length_dec_of_nat [of n]
  by (simp add: parseAddress_def scan_int_dec_of_nat Let_def ucast_u16_diff ucast_u16_of_nat)

end
