(* ===== verification/Modbus_Session.thy ===== *)
theory Modbus_Session
  imports Modbus_Client
begin

text \<open>
  What the single operations of the Modbus client guarantee: which clients a run can produce,
  that a read never panics, what a dropped connection does, which slave a request addresses,
  and that what is written is what is read. The last section has the simulated devices on
  which the hypotheses about the library are shown to hold.
\<close>

section \<open>Simulated devices\<close>

text \<open>
  A device with one 16-bit value per slave and address (a coil is on when it is not 0); the
  world is whether the connection is up. And a device that remembers the last bytes written.
\<close>

definition sim_device :: "(byte \<Rightarrow> u16 \<Rightarrow> u16) \<Rightarrow> bool mblib" where
  "sim_device regs =
     \<lparr>lib_connect = (\<lambda>r h w. (None, True)),
      lib_close = (\<lambda>r h w. (None, False)),
      lib_read = (\<lambda>r h fc a q w.
        let vs = map (\<lambda>i. regs (hSlaveId h) (a + word_of_nat i)) [0..<unat q]
        in if w
           then (Inr (Slice (if fc = FCoils \<or> fc = FDiscrete then pack_bits (map (\<lambda>v. v \<noteq> 0) vs)
                             else regs_bytes vs) []), True)
           else (Inl EOF, False)),
      lib_write = (\<lambda>r h b w. (if w then None else Some EOF, w)),
      lib_now = (\<lambda>w. 0)\<rparr>"

fun written_bytes :: "mbwrite \<Rightarrow> byte list" where
  "written_bytes (WSingleCoil a v) = put16 v"
| "written_bytes (WSingleRegister a v) = put16 v"
| "written_bytes (WMultipleCoils a n bs) = bs"
| "written_bytes (WMultipleRegisters a n bs) = bs"

definition mem_device :: "byte list mblib" where
  "mem_device =
     \<lparr>lib_connect = (\<lambda>r h w. (None, w)),
      lib_close = (\<lambda>r h w. (None, w)),
      lib_read = (\<lambda>r h fc a q w. (Inr (Slice w []), w)),
      lib_write = (\<lambda>r h b w. (None, written_bytes b)),
      lib_now = (\<lambda>w. 0)\<rparr>"

section \<open>Reachable clients\<close>

text \<open>
  The clients a run can produce: a new one, then any sequence of \<open>Init\<close>, reconnections,
  single reads and \<open>SetSlave\<close>, with the world changing in between. The other operations do
  not change the client.
\<close>

inductive mb_reach :: "'w mblib \<Rightarrow> modbusTCP \<Rightarrow> 'w \<Rightarrow> bool" for lib where
  new: "mb_reach lib NewModbusTCP w"
| env: "mb_reach lib m w \<Longrightarrow> mb_reach lib m w'"
| init: "mb_reach lib m w \<Longrightarrow> mb_Init lib c m w = (e, m1, w1) \<Longrightarrow> mb_reach lib m1 w1"
| reconnect: "mb_reach lib m w \<Longrightarrow> mb_Reconnect lib m w = (e, m1, w1) \<Longrightarrow> mb_reach lib m1 w1"
| fetch: "mb_reach lib m w \<Longrightarrow> mb_fetch lib m fc a q w = (r, m1, w1) \<Longrightarrow> mb_reach lib m1 w1"
| set_slave: "mb_reach lib m w \<Longrightarrow> mb_reach lib (SetSlave s m) w"

lemma mb_reach_wf: "mb_reach lib m w \<Longrightarrow> mb_wf m"
proof (induction rule: mb_reach.induct)
  case (init m w c e m1 w1)
  from mb_wf_Init [OF init.IH init.hyps(2)] show ?case .
qed (auto simp: mb_Reconnect_def intro: mb_wf_ForceReconnect mb_wf_fetch mb_wf_SetSlave)

lemma lib_request_Ok:
  "lib_request lib m fc a q w = (Ok s, w1) \<Longrightarrow> \<exists>r h. lib_read lib r h fc a q w = (Inr s, w1)"
  by (auto simp: lib_request_def split: option.splits prod.splits sum.splits)

lemma mb_fetch_Ok:
  "mb_fetch lib m fc a q w = (Ok s, m1, w1) \<Longrightarrow> \<exists>r h w0. lib_read lib r h fc a q w0 = (Inr s, w1)"
  by (fastforce simp: mb_fetch_def Let_def dest: lib_request_Ok
      split: if_splits option.splits prod.splits out.splits)

text \<open>The library's answers hold every coil or register asked for.\<close>

definition full_answers :: "'w mblib \<Rightarrow> u16 \<Rightarrow> u16 \<Rightarrow> bool" where
  "full_answers lib a q \<longleftrightarrow>
     (\<forall>fc r h w s w1. lib_read lib r h fc a q w = (Inr s, w1) \<longrightarrow>
        (if fc = FCoils \<or> fc = FDiscrete then unat q \<le> 8 * slice_len s
         else 2 * unat q \<le> slice_len s))"

lemma unpack_regs_total:
  assumes "2 * unat q \<le> length bs"
  shows "unpack_regs q (Slice bs sp) =
    Ok (map (\<lambda>i. be16 (bs ! (2 * i)) (bs ! (2 * i + 1))) [0..<unat q])"
  unfolding unpack_regs_def
  by (rule map_out_Ok) (use assms in \<open>auto simp: slice_u16_Ok\<close>)

lemma unpack_full:
  assumes "full_answers lib a q" "lib_read lib r h fc a q w = (Inr s, w1)"
  shows "fc = FCoils \<or> fc = FDiscrete \<Longrightarrow> \<not> is_panic (unpack_bits q s)"
    "fc = FHolding \<or> fc = FInput \<Longrightarrow> \<not> is_panic (unpack_regs q s)"
  using assms unpack_bits_total [of q "sdata s" "sspare s"] unpack_regs_total [of q "sdata s" "sspare s"]
  by (fastforce simp: full_answers_def slice_len_def)+

lemma fetch_unpack_safe:
  assumes "mb_reach lib m w" "mb_fetch lib m fc a q w = (r, m1, w1)"
    and "\<And>s r h w0 w1. lib_read lib r h fc a q w0 = (Inr s, w1) \<Longrightarrow> \<not> is_panic (f s)"
  shows "\<not> is_panic (bind_out r f)"
proof (cases r)
  case (Ok s)
  with assms(2) mb_fetch_Ok obtain r h w0 where "lib_read lib r h fc a q w0 = (Inr s, w1)"
    by metis
  with assms(3) Ok show ?thesis by simp
next
  case (Panic p)
  with assms(2) fetch_not_nil [OF mb_reach_wf [OF assms(1)], of lib fc a q w p m1 w1]
  show ?thesis by simp
qed simp

text \<open>C11: whatever happened before (failed initialisations, dropped connections, failed
  reconnections), none of the four single reads panics, as long as the library's answers
  carry the data asked for: the nil check and the reconnection cover every state.\<close>

theorem reads_never_panic:
  assumes "mb_reach lib m w" "full_answers lib a q"
  shows "\<not> is_panic (fst (ReadCoils lib m a q w)) \<and>
    \<not> is_panic (fst (ReadDiscreteInputs lib m a q w)) \<and>
    \<not> is_panic (fst (ReadHoldingRegisters lib m a q w)) \<and>
    \<not> is_panic (fst (ReadInputRegisters lib m a q w))"
  by (auto simp: ReadCoils_def ReadDiscreteInputs_def ReadHoldingRegisters_def
      ReadInputRegisters_def split: prod.splits
      dest: fetch_unpack_safe [OF assms(1)] unpack_full [OF assms(2)])

lemma sim_full: "full_answers (sim_device regs) a q"
  by (auto simp: full_answers_def sim_device_def slice_len_def Let_def split: if_splits)

theorem reads_never_panic_witness:
  "\<not> is_panic (fst (ReadCoils (sim_device (\<lambda>s a. a)) NewModbusTCP 3 10 False))"
  using reads_never_panic [OF mb_reach.new sim_full] by blast

section \<open>Slave identifiers\<close>

text \<open>The slave the next request of the client addresses.\<close>

definition request_slave :: "modbusTCP \<Rightarrow> byte option" where
  "request_slave m = map_option (\<lambda>r. hSlaveId (heap m ! r)) (client m)"

lemma ForceReconnect_slave:
  "ForceReconnect lib m w = (None, m1, w1) \<Longrightarrow> request_slave m1 = Some (slaveId m)"
  by (auto simp: ForceReconnect_def Let_def request_slave_def split: option.splits prod.splits)

lemma SetSlave_slave:
  "mb_wf m \<Longrightarrow> handler m \<noteq> None \<Longrightarrow> request_slave (SetSlave s m) = Some s"
  by (auto simp: SetSlave_def request_slave_def mb_wf_def)

lemma slaveId_SetSlave [simp]: "slaveId (SetSlave s m) = slaveId m"
  by (auto simp: SetSlave_def split: option.splits)

text \<open>The slave set by \<open>SetSlave\<close> is the one the next request addresses (the handler is
  shared), but it is lost by a reconnection, which goes back to the slave of \<open>Init\<close>: a client
  shared by two devices answers for the first one after a reconnection.\<close>

theorem reconnect_forgets_slave:
  assumes "mb_reach lib m w" "handler m \<noteq> None"
    and "ForceReconnect lib (SetSlave s m) w = (None, m1, w1)"
  shows "request_slave (SetSlave s m) = Some s \<and> request_slave m1 = Some (slaveId m)"
  using ForceReconnect_slave [OF assms(3)] SetSlave_slave [OF mb_reach_wf [OF assms(1)] assms(2)]
  by simp

definition demo_config :: gomap where
  "demo_config = [''ip'' \<mapsto> VStr ''10.0.0.1'', ''port'' \<mapsto> VInt 502, ''slave_id'' \<mapsto> VInt 1]"

definition demo_client :: modbusTCP where
  "demo_client =
     \<lparr>client = Some 0, handler = Some 0, failCount = 0, ip = ''10.0.0.1'', port = 502, slaveId = 1,
      heap = [\<lparr>hAddress = ''10.0.0.1:502'', hTimeout = 5, hSlaveId = 1\<rparr>]\<rparr>"

lemma demo_addr: "mb_addr ''10.0.0.1'' 502 = ''10.0.0.1:502''"
  by (simp add: mb_addr_def dec_of_int_def dec_of_nat.simps)

lemma demo_Init:
  "mb_Init (sim_device regs) demo_config NewModbusTCP w = (None, demo_client, True)"
  by (simp add: mb_Init_def demo_config_def NewModbusTCP_def Let_def sim_device_def demo_client_def
      demo_addr)

lemma mem_Init: "mb_Init mem_device demo_config NewModbusTCP w = (None, demo_client, w)"
  by (simp add: mb_Init_def demo_config_def NewModbusTCP_def Let_def mem_device_def demo_client_def
      demo_addr)

lemma demo_reach: "mb_reach (sim_device regs) demo_client True"
  using mb_reach.init [OF mb_reach.new demo_Init] .

lemma mem_reach: "mb_reach mem_device demo_client w"
  using mb_reach.init [OF mb_reach.new mem_Init] .

theorem reconnect_forgets_slave_witness:
  "request_slave (fst (snd (ForceReconnect (sim_device (\<lambda>s a. a)) (SetSlave 2 demo_client) True)))
     = Some 1"
proof -
  let ?lib = "sim_device (\<lambda>s a. a)" and ?m = "SetSlave 2 demo_client"
  have h: "handler demo_client \<noteq> None" by (simp add: demo_client_def)
  obtain e m1 w1 where f: "ForceReconnect ?lib ?m True = (e, m1, w1)" by (metis prod_cases3)
  then have "e = None"
    by (auto simp: ForceReconnect_def sim_device_def Let_def split: option.splits prod.splits)
  with reconnect_forgets_slave [OF demo_reach h] f show ?thesis
    by (simp add: demo_client_def)
qed

section \<open>Dropped connections\<close>

text \<open>
  A device that can be reached: connecting works, a request over a new connection is
  answered, a request over an old one is answered or fails as a dropped connection does, and
  the answers depend only on the slave asked.
\<close>

definition reliable :: "'w mblib \<Rightarrow> mbfunc \<Rightarrow> u16 \<Rightarrow> u16 \<Rightarrow> (byte \<Rightarrow> byte list) \<Rightarrow> bool" where
  "reliable lib fc a q ans \<longleftrightarrow>
     (\<forall>r h w. fst (lib_connect lib r h w) = None) \<and>
     (\<forall>r h w. case fst (lib_read lib r h fc a q w) of
         Inl e \<Rightarrow> isConnError (Some e) | Inr s \<Rightarrow> sdata s = ans (hSlaveId h)) \<and>
     (\<forall>r h w. \<exists>s. fst (lib_read lib r h fc a q (snd (lib_connect lib r h w))) = Inr s)"

definition new_handler :: "modbusTCP \<Rightarrow> mbhandler" where
  "new_handler m = \<lparr>hAddress = mb_addr (ip m) (port m), hTimeout = 5, hSlaveId = slaveId m\<rparr>"

lemma ForceReconnect_result:
  assumes "ForceReconnect lib m w = (e, m1, w1)"
  obtains w0 where "lib_connect lib (length (heap m)) (new_handler m) w0 = (e, w1)"
    "heap m1 = heap m @ [new_handler m]"
    "client m1 = (if e = None then Some (length (heap m)) else None)"
  using assms
  by (auto simp: ForceReconnect_def Let_def new_handler_def split: option.splits prod.splits)

lemma request_after_reconnect:
  assumes "reliable lib fc a q ans" "ForceReconnect lib m w = (e, m1, w1)"
  obtains s w2 where "e = None" "lib_request lib m1 fc a q w1 = (Ok s, w2)"
    "sdata s = ans (slaveId m)"
proof -
  let ?r = "length (heap m)" and ?h = "new_handler m"
  obtain w0 where c: "lib_connect lib ?r ?h w0 = (e, w1)"
    and m1: "heap m1 = heap m @ [?h]" "client m1 = (if e = None then Some ?r else None)"
    using ForceReconnect_result [OF assms(2)] by blast
  have e: "e = None" and w1: "w1 = snd (lib_connect lib ?r ?h w0)"
    using c assms(1) by (metis fst_conv reliable_def, simp)
  from assms(1) obtain s where s: "fst (lib_read lib ?r ?h fc a q w1) = Inr s"
    unfolding reliable_def w1 by blast
  have "case fst (lib_read lib ?r ?h fc a q w1) of
      Inl e \<Rightarrow> isConnError (Some e) | Inr s \<Rightarrow> sdata s = ans (hSlaveId ?h)"
    using assms(1) unfolding reliable_def by blast
  then have "sdata s = ans (slaveId m)"
    using s by (simp add: new_handler_def)
  then show thesis
    using m1 e s that by (cases "lib_read lib ?r ?h fc a q w1") (auto simp: lib_request_def)
qed

lemma reliable_request:
  assumes "reliable lib fc a q ans" "lib_request lib m fc a q w = (r, w1)" "client m \<noteq> None"
  shows "case r of Ok s \<Rightarrow> Some (sdata s) = map_option ans (request_slave m)
    | Err e \<Rightarrow> isConnError (Some e) | Panic p \<Rightarrow> False"
proof -
  obtain k where k: "client m = Some k" using assms(3) by blast
  have "case fst (lib_read lib k (heap m ! k) fc a q w) of
      Inl e \<Rightarrow> isConnError (Some e) | Inr s \<Rightarrow> sdata s = ans (hSlaveId (heap m ! k))"
    using assms(1) unfolding reliable_def by blast
  then show ?thesis
    using assms(2) k
    by (cases "lib_read lib k (heap m ! k) fc a q w")
      (auto simp: lib_request_def request_slave_def split: sum.splits)
qed

text \<open>A dropped connection, or none at all, is invisible to a read.\<close>

lemma fetch_recovers:
  assumes "reliable lib fc a q ans" "mb_wf m"
    and slave: "request_slave m = None \<or> request_slave m = Some (slaveId m)"
  obtains s m1 w1 where "mb_fetch lib m fc a q w = (Ok s, m1, w1)" "sdata s = ans (slaveId m)"
proof (cases "client m")
  case None
  obtain e m1 w1 where f: "ForceReconnect lib m w = (e, m1, w1)" by (metis prod_cases3)
  from request_after_reconnect [OF assms(1) f] obtain s w2 where
    "e = None" "lib_request lib m1 fc a q w1 = (Ok s, w2)" "sdata s = ans (slaveId m)" .
  with None f that show thesis by (auto simp: mb_fetch_def)
next
  case (Some k)
  with assms(2) have h: "handler m \<noteq> None" by (metis mb_wf_def option.discI)
  obtain r w1 where q: "lib_request lib m fc a q w = (r, w1)" by (metis prod.exhaust)
  have r: "case r of Ok s \<Rightarrow> Some (sdata s) = map_option ans (request_slave m)
    | Err e \<Rightarrow> isConnError (Some e) | Panic p \<Rightarrow> False"
    using reliable_request [OF assms(1) q] Some by simp
  show thesis
  proof (cases r)
    case (Ok s)
    moreover have "request_slave m = Some (slaveId m)"
      using slave Some by (auto simp: request_slave_def)
    ultimately show thesis
      using r q Some h that by (auto simp: mb_fetch_def)
  next
    case (Err e)
    obtain e2 m2 w2 where f: "ForceReconnect lib m w1 = (e2, m2, w2)" by (metis prod_cases3)
    from request_after_reconnect [OF assms(1) f] obtain s w3 where
      "e2 = None" "lib_request lib m2 fc a q w2 = (Ok s, w3)" "sdata s = ans (slaveId m)" .
    with Err r q Some h f that show thesis by (auto simp: mb_fetch_def)
  next
    case (Panic p)
    with r show thesis by simp
  qed
qed

text \<open>C15: when the device can be reached, a read returns exactly the registers asked for,
  big-endian and in order, even with no connection or one that was dropped: at most one
  reconnection is needed, and it addresses the same slave.\<close>

theorem ReadHoldingRegisters_recovers:
  assumes "mb_reach lib m w"
    and "request_slave m = None \<or> request_slave m = Some (slaveId m)"
    and "reliable lib FHolding a q
      (\<lambda>s. regs_bytes (map (\<lambda>i. regs s (a + word_of_nat i)) [0..<unat q]))"
  shows "fst (ReadHoldingRegisters lib m a q w) =
    Ok (map (\<lambda>i. regs (slaveId m) (a + word_of_nat i)) [0..<unat q])"
proof -
  let ?vs = "map (\<lambda>i. regs (slaveId m) (a + word_of_nat i)) [0..<unat q]"
  obtain s m1 w1 where f: "mb_fetch lib m FHolding a q w = (Ok s, m1, w1)"
    and s: "sdata s = regs_bytes ?vs"
    using fetch_recovers [OF assms(3) mb_reach_wf [OF assms(1)] assms(2)] by blast
  have "unpack_regs (word_of_nat (length ?vs)) (Slice (regs_bytes ?vs) (sspare s)) = Ok ?vs"
    by (rule unpack_regs_bytes) (use unsigned_less [of q] in simp)
  with f s show ?thesis
    by (cases s) (simp add: ReadHoldingRegisters_def)
qed

lemma sim_reliable:
  "reliable (sim_device regs) FHolding a q
     (\<lambda>s. regs_bytes (map (\<lambda>i. regs s (a + word_of_nat i)) [0..<unat q]))"
  by (simp add: reliable_def sim_device_def Let_def)

theorem ReadHoldingRegisters_recovers_witness:
  "fst (ReadHoldingRegisters (sim_device (\<lambda>s a. a * 2)) demo_client 7 3 False) = Ok [14, 16, 18]"
proof -
  have s: "request_slave demo_client = Some (slaveId demo_client)"
    by (simp add: request_slave_def demo_client_def)
  show ?thesis
    using ReadHoldingRegisters_recovers [where regs = "\<lambda>s a. a * 2" and a = 7 and q = 3,
        OF mb_reach.env [OF demo_reach] disjI2 [OF s] sim_reliable, of False]
    by (simp add: upt_rec)
qed

text \<open>
  Which requests are sent: the library with a log of the reads, in order, in front of its
  world.
\<close>

type_synonym mblog = "(mbfunc \<times> u16 \<times> u16) list"

definition logged :: "'w mblib \<Rightarrow> (mblog \<times> 'w) mblib" where
  "logged lib =
     \<lparr>lib_connect = (\<lambda>r h (l, w). let (e, w1) = lib_connect lib r h w in (e, l, w1)),
      lib_close = (\<lambda>r h (l, w). let (e, w1) = lib_close lib r h w in (e, l, w1)),
      lib_read = (\<lambda>r h fc a q (l, w).
        let (x, w1) = lib_read lib r h fc a q w in (x, l @ [(fc, a, q)], w1)),
      lib_write = (\<lambda>r h b (l, w). let (e, w1) = lib_write lib r h b w in (e, l, w1)),
      lib_now = (\<lambda>(l, w). lib_now lib w)\<rparr>"

lemma logged_request:
  "lib_request (logged lib) m fc a q lw = (r, lw1) \<Longrightarrow>
   fst lw1 = fst lw \<or> fst lw1 = fst lw @ [(fc, a, q)]"
  by (cases lw) (auto simp: lib_request_def logged_def split: option.splits prod.splits sum.splits)

lemma logged_reconnect:
  "ForceReconnect (logged lib) m lw = (e, m1, lw1) \<Longrightarrow> fst lw1 = fst lw"
  by (cases lw) (auto simp: ForceReconnect_def logged_def Let_def split: option.splits prod.splits)

text \<open>A read sends at most two requests, both for what it was asked: one retry after a
  reconnection, never a loop.\<close>

theorem read_at_most_two_requests:
  "\<exists>k \<le> 2. fst (snd (snd (mb_fetch (logged lib) m fc a q (l, w)))) = l @ replicate k (fc, a, q)"
proof -
  let ?c = "if handler m = None \<or> client m = None
    then ForceReconnect (logged lib) m (l, w) else (None, m, l, w)"
  obtain e m1 x where c: "?c = (e, m1, x)" by (metis prod_cases3)
  then have x: "fst x = l" by (auto split: if_splits dest: logged_reconnect)
  obtain r y where q: "lib_request (logged lib) m1 fc a q x = (r, y)" by (metis prod.exhaust)
  obtain e2 m2 z where f: "ForceReconnect (logged lib) m1 y = (e2, m2, z)" by (metis prod_cases3)
  obtain r2 u where q2: "lib_request (logged lib) m2 fc a q z = (r2, u)" by (metis prod.exhaust)
  have y: "\<exists>k \<le> 1. fst y = l @ replicate k (fc, a, q)"
    using logged_request [OF q] x by (auto intro: exI [of _ 0] exI [of _ 1])
  then have z: "\<exists>k \<le> 1. fst z = l @ replicate k (fc, a, q)"
    using logged_reconnect [OF f] by simp
  then have u: "\<exists>k \<le> 2. fst u = l @ replicate k (fc, a, q)"
  proof (elim exE conjE)
    fix k assume "k \<le> 1" "fst z = l @ replicate k (fc, a, q)"
    then show ?thesis
      using logged_request [OF q2]
      by (auto simp: replicate_append_same intro: exI [of _ k] exI [of _ "Suc k"])
  qed
  have "fst (snd (snd (mb_fetch (logged lib) m fc a q (l, w)))) \<in> {fst x, fst y, fst z, fst u}"
    unfolding mb_fetch_def c by (simp add: q f q2 split: option.split out.split)
  moreover have "\<exists>k \<le> 2. v = l @ replicate k (fc, a, q)"
    if "v \<in> {fst x, fst y, fst z, fst u}" for v
    using that x y z u le_trans [of _ 1 2] by (auto intro: exI [of _ 0])
  ultimately show ?thesis by blast
qed

section \<open>Writing and reading back\<close>

text \<open>
  A device that keeps what it accepted: a read of the coils (registers) just written answers
  with the bytes that were sent.
\<close>

definition keeps_coils :: "'w mblib \<Rightarrow> u16 \<Rightarrow> bool" where
  "keeps_coils lib a \<longleftrightarrow>
     (\<forall>r h n bs w w1. lib_write lib r h (WMultipleCoils a n bs) w = (None, w1) \<longrightarrow>
        (\<exists>sp w2. lib_read lib r h FCoils a n w1 = (Inr (Slice bs sp), w2)))"

definition keeps_regs :: "'w mblib \<Rightarrow> u16 \<Rightarrow> bool" where
  "keeps_regs lib a \<longleftrightarrow>
     (\<forall>r h n bs w w1. lib_write lib r h (WMultipleRegisters a n bs) w = (None, w1) \<longrightarrow>
        (\<exists>sp w2. lib_read lib r h FHolding a n w1 = (Inr (Slice bs sp), w2)))"

lemma lib_send_Ok:
  assumes "mb_reach lib m w" "lib_send lib m req w = (Ok (), w1)"
  obtains r where "client m = Some r" "handler m = Some r"
    "lib_write lib r (heap m ! r) req w = (None, w1)"
proof -
  obtain r where "client m = Some r" "lib_write lib r (heap m ! r) req w = (None, w1)"
    using assms(2) by (auto simp: lib_send_def split: option.splits prod.splits)
  moreover from this have "handler m = Some r"
    using mb_reach_wf [OF assms(1)] by (simp add: mb_wf_def)
  ultimately show thesis using that by blast
qed

lemma mb_fetch_connected:
  assumes "client m = Some r" "handler m = Some r"
    "lib_read lib r (heap m ! r) fc a q w = (Inr s, w1)"
  shows "mb_fetch lib m fc a q w = (Ok s, m, w1)"
  using assms by (simp add: mb_fetch_def lib_request_def)

text \<open>C28: coils written with \<open>WriteMultipleCoils\<close> are read back by \<open>ReadCoils\<close>: the packing
  (eight coils a byte, the first in the low bit) and the unpacking agree, for any number of
  coils a request can carry.\<close>

theorem coils_written_are_read:
  assumes "mb_reach lib m w" "keeps_coils lib a" "length vs < 2 ^ 16"
    and "WriteMultipleCoils lib m a vs w = (Ok (), w1)"
  shows "fst (ReadCoils lib m a (word_of_nat (length vs)) w1) = Ok vs"
proof -
  let ?n = "word_of_nat (length vs) :: u16"
  obtain r where r: "client m = Some r" "handler m = Some r"
    and wr: "lib_write lib r (heap m ! r) (WMultipleCoils a ?n (pack_bits vs)) w = (None, w1)"
    using lib_send_Ok [OF assms(1)] assms(4) by (auto simp: WriteMultipleCoils_def)
  obtain sp w2 where "lib_read lib r (heap m ! r) FCoils a ?n w1 = (Inr (Slice (pack_bits vs) sp), w2)"
    using assms(2) wr unfolding keeps_coils_def by blast
  from mb_fetch_connected [OF r this] show ?thesis
    by (simp add: ReadCoils_def unpack_pack_bits [OF assms(3)])
qed

theorem coils_written_are_read_witness:
  "fst (ReadCoils mem_device demo_client 5 (word_of_nat 3) (pack_bits [True, False, True]))
     = Ok [True, False, True]"
proof -
  have keeps: "keeps_coils mem_device 5"
    by (simp add: keeps_coils_def mem_device_def)
  have "WriteMultipleCoils mem_device demo_client 5 [True, False, True] [] =
      (Ok (), pack_bits [True, False, True])"
    by (simp add: WriteMultipleCoils_def lib_send_def demo_client_def mem_device_def)
  from coils_written_are_read [OF mem_reach keeps _ this] show ?thesis by simp
qed

text \<open>C27: registers written with \<open>WriteMultipleRegisters\<close> are read back by
  \<open>ReadHoldingRegisters\<close>: the two byte orders agree.\<close>

theorem registers_written_are_read:
  assumes "mb_reach lib m w" "keeps_regs lib a" "length vs < 2 ^ 16"
    and "WriteMultipleRegisters lib m a vs w = (Ok (), w1)"
  shows "fst (ReadHoldingRegisters lib m a (word_of_nat (length vs)) w1) = Ok vs"
proof -
  let ?n = "word_of_nat (length vs) :: u16"
  obtain r where r: "client m = Some r" "handler m = Some r"
    and wr: "lib_write lib r (heap m ! r) (WMultipleRegisters a ?n (regs_bytes vs)) w = (None, w1)"
    using lib_send_Ok [OF assms(1)] assms(4)
    by (auto simp: WriteMultipleRegisters_def put_loop_regs_bytes)
  obtain sp w2 where
    "lib_read lib r (heap m ! r) FHolding a ?n w1 = (Inr (Slice (regs_bytes vs) sp), w2)"
    using assms(2) wr unfolding keeps_regs_def by blast
  from mb_fetch_connected [OF r this] show ?thesis
    by (simp add: ReadHoldingRegisters_def unpack_regs_bytes [OF assms(3)])
qed

theorem registers_written_are_read_witness:
  "fst (ReadHoldingRegisters mem_device demo_client 9 (word_of_nat 2) (regs_bytes [513, 7]))
     = Ok [513, 7]"
proof -
  have keeps: "keeps_regs mem_device 9"
    by (simp add: keeps_regs_def mem_device_def)
  have "WriteMultipleRegisters mem_device demo_client 9 [513, 7] [] = (Ok (), regs_bytes [513, 7])"
    using put_loop_regs_bytes [of "[513, 7]"]
    by (simp add: WriteMultipleRegisters_def lib_send_def demo_client_def mem_device_def)
  from registers_written_are_read [OF mem_reach keeps _ this] show ?thesis by simp
qed

section \<open>Addresses\<close>

text \<open>The addresses 40001 to 49999 are holding registers numbered from 1: \<open>parseAddress\<close>
  gives register \<open>a\<close> for the address \<open>40001 + a\<close>.\<close>

theorem parseAddress_holding:
  assumes "a \<le> 9998"
  shows "parseAddress (dec_of_nat (40001 + a)) = Inr (word_of_nat a)"
proof -
  have "hd (dec_of_nat (40001 + a)) = CHR ''4''"
    using assms hd_dec_5 [of "40001 + a"] div_nat_eqI [of 10000 4 "40001 + a"]
    by simp
  then show ?thesis
    using assms by (subst parseAddress_dec) auto
qed

theorem parseAddress_holding_witness: "parseAddress ''40013'' = Inr 12"
proof -
  have d: "dec_of_nat (40001 + 12) = ''40013''"
    by (simp add: dec_of_nat.simps)
  show ?thesis using parseAddress_holding [of 12] unfolding d by simp
qed

text \<open>Every other address is numbered from 1 as well, unless its first digit is 4: then
  40001 is subtracted whatever its length, and an address below 40001 (a coil 42, say) wraps
  around to a register 25535 places further.\<close>

theorem parseAddress_other:
  assumes "10 \<le> n" "n \<le> 40000"
  shows "parseAddress (dec_of_nat n) =
    Inr (if hd (dec_of_nat n) = CHR ''4'' then word_of_nat (n + 25535) else word_of_nat (n - 1))"
proof -
  have "(- 40001 :: u16) = 25535" by simp
  then have "(word_of_nat n - 40001 :: u16) = word_of_nat n + 25535"
    by (metis diff_conv_add_uminus)
  moreover have "(word_of_nat n - 1 :: u16) = word_of_nat (n - 1)"
    using assms by (simp add: of_nat_diff)
  ultimately show ?thesis
    using assms by (subst parseAddress_dec) auto
qed

theorem parseAddress_other_witness: "parseAddress ''42'' = Inr 25577 \<and> parseAddress ''17'' = Inr 16"
proof -
  have d: "dec_of_nat 42 = ''42''" "dec_of_nat 17 = ''17''"
    by (simp_all add: dec_of_nat.simps)
  show ?thesis
    using parseAddress_other [of 42] parseAddress_other [of 17] unfolding d by simp
qed

end
