(* ===== verification/Modbus_Batch.thy ===== *)
theory Modbus_Batch
  imports Modbus_Session
begin

text \<open>
  The batch reads of \<open>protocols/modbus/modbus_tcp.go\<close>: points are parsed and sorted by
  address, neighbours are merged into one request, and each point's value is cut out of the
  answer. \<open>ReadBatchWithFormat\<close> (holding registers) and \<open>readInputRegistersBatch\<close> differ in the
  function code and the error text only, as do \<open>readCoilsBatch\<close> and \<open>readDiscreteInputsBatch\<close>;
  their loops are shared here. The requests go to the library's client directly, without the
  reconnection of the single reads.
\<close>


section \<open>Points and their order\<close>

datatype addrPoint = AddrPoint (ap_addr: u16) (ap_name: string) (ap_format: string)

datatype coilPoint = CoilPoint (cp_addr: u16) (cp_name: string)

text \<open>The \<open>less\<close> given to \<open>sort.Slice\<close> compares addresses only: a preorder.\<close>

instantiation addrPoint :: preorder
begin

definition less_eq_addrPoint :: "addrPoint \<Rightarrow> addrPoint \<Rightarrow> bool" where
  "less_eq_addrPoint p q \<longleftrightarrow> ap_addr p \<le> ap_addr q"

definition less_addrPoint :: "addrPoint \<Rightarrow> addrPoint \<Rightarrow> bool" where
  "less_addrPoint p q \<longleftrightarrow> ap_addr p < ap_addr q"

instance
  by standard (auto simp: less_eq_addrPoint_def less_addrPoint_def)

end

instantiation coilPoint :: preorder
begin

definition less_eq_coilPoint :: "coilPoint \<Rightarrow> coilPoint \<Rightarrow> bool" where
  "less_eq_coilPoint p q \<longleftrightarrow> cp_addr p \<le> cp_addr q"

definition less_coilPoint :: "coilPoint \<Rightarrow> coilPoint \<Rightarrow> bool" where
  "less_coilPoint p q \<longleftrightarrow> cp_addr p < cp_addr q"

instance
  by standard (auto simp: less_eq_coilPoint_def less_coilPoint_def)

end

text \<open>
  \<open>sort.Slice\<close> gives a permutation in which no element is less than an earlier one; elements
  with equal addresses may come in any order, so the sort is a parameter.
\<close>

definition slice_sort :: "('a::preorder list \<Rightarrow> 'a list) \<Rightarrow> bool" where
  "slice_sort srt \<longleftrightarrow> (\<forall>xs. mset (srt xs) = mset xs \<and> sorted_wrt (\<le>) (srt xs))"

lemma slice_sort_mset: "slice_sort srt \<Longrightarrow> mset (srt xs) = mset xs"
  by (simp add: slice_sort_def)

lemma slice_sort_set: "slice_sort srt \<Longrightarrow> set (srt xs) = set xs"
  by (metis slice_sort_mset set_mset_mset)

lemma slice_sort_sorted: "slice_sort srt \<Longrightarrow> sorted_wrt (\<le>) (srt xs)"
  by (simp add: slice_sort_def)

lemma slice_sort_Nil: "slice_sort srt \<Longrightarrow> srt xs = [] \<longleftrightarrow> xs = []"
  by (metis mset_zero_iff slice_sort_mset)

section \<open>Registers\<close>

definition getRegCount :: "string \<Rightarrow> nat" where
  "getRegCount format =
     (let f = go_upper format
      in if prefix ''FLOAT'' f \<or> prefix ''LONG'' f then 2
         else if prefix ''DOUBLE'' f then 4
         else 1)"

definition address_error :: "string \<Rightarrow> gerr \<Rightarrow> gerr" where
  "address_error a e = ErrText (''parse address for point '' @ a @ '' failed: '' @ err_text e)"

fun parse_points :: "PointConfig list \<Rightarrow> gerr + addrPoint list" where
  "parse_points [] = Inr []"
| "parse_points (pt # pts) =
     (case parseAddress (pc_Address pt) of
        Inl e \<Rightarrow> Inl (address_error (pc_Address pt) e)
      | Inr addr \<Rightarrow>
          (case parse_points pts of
             Inl e \<Rightarrow> Inl e
           | Inr aps \<Rightarrow> Inr (AddrPoint addr (pc_PointID pt) (pc_Format pt) # aps)))"

text \<open>
  The inner loop: \<open>scan_group start maxAddr points\<close> is the points that join the group begun at
  \<open>start\<close>, the group's last register, and the points left. All arithmetic is on 16 bits.
\<close>

fun scan_group :: "u16 \<Rightarrow> u16 \<Rightarrow> addrPoint list \<Rightarrow> addrPoint list \<times> u16 \<times> addrPoint list" where
  "scan_group start maxAddr [] = ([], maxAddr, [])"
| "scan_group start maxAddr (p # ps) =
     (let need = word_of_nat (getRegCount (ap_format p))
      in if ap_addr p \<le> maxAddr + 1 \<and> ap_addr p + need - start < 125
         then
           let maxAddr1 = (if maxAddr < ap_addr p + need - 1 then ap_addr p + need - 1 else maxAddr);
               (g, m, rest) = scan_group start maxAddr1 ps
           in (p # g, m, rest)
         else ([], maxAddr, p # ps))"

lemma scan_group_append: "scan_group s m ps = (g, m1, rest) \<Longrightarrow> ps = g @ rest"
  by (induction s m ps arbitrary: g m1 rest rule: scan_group.induct)
    (auto simp: Let_def split: if_splits prod.splits)

definition first_max :: "addrPoint \<Rightarrow> u16" where
  "first_max p = ap_addr p + word_of_nat (getRegCount (ap_format p)) - 1"

definition reg_point :: "i64 \<Rightarrow> u16 \<Rightarrow> slice \<Rightarrow> addrPoint \<Rightarrow> PointValue out" where
  "reg_point now base regVals p =
     (let offset = unat (ap_addr p - base);
          regCount = getRegCount (ap_format p)
      in if slice_len regVals div 2 < offset + regCount
         then Ok \<lparr>pv_PointID = ap_name p, pv_Value = VNil, pv_Quality = ''bad'', pv_Timestamp = now\<rparr>
         else bind_out (map_out (\<lambda>r. slice_u16 regVals ((offset + r) * 2)) [0..<regCount]) (\<lambda>vals.
           Ok \<lparr>pv_PointID = ap_name p,
               pv_Value = (if regCount = 1 then VUint16 (vals ! 0) else VU16s vals),
               pv_Quality = ''good'', pv_Timestamp = now\<rparr>))"

function reg_loop ::
  "'w mblib \<Rightarrow> modbusTCP \<Rightarrow> mbfunc \<Rightarrow> string \<Rightarrow> addrPoint list \<Rightarrow> PointValue list \<Rightarrow> 'w
    \<Rightarrow> PointValue list out \<times> 'w" where
  "reg_loop lib m fc msg [] results w = (Ok results, w)"
| "reg_loop lib m fc msg (p # ps) results w =
     (let (g, maxAddr, rest) = scan_group (ap_addr p) (first_max p) ps;
          base = ap_addr p;
          quantity = maxAddr - base + 1
      in case lib_request lib m fc base quantity w of
           (Err e, w1) \<Rightarrow> (Err (ErrText (msg @ err_text e)), w1)
         | (Panic x, w1) \<Rightarrow> (Panic x, w1)
         | (Ok s, w1) \<Rightarrow>
             (case map_out (reg_point (lib_now lib w1) base s) (p # g) of
                Ok vs \<Rightarrow> reg_loop lib m fc msg rest (results @ vs) w1
              | Err e \<Rightarrow> (Err e, w1)
              | Panic x \<Rightarrow> (Panic x, w1)))"
  by pat_completeness auto
termination
  by (relation "measure (\<lambda>(_, _, _, _, ps, _, _). length ps)")
    (auto dest!: sym [THEN scan_group_append])

declare reg_loop.simps(2) [simp del]

definition ReadBatchWithFormat ::
  "'w mblib \<Rightarrow> (addrPoint list \<Rightarrow> addrPoint list) \<Rightarrow> modbusTCP \<Rightarrow> PointConfig list \<Rightarrow> 'w
    \<Rightarrow> PointValue list out \<times> 'w" where
  "ReadBatchWithFormat lib srt m points w =
     (if points = [] then (Ok [], w)
      else case parse_points points of
        Inl e \<Rightarrow> (Err e, w)
      | Inr aps \<Rightarrow> reg_loop lib m FHolding ''modbus batch read failed: '' (srt aps) [] w)"

definition readInputRegistersBatch ::
  "'w mblib \<Rightarrow> (addrPoint list \<Rightarrow> addrPoint list) \<Rightarrow> modbusTCP \<Rightarrow> PointConfig list \<Rightarrow> 'w
    \<Rightarrow> PointValue list out \<times> 'w" where
  "readInputRegistersBatch lib srt m points w =
     (if points = [] then (Ok [], w)
      else case parse_points points of
        Inl e \<Rightarrow> (Err e, w)
      | Inr aps \<Rightarrow> reg_loop lib m FInput ''modbus input batch read failed: '' (srt aps) [] w)"

section \<open>Coils and discrete inputs\<close>

fun parse_coils :: "PointConfig list \<Rightarrow> gerr + coilPoint list" where
  "parse_coils [] = Inr []"
| "parse_coils (pt # pts) =
     (case parseAddress (pc_Address pt) of
        Inl e \<Rightarrow> Inl (address_error (pc_Address pt) e)
      | Inr addr \<Rightarrow>
          (case parse_coils pts of
             Inl e \<Rightarrow> Inl e
           | Inr cps \<Rightarrow> Inr (CoilPoint addr (pc_PointID pt) # cps)))"

fun scan_coils :: "u16 \<Rightarrow> u16 \<Rightarrow> coilPoint list \<Rightarrow> coilPoint list \<times> u16 \<times> coilPoint list" where
  "scan_coils start maxAddr [] = ([], maxAddr, [])"
| "scan_coils start maxAddr (p # ps) =
     (if cp_addr p = maxAddr + 1 \<and> cp_addr p - start < 2000
      then let (g, m, rest) = scan_coils start (cp_addr p) ps in (p # g, m, rest)
      else ([], maxAddr, p # ps))"

lemma scan_coils_append: "scan_coils s m ps = (g, m1, rest) \<Longrightarrow> ps = g @ rest"
  by (induction s m ps arbitrary: g m1 rest rule: scan_coils.induct)
    (auto split: if_splits prod.splits)

definition coil_point :: "i64 \<Rightarrow> u16 \<Rightarrow> slice \<Rightarrow> coilPoint \<Rightarrow> PointValue out" where
  "coil_point now base coils p =
     bind_out (bit_at coils (unat (cp_addr p - base))) (\<lambda>b.
       Ok \<lparr>pv_PointID = cp_name p, pv_Value = VBool b, pv_Quality = ''good'', pv_Timestamp = now\<rparr>)"

function coil_loop ::
  "'w mblib \<Rightarrow> modbusTCP \<Rightarrow> mbfunc \<Rightarrow> string \<Rightarrow> coilPoint list \<Rightarrow> PointValue list \<Rightarrow> 'w
    \<Rightarrow> PointValue list out \<times> 'w" where
  "coil_loop lib m fc msg [] results w = (Ok results, w)"
| "coil_loop lib m fc msg (p # ps) results w =
     (let (g, maxAddr, rest) = scan_coils (cp_addr p) (cp_addr p) ps;
          base = cp_addr p;
          quantity = maxAddr - base + 1
      in case lib_request lib m fc base quantity w of
           (Err e, w1) \<Rightarrow> (Err (ErrText (msg @ err_text e)), w1)
         | (Panic x, w1) \<Rightarrow> (Panic x, w1)
         | (Ok s, w1) \<Rightarrow>
             (case map_out (coil_point (lib_now lib w1) base s) (p # g) of
                Ok vs \<Rightarrow> coil_loop lib m fc msg rest (results @ vs) w1
              | Err e \<Rightarrow> (Err e, w1)
              | Panic x \<Rightarrow> (Panic x, w1)))"
  by pat_completeness auto
termination
  by (relation "measure (\<lambda>(_, _, _, _, ps, _, _). length ps)")
    (auto dest!: sym [THEN scan_coils_append])

declare coil_loop.simps(2) [simp del]

definition readCoilsBatch ::
  "'w mblib \<Rightarrow> (coilPoint list \<Rightarrow> coilPoint list) \<Rightarrow> modbusTCP \<Rightarrow> PointConfig list \<Rightarrow> 'w
    \<Rightarrow> PointValue list out \<times> 'w" where
  "readCoilsBatch lib srt m points w =
     (if points = [] then (Ok [], w)
      else case parse_coils points of
        Inl e \<Rightarrow> (Err e, w)
      | Inr cps \<Rightarrow> coil_loop lib m FCoils ''modbus coils batch read failed: '' (srt cps) [] w)"

definition readDiscreteInputsBatch ::
  "'w mblib \<Rightarrow> (coilPoint list \<Rightarrow> coilPoint list) \<Rightarrow> modbusTCP \<Rightarrow> PointConfig list \<Rightarrow> 'w
    \<Rightarrow> PointValue list out \<times> 'w" where
  "readDiscreteInputsBatch lib srt m points w =
     (if points = [] then (Ok [], w)
      else case parse_coils points of
        Inl e \<Rightarrow> (Err e, w)
      | Inr cps \<Rightarrow>
          coil_loop lib m FDiscrete ''modbus discrete inputs batch read failed: '' (srt cps) [] w)"

text \<open>\<open>ReadBatch\<close>: the address is the point's name too, and there is no format.\<close>

definition batch_config :: "string \<Rightarrow> PointConfig" where
  "batch_config pt =
     \<lparr>pc_PointID = pt, pc_Address = pt, pc_Type = [], pc_Unit = [], pc_Transform = [],
      pc_Format = []\<rparr>"

definition mb_ReadBatch ::
  "'w mblib \<Rightarrow> (addrPoint list \<Rightarrow> addrPoint list) \<Rightarrow> (coilPoint list \<Rightarrow> coilPoint list) \<Rightarrow>
   modbusTCP \<Rightarrow> string \<Rightarrow> string \<Rightarrow> string list \<Rightarrow> 'w \<Rightarrow> PointValue list out \<times> 'w" where
  "mb_ReadBatch lib srtr srtc m deviceID function points w =
     (let f = (if function = [] then ''03'' else function);
          cfgs = map batch_config points
      in if f = ''03'' then ReadBatchWithFormat lib srtr m cfgs w
         else if f = ''04'' then readInputRegistersBatch lib srtr m cfgs w
         else if f = ''01'' then readCoilsBatch lib srtc m cfgs w
         else if f = ''02'' then readDiscreteInputsBatch lib srtc m cfgs w
         else ReadBatchWithFormat lib srtr m cfgs w)"

section \<open>The requests of a batch\<close>

lemma getRegCount_cases: "getRegCount f = 1 \<or> getRegCount f = 2 \<or> getRegCount f = 4"
  by (simp add: getRegCount_def Let_def)

lemma getRegCount_pos: "1 \<le> getRegCount f" "getRegCount f \<le> 4"
  using getRegCount_cases [of f] by auto

lemmas unat_simps = unat_sub_if_size unat_plus_if_size word_le_nat_alt word_less_nat_alt word_size

lemma join_bound:
  fixes s a m c :: u16
  assumes "s \<le> a" "a \<le> m + 1" "unat (m - s) \<le> 123" "c = 1 \<or> c = 2 \<or> c = 4" "a + c - s < 125"
  shows "unat (a + c - 1 - s) \<le> 123"
  using assms
  by (auto simp: unat_simps split: if_splits)

lemma scan_group_bound:
  assumes "scan_group s m ps = (g, m1, rest)" "\<And>p. p \<in> set ps \<Longrightarrow> s \<le> ap_addr p"
    "unat (m - s) \<le> 123"
  shows "unat (m1 - s) \<le> 123"
  using assms
proof (induction s m ps arbitrary: g m1 rest rule: scan_group.induct)
  case (1 s m)
  then show ?case by simp
next
  case (2 s m p ps)
  let ?need = "word_of_nat (getRegCount (ap_format p)) :: u16"
  let ?m1 = "if m < ap_addr p + ?need - 1 then ap_addr p + ?need - 1 else m"
  show ?case
  proof (cases "ap_addr p \<le> m + 1 \<and> ap_addr p + ?need - s < 125")
    case True
    have "?need = 1 \<or> ?need = 2 \<or> ?need = 4"
      using getRegCount_cases [of "ap_format p"] by auto
    then have "unat (?m1 - s) \<le> 123"
      using join_bound [of s "ap_addr p" m ?need] True 2(3,4) by auto
    with True 2 show ?thesis
      by (auto simp: Let_def split: prod.splits)
  next
    case False
    with 2 show ?thesis by (auto simp: Let_def)
  qed
qed


lemma first_max_bound: "unat (first_max p - ap_addr p) \<le> 3"
  using getRegCount_cases [of "ap_format p"] by (auto simp: first_max_def)

lemma scan_group_first_bound:
  assumes "scan_group (ap_addr p) (first_max p) ps = (g, m1, rest)"
    "\<And>p'. p' \<in> set ps \<Longrightarrow> ap_addr p \<le> ap_addr p'"
  shows "1 \<le> unat (m1 - ap_addr p + 1) \<and> unat (m1 - ap_addr p + 1) \<le> 124"
proof -
  have "unat (m1 - ap_addr p) \<le> 123"
    by (rule scan_group_bound [OF assms]) (use first_max_bound [of p] in auto)
  then show ?thesis by (auto simp: unat_plus_if_size word_size)
qed

lemma sorted_first:
  "sorted_wrt (\<le>) (p # ps) \<Longrightarrow> p' \<in> set ps \<Longrightarrow> ap_addr p \<le> ap_addr p'"
  by (auto simp: less_eq_addrPoint_def)

lemma sorted_rest:
  "sorted_wrt (\<le>) (p # ps) \<Longrightarrow> ps = g @ rest \<Longrightarrow> sorted_wrt (\<le>) rest"
  by (auto simp: sorted_wrt_append)

lemma reg_point_names: "reg_point now base s p = Ok v \<Longrightarrow> pv_PointID v = ap_name p"
  by (auto simp: reg_point_def Let_def split: if_splits)

lemma map_out_names:
  assumes "map_out f xs = Ok vs" "\<And>x v. f x = Ok v \<Longrightarrow> nm v = k x"
  shows "map nm vs = map k xs"
  using assms(1) by (induction xs arbitrary: vs) (auto dest: assms(2))

lemma reg_loop_names:
  "reg_loop lib m fc msg ps acc w = (Ok vs, w1) \<Longrightarrow>
   map pv_PointID vs = map pv_PointID acc @ map ap_name ps"
proof (induction lib m fc msg ps acc w arbitrary: vs w1 rule: reg_loop.induct)
  case (1 lib m fc msg results w)
  then show ?case by simp
next
  case (2 lib m fc msg p ps results w)
  obtain g m1 rest where g: "scan_group (ap_addr p) (first_max p) ps = (g, m1, rest)"
    by (metis prod_cases3)
  from "2.prems" obtain s w2 us where
    q: "lib_request lib m fc (ap_addr p) (m1 - ap_addr p + 1) w = (Ok s, w2)"
    and us: "map_out (reg_point (lib_now lib w2) (ap_addr p) s) (p # g) = Ok us"
    and r: "reg_loop lib m fc msg rest (results @ us) w2 = (Ok vs, w1)"
    by (auto simp: reg_loop.simps(2) Let_def g split: prod.splits out.splits simp del: map_out.simps)
  have "map pv_PointID us = map ap_name (p # g)"
    by (rule map_out_names [OF us]) (rule reg_point_names)
  with "2.IH" [OF g [symmetric] refl refl refl refl q [symmetric] refl us r]
  show ?case using scan_group_append [OF g] by simp
qed


text \<open>A request for function \<open>fc\<close> of at least one and at most \<open>n\<close> values.\<close>

definition legal_request :: "mbfunc \<Rightarrow> nat \<Rightarrow> mbfunc \<times> u16 \<times> u16 \<Rightarrow> bool" where
  "legal_request fc n r = (case r of (f, a, q) \<Rightarrow> f = fc \<and> 1 \<le> unat q \<and> unat q \<le> n)"

lemma reg_loop_requests:
  assumes "reg_loop (logged lib) m fc msg ps acc lw = (r, lw1)" "sorted_wrt (\<le>) ps"
  shows "\<exists>reqs. fst lw1 = fst lw @ reqs \<and> length reqs \<le> length ps \<and>
    (\<forall>y \<in> set reqs. legal_request fc 124 y)"
  using assms
proof (induction "logged lib" m fc msg ps acc lw arbitrary: r lw1 rule: reg_loop.induct)
  case (1 m fc msg results lw)
  then show ?case by simp
next
  case (2 m fc msg p ps results lw)
  obtain g m1 rest where g: "scan_group (ap_addr p) (first_max p) ps = (g, m1, rest)"
    by (metis prod_cases3)
  let ?q = "m1 - ap_addr p + 1"
  have good: "legal_request fc 124 (fc, ap_addr p, ?q)"
    using scan_group_first_bound [OF g sorted_first [OF "2.prems"(2)]]
    by (simp add: legal_request_def)
  obtain x lw2 where q: "lib_request (logged lib) m fc (ap_addr p) ?q lw = (x, lw2)"
    by (metis prod.exhaust)
  obtain k where k: "fst lw2 = fst lw @ k" "length k \<le> 1" "\<forall>y \<in> set k. legal_request fc 124 y"
    using logged_request [OF q] good by auto
  note unf = "2.prems"(1) [unfolded reg_loop.simps(2) Let_def g prod.case q]
  show ?case
  proof (cases "\<exists>s us. x = Ok s \<and>
      map_out (reg_point (lib_now (logged lib) lw2) (ap_addr p) s) (p # g) = Ok us")
    case True
    then obtain s us where s: "x = Ok s"
      and us: "map_out (reg_point (lib_now (logged lib) lw2) (ap_addr p) s) (p # g) = Ok us" by blast
    with unf have "reg_loop (logged lib) m fc msg rest (results @ us) lw2 = (r, lw1)"
      by (simp del: map_out.simps)
    from "2.hyps" [OF g [symmetric] refl refl refl refl q [symmetric, unfolded s] refl us this
        sorted_rest [OF "2.prems"(2) scan_group_append [OF g]]]
    obtain reqs where "fst lw1 = fst lw2 @ reqs" "length reqs \<le> length rest"
      "\<forall>y \<in> set reqs. legal_request fc 124 y" by blast
    then show ?thesis
      using k scan_group_append [OF g] by (intro exI [of _ "k @ reqs"]) auto
  next
    case False
    with unf have "lw1 = lw2"
      by (auto split: out.splits simp del: map_out.simps)
    then show ?thesis
      using k by (intro exI [of _ k]) auto
  qed
qed

definition fits :: "addrPoint \<Rightarrow> bool" where
  "fits p \<longleftrightarrow> unat (ap_addr p) + getRegCount (ap_format p) \<le> 2 ^ 16"

lemma last_reg:
  fixes a m s c :: u16
  assumes "unat a + unat c \<le> 2 ^ 16" "s \<le> a" "s \<le> m" "unat m - unat s \<le> 123"
    "1 \<le> unat c" "unat c \<le> 4" "a \<le> m + 1"
  shows "unat (a + c - 1) = unat a + unat c - 1"
  using assms by (auto simp: unat_simps split: if_splits)

lemma scan_group_cover:
  assumes "scan_group s m ps = (g, m1, rest)"
    "\<And>p. p \<in> set ps \<Longrightarrow> s \<le> ap_addr p \<and> fits p" "s \<le> m" "unat (m - s) \<le> 123"
  shows "m \<le> m1 \<and> (\<forall>p \<in> set g. unat (ap_addr p) + getRegCount (ap_format p) \<le> unat m1 + 1)"
  using assms
proof (induction s m ps arbitrary: g m1 rest rule: scan_group.induct)
  case (1 s m)
  then show ?case by simp
next
  case (2 s m p ps)
  let ?n = "getRegCount (ap_format p)"
  let ?need = "word_of_nat ?n :: u16"
  let ?m1 = "if m < ap_addr p + ?need - 1 then ap_addr p + ?need - 1 else m"
  show ?case
  proof (cases "ap_addr p \<le> m + 1 \<and> ap_addr p + ?need - s < 125")
    case True
    have need: "?need = 1 \<or> ?need = 2 \<or> ?need = 4" "unat ?need = ?n"
      using getRegCount_cases [of "ap_format p"] by auto
    have p: "s \<le> ap_addr p" "fits p" using 2(3) by auto
    have "unat (?m1 - s) \<le> 123"
      using join_bound [of s "ap_addr p" m ?need] True need p 2(5) by auto
    moreover have "s \<le> ?m1" using 2(4) by auto
    moreover have "unat m - unat s \<le> 123" using 2(4,5) by (simp add: unat_sub)
    then have last: "unat (ap_addr p + ?need - 1) = unat (ap_addr p) + ?n - 1"
      using last_reg [of "ap_addr p" ?need s m] p 2(4) True need(2)
        getRegCount_pos [of "ap_format p"] by (simp add: fits_def)
    obtain g2 where g2: "scan_group s ?m1 ps = (g2, m1, rest)" "g = p # g2"
      using 2(2) True by (auto simp: Let_def split: prod.splits)
    ultimately have IH: "?m1 \<le> m1 \<and>
        (\<forall>p \<in> set g2. unat (ap_addr p) + getRegCount (ap_format p) \<le> unat m1 + 1)"
      using 2(1) [OF refl True refl g2(1)] 2(3) by auto
    moreover have "m \<le> ?m1" "ap_addr p + ?need - 1 \<le> ?m1" by auto
    ultimately show ?thesis
      using g2(2) last by (auto simp: word_le_nat_alt)
  next
    case False
    with 2 show ?thesis by (auto simp: Let_def)
  qed
qed

end
