(* ===== verification/Modbus_Registers.thy ===== *)
theory Modbus_Registers
  imports Modbus_Batch
begin

text \<open>
  What the batches of registers return: a batch against the single reads, the points it answers,
  the requests it sends, and what it does on a nil client.
\<close>

section \<open>A device that answers\<close>

text \<open>
  A library whose device holds the registers \<open>regs\<close> (per slave and address) and answers a
  request for 1 to 125 of them with their bytes, the high one first, as the Modbus protocol says.
\<close>

definition serves_regs :: "'w mblib \<Rightarrow> mbfunc \<Rightarrow> (byte \<Rightarrow> u16 \<Rightarrow> u16) \<Rightarrow> bool" where
  "serves_regs lib fc regs \<longleftrightarrow>
     (\<forall>r h a q w. 1 \<le> unat q \<and> unat q \<le> 125 \<longrightarrow>
        (\<exists>sp w1. lib_read lib r h fc a q w =
           (Inr (Slice (regs_bytes (map (\<lambda>i. regs (hSlaveId h) (a + word_of_nat i)) [0..<unat q])) sp),
            w1)))"

text \<open>What a point reads on its own, and what a value says apart from its time stamp.\<close>

definition reg_ref :: "(u16 \<Rightarrow> u16) \<Rightarrow> addrPoint \<Rightarrow> string \<times> goval \<times> string" where
  "reg_ref f p =
     (let n = getRegCount (ap_format p)
      in (ap_name p,
          (if n = 1 then VUint16 (f (ap_addr p))
           else VU16s (map (\<lambda>i. f (ap_addr p + word_of_nat i)) [0..<n])),
          ''good''))"

definition reading :: "PointValue \<Rightarrow> string \<times> goval \<times> string" where
  "reading v = (pv_PointID v, pv_Value v, pv_Quality v)"

lemma slice_u16_regs:
  assumes "sdata s = regs_bytes vs" "k < length vs"
  shows "slice_u16 s (k * 2) = Ok (vs ! k)"
  using assms regs_bytes_nth [of k vs] by (subst slice_u16_Ok) (auto simp: mult.commute)

lemma reg_point_served:
  assumes s: "sdata s = regs_bytes (map (\<lambda>i. f (base + word_of_nat i)) [0..<q])"
    and p: "base \<le> ap_addr p" "unat (ap_addr p) + getRegCount (ap_format p) \<le> unat base + q"
  shows "\<exists>v. reg_point now base s p = Ok v \<and> reading v = reg_ref f p"
proof -
  let ?n = "getRegCount (ap_format p)" and ?o = "unat (ap_addr p - base)"
  have o: "?o = unat (ap_addr p) - unat base" using p(1) by (simp add: unat_sub)
  then have le: "?o + ?n \<le> q"
    using p by (simp add: word_le_nat_alt)
  have "slice_u16 s ((?o + i) * 2) = Ok (f (ap_addr p + word_of_nat i))" if "i < ?n" for i
  proof -
    let ?vs = "map (\<lambda>i. f (base + word_of_nat i)) [0..<q]"
    have lt: "?o + i < length ?vs" using le that by simp
    have "base + word_of_nat (?o + i) = ap_addr p + word_of_nat i"
      by (simp add: algebra_simps)
    moreover have "?vs ! (?o + i) = f (base + word_of_nat (?o + i))"
      by (subst nth_map) (use lt in simp_all)
    ultimately have "?vs ! (?o + i) = f (ap_addr p + word_of_nat i)"
      by (simp only:)
    then show ?thesis
      by (simp only: slice_u16_regs [OF s lt])
  qed
  then have "map_out (\<lambda>r. slice_u16 s ((?o + r) * 2)) [0..<?n] =
      Ok (map (\<lambda>i. f (ap_addr p + word_of_nat i)) [0..<?n])"
    by (intro map_out_Ok) auto
  moreover have "\<not> slice_len s div 2 < ?o + ?n"
    using le by (simp add: slice_len_def s)
  ultimately show ?thesis
    using getRegCount_pos(1) [of "ap_format p"]
    by (auto simp: reg_point_def Let_def reading_def reg_ref_def)
qed

lemma map_out_exists:
  assumes "\<And>x. x \<in> set xs \<Longrightarrow> \<exists>v. f x = Ok v \<and> k v = h x"
  shows "\<exists>vs. map_out f xs = Ok vs \<and> map k vs = map h xs"
  using assms
proof (induction xs)
  case (Cons x xs)
  then obtain v vs where "f x = Ok v" "k v = h x" "map_out f xs = Ok vs" "map k vs = map h xs"
    by (metis list.set_intros)
  then show ?case by simp
qed simp

lemma reg_loop_served:
  assumes "client m = Some r" "serves_regs lib fc regs"
    and "sorted_wrt (\<le>) ps" "\<And>p. p \<in> set ps \<Longrightarrow> fits p"
  shows "\<exists>vs w1. reg_loop lib m fc msg ps acc w = (Ok (acc @ vs), w1) \<and>
    map reading vs = map (reg_ref (regs (hSlaveId (heap m ! r)))) ps"
  using assms(3,4)
proof (induction lib\<equiv>lib m\<equiv>m fc\<equiv>fc msg ps acc w rule: reg_loop.induct)
  case (1 msg results w)
  then show ?case by simp
next
  case (2 msg p ps results w)
  let ?f = "regs (hSlaveId (heap m ! r))"
  obtain g m1 rest where g: "scan_group (ap_addr p) (first_max p) ps = (g, m1, rest)"
    by (metis prod_cases3)
  let ?q = "m1 - ap_addr p + 1"
  have ps: "ps = g @ rest" using scan_group_append [OF g] .
  have first: "\<And>p'. p' \<in> set ps \<Longrightarrow> ap_addr p \<le> ap_addr p' \<and> fits p'"
    using sorted_first "2.prems" by auto
  have q: "1 \<le> unat ?q" "unat ?q \<le> 124"
    using scan_group_first_bound [OF g] first by auto
  have fm: "unat (first_max p) = unat (ap_addr p) + getRegCount (ap_format p) - 1"
    using "2.prems"(2) [of p] getRegCount_cases [of "ap_format p"]
    by (auto simp: first_max_def fits_def unat_simps split: if_splits)
  then have "ap_addr p \<le> first_max p"
    using getRegCount_pos [of "ap_format p"] by (simp add: word_le_nat_alt)
  then have cover: "first_max p \<le> m1"
    "\<And>x. x \<in> set g \<Longrightarrow> unat (ap_addr x) + getRegCount (ap_format x) \<le> unat m1 + 1"
    using scan_group_cover [OF g first] first_max_bound [of p] by auto
  have m1lt: "unat m1 < 2 ^ LENGTH(16)" by (rule unsigned_less)
  have uq: "unat (ap_addr p) + unat ?q = unat m1 + 1"
    using cover(1) fm getRegCount_pos(1) [of "ap_format p"] q
      m1lt
    by (auto simp: unat_simps split: if_splits)
  have q125: "unat ?q \<le> 125" using q(2) by simp
  obtain sp w2 where rd: "lib_read lib r (heap m ! r) fc (ap_addr p) ?q w =
      (Inr (Slice (regs_bytes (map (\<lambda>i. ?f (ap_addr p + word_of_nat i)) [0..<unat ?q])) sp), w2)"
    using assms(2) q(1) q125 unfolding serves_regs_def by blast
  define s where "s = Slice (regs_bytes (map (\<lambda>i. ?f (ap_addr p + word_of_nat i)) [0..<unat ?q])) sp"
  then have s: "sdata s = regs_bytes (map (\<lambda>i. ?f (ap_addr p + word_of_nat i)) [0..<unat ?q])"
    by simp
  have rq: "lib_request lib m fc (ap_addr p) ?q w = (Ok s, w2)"
    using assms(1) rd by (simp add: lib_request_def s_def)
  have "\<exists>v. reg_point (lib_now lib w2) (ap_addr p) s x = Ok v \<and> reading v = reg_ref ?f x"
    if "x \<in> set (p # g)" for x
  proof (rule reg_point_served [OF s])
    show "ap_addr p \<le> ap_addr x" using that first ps by auto
    show "unat (ap_addr x) + getRegCount (ap_format x) \<le> unat (ap_addr p) + unat ?q"
      using that cover fm uq by (auto simp: word_le_nat_alt)
  qed
  then obtain us where us: "map_out (reg_point (lib_now lib w2) (ap_addr p) s) (p # g) = Ok us"
    "map reading us = map (reg_ref ?f) (p # g)"
    using map_out_exists [where xs = "p # g"] by blast
  from "2.hyps" [OF g [symmetric] refl refl refl refl rq [symmetric] refl us(1)
      sorted_rest [OF "2.prems"(1) ps]] "2.prems"(2) ps
  obtain vs w1 where vs: "reg_loop lib m fc msg rest (results @ us) w2 = (Ok ((results @ us) @ vs), w1)"
    "map reading vs = map (reg_ref ?f) rest"
    by auto
  have "reg_loop lib m fc msg (p # ps) results w = (Ok (results @ us @ vs), w1)"
    using vs(1) us(1) by (simp add: reg_loop.simps(2) Let_def g rq del: map_out.simps)
  moreover have "map reading (us @ vs) = map (reg_ref ?f) (p # ps)"
    using us(2) vs(2) ps by simp
  ultimately show ?case by blast
qed


section \<open>What a batch of registers returns\<close>

lemma parse_points_names:
  "parse_points pts = Inr aps \<Longrightarrow> map ap_name aps = map pc_PointID pts"
  by (induction pts arbitrary: aps) (auto split: sum.splits)

lemma slice_sort_image:
  "slice_sort srt \<Longrightarrow> mset (map f (srt xs)) = mset (map f xs)"
  by (simp add: slice_sort_mset)

text \<open>The two register batches and the two coil batches, by function code.\<close>

definition reg_batch ::
  "mbfunc \<Rightarrow> 'w mblib \<Rightarrow> (addrPoint list \<Rightarrow> addrPoint list) \<Rightarrow> modbusTCP \<Rightarrow> PointConfig list \<Rightarrow> 'w
    \<Rightarrow> PointValue list out \<times> 'w" where
  "reg_batch fc lib srt m points w \<equiv>
     (if fc = FInput then readInputRegistersBatch lib srt m points w
      else ReadBatchWithFormat lib srt m points w)"

definition coil_batch ::
  "mbfunc \<Rightarrow> 'w mblib \<Rightarrow> (coilPoint list \<Rightarrow> coilPoint list) \<Rightarrow> modbusTCP \<Rightarrow> PointConfig list \<Rightarrow> 'w
    \<Rightarrow> PointValue list out \<times> 'w" where
  "coil_batch fc lib srt m points w \<equiv>
     (if fc = FDiscrete then readDiscreteInputsBatch lib srt m points w
      else readCoilsBatch lib srt m points w)"

definition reg_msg :: "mbfunc \<Rightarrow> string" where
  "reg_msg fc = (if fc = FInput then ''modbus input batch read failed: ''
                 else ''modbus batch read failed: '')"

lemma reg_batch_eq:
  assumes "fc = FHolding \<or> fc = FInput" "points \<noteq> []"
  shows "reg_batch fc lib srt m points w =
    (case parse_points points of Inl e \<Rightarrow> (Err e, w)
     | Inr aps \<Rightarrow> reg_loop lib m fc (reg_msg fc) (srt aps) [] w)"
  using assms by (auto simp: reg_batch_def reg_msg_def ReadBatchWithFormat_def
      readInputRegistersBatch_def split: sum.splits)

lemma reg_batch_Nil: "reg_batch fc lib srt m [] w = (Ok [], w)"
  by (simp add: reg_batch_def ReadBatchWithFormat_def readInputRegistersBatch_def)

text \<open>A device that always answers, from a given table of registers.\<close>

definition plain_device :: "(byte \<Rightarrow> u16 \<Rightarrow> u16) \<Rightarrow> 'w mblib" where
  "plain_device regs =
     \<lparr>lib_connect = (\<lambda>r h w. (None, w)),
      lib_close = (\<lambda>r h w. (None, w)),
      lib_read = (\<lambda>r h fc a q w.
        let vs = map (\<lambda>i. regs (hSlaveId h) (a + word_of_nat i)) [0..<unat q]
        in (Inr (Slice (if fc = FCoils \<or> fc = FDiscrete then pack_bits (map (\<lambda>v. v \<noteq> 0) vs)
                        else regs_bytes vs) []), w)),
      lib_write = (\<lambda>r h b w. (None, w)),
      lib_now = (\<lambda>w. 0)\<rparr>"

lemma plain_serves: "fc = FHolding \<or> fc = FInput \<Longrightarrow> serves_regs (plain_device regs) fc regs"
  by (auto simp: serves_regs_def plain_device_def Let_def)

lemma slice_sort_sort_key: "slice_sort (sort_key ap_addr)"
proof -
  have "sorted_wrt (\<le>) (sort_key ap_addr xs)" for xs
    using sorted_sort_key [of ap_addr xs]
    by (simp add: sorted_wrt_map less_eq_addrPoint_def [abs_def])
  then show ?thesis by (simp add: slice_sort_def)
qed

definition demo_points :: "PointConfig list" where
  "demo_points = [\<lparr>pc_PointID = ''flow'', pc_Address = ''11'', pc_Type = [], pc_Unit = [],
       pc_Transform = [], pc_Format = ''Float AB CD''\<rparr>,
     (batch_config ''10'')]"

lemma demo_parse:
  "parse_points demo_points = Inr [AddrPoint 10 ''flow'' ''Float AB CD'', AddrPoint 9 ''10'' []]"
  by code_simp

lemma demo_counts: "getRegCount ''Float AB CD'' = 2" "getRegCount [] = 1"
  by code_simp+

lemma demo_fits: "\<forall>p \<in> set [AddrPoint 10 ''flow'' ''Float AB CD'', AddrPoint 9 ''10'' []]. fits p"
  by (simp add: fits_def demo_counts)

lemma batch_served:
  assumes "fc = FHolding \<or> fc = FInput" "slice_sort srt" "client m = Some r"
    and "serves_regs lib fc regs"
    and "parse_points points = Inr aps" "\<forall>p \<in> set aps. fits p"
  shows "\<exists>vs w1. reg_batch fc lib srt m points w = (Ok vs, w1) \<and>
    mset (map reading vs) = mset (map (reg_ref (regs (hSlaveId (heap m ! r)))) aps)"
proof (cases "points = []")
  case True
  with assms(5) show ?thesis by (simp add: reg_batch_Nil)
next
  case False
  note eq = reg_batch_eq [OF assms(1) False]
  have "\<And>p. p \<in> set (srt aps) \<Longrightarrow> fits p"
    using assms(6) slice_sort_set [OF assms(2)] by blast
  from reg_loop_served [OF assms(3,4) slice_sort_sorted [OF assms(2)] this]
  obtain vs w1 where "reg_loop lib m fc (reg_msg fc) (srt aps) [] w = (Ok ([] @ vs), w1)"
    "map reading vs = map (reg_ref (regs (hSlaveId (heap m ! r)))) (srt aps)"
    by blast
  then show ?thesis
    unfolding eq using assms(5) slice_sort_image [OF assms(2)]
    by (simp del: mset_map)
qed

text \<open>C2: merging neighbouring registers into one request changes nothing: when the device
  answers, every point gets exactly the value it would read on its own (one word, or the two
  or four words its format takes), with quality good, and nothing else is returned. This
  holds for any order the sort gives equal addresses, and any points within the 65536
  registers; in particular the computation of the group's last register never falls short.\<close>

theorem batch_equals_single_reads:
  assumes "fc = FHolding \<or> fc = FInput" "slice_sort srt" "client m = Some r"
    and "serves_regs lib fc regs"
    and "parse_points points = Inr aps" "\<forall>p \<in> set aps. fits p"
  shows "\<exists>vs w1. reg_batch fc lib srt m points w = (Ok vs, w1) \<and>
    mset (map reading vs) = mset (map (reg_ref (regs (hSlaveId (heap m ! r)))) aps)"
  by (rule batch_served [OF assms])

theorem batch_equals_single_reads_witness:
  "\<exists>vs w1. reg_batch FHolding (plain_device (\<lambda>s a. a * 3)) (sort_key ap_addr) demo_client demo_points ()
     = (Ok vs, w1) \<and>
   mset (map reading vs) =
     {#(''flow'', VU16s [30, 33], ''good''), (''10'', VUint16 27, ''good'')#}"
proof -
  have "client demo_client = Some 0" by (simp add: demo_client_def)
  from batch_equals_single_reads [OF disjI1 [OF refl] slice_sort_sort_key this
      plain_serves [OF disjI1 [OF refl]] demo_parse demo_fits,
      where regs = "\<lambda>s a. a * 3" and w = "()"]
  show ?thesis by (simp add: reg_ref_def demo_counts upt_rec)
qed

text \<open>A batch of registers that succeeds has exactly one value for each point asked,
  whatever the device answered: none is lost, none is returned twice.\<close>

theorem batch_one_value_per_point:
  assumes "fc = FHolding \<or> fc = FInput" "slice_sort srt"
    and "reg_batch fc lib srt m points w = (Ok vs, w1)"
  shows "mset (map pv_PointID vs) = mset (map pc_PointID points)"
proof (cases "points = []")
  case True
  with assms(3) show ?thesis by (simp add: reg_batch_Nil)
next
  case False
  note eq = reg_batch_eq [OF assms(1) False]
  obtain aps where aps: "parse_points points = Inr aps"
    and r: "reg_loop lib m fc (reg_msg fc) (srt aps) [] w = (Ok vs, w1)"
    using assms(3) unfolding eq by (auto split: sum.splits)
  then show ?thesis
    using reg_loop_names [OF r] slice_sort_image [OF assms(2), of ap_name aps]
    by (simp add: parse_points_names [OF aps] del: mset_map)
qed

lemma demo_batch:
  "reg_batch FHolding (plain_device (\<lambda>s a. a)) (sort_key ap_addr) demo_client demo_points () =
     (Ok [\<lparr>pv_PointID = ''10'', pv_Value = VUint16 9, pv_Quality = ''good'', pv_Timestamp = 0\<rparr>,
          \<lparr>pv_PointID = ''flow'', pv_Value = VU16s [10, 11], pv_Quality = ''good'', pv_Timestamp = 0\<rparr>],
      ())"
  by code_simp

theorem batch_one_value_per_point_witness:
  "\<exists>vs w. reg_batch FHolding (plain_device (\<lambda>s a. a)) (sort_key ap_addr) demo_client demo_points () = (Ok vs, w)
     \<and> mset (map pv_PointID vs) = {#''flow'', ''10''#}"
  using demo_batch batch_one_value_per_point [OF disjI1 [OF refl] slice_sort_sort_key demo_batch]
  by (simp add: demo_points_def batch_config_def)

lemma parse_points_length: "parse_points pts = Inr aps \<Longrightarrow> length aps = length pts"
  using parse_points_names map_eq_imp_length_eq by blast

text \<open>C12: every request a batch of registers sends asks for 1 to 124 registers, within the
  protocol's limit of 125, even for addresses at the end of the range where the 16-bit sums
  wrap around; and it sends no more requests than there are points.\<close>

theorem batch_requests_legal:
  assumes "fc = FHolding \<or> fc = FInput" "slice_sort srt"
  shows "\<exists>reqs. fst (snd (reg_batch fc (logged lib) srt m points (l, w))) = l @ reqs \<and>
    length reqs \<le> length points \<and> (\<forall>y \<in> set reqs. legal_request fc 124 y)"
proof (cases "points = []")
  case True
  then show ?thesis by (simp add: reg_batch_Nil)
next
  case False
  note eq = reg_batch_eq [OF assms(1) False]
  show ?thesis
  proof (cases "parse_points points")
    case (Inl e)
    then show ?thesis unfolding eq by simp
  next
    case (Inr aps)
    obtain r lw1 where rl: "reg_loop (logged lib) m fc (reg_msg fc) (srt aps) [] (l, w) = (r, lw1)"
      by (metis prod.exhaust)
    have len: "length (srt aps) = length points"
      by (metis Inr assms(2) mset_eq_length parse_points_length slice_sort_mset)
    from reg_loop_requests [OF rl slice_sort_sorted [OF assms(2)]] len
    show ?thesis
      unfolding eq using Inr rl by auto
  qed
qed

theorem batch_requests_legal_witness:
  "\<exists>reqs. fst (snd (reg_batch FInput (logged (plain_device (\<lambda>s a. a))) (sort_key ap_addr)
      demo_client demo_points ([], ()))) = reqs \<and> length reqs \<le> 2 \<and>
    (\<forall>y \<in> set reqs. legal_request FInput 124 y)"
  using batch_requests_legal [OF disjI2 [OF refl] slice_sort_sort_key,
      of "plain_device (\<lambda>s a. a)" demo_client demo_points "[]" "()"]
  by (simp add: demo_points_def)

section \<open>A nil client\<close>

lemma reg_loop_nil:
  "client m = None \<Longrightarrow> ps \<noteq> [] \<Longrightarrow> reg_loop lib m fc msg ps acc w = (Panic NilDeref, w)"
  by (cases ps) (auto simp: reg_loop.simps(2) Let_def lib_request_def split: prod.splits)

text \<open>The one read of registers that corresponds to a batch.\<close>

definition single_read ::
  "mbfunc \<Rightarrow> 'w mblib \<Rightarrow> modbusTCP \<Rightarrow> u16 \<Rightarrow> u16 \<Rightarrow> 'w \<Rightarrow> u16 list out \<times> modbusTCP \<times> 'w" where
  "single_read fc lib m a q w =
     (if fc = FInput then ReadInputRegisters lib m a q w else ReadHoldingRegisters lib m a q w)"

text \<open>A failed reconnection leaves nothing to close, and a later one starts from the client's address.\<close>

lemma fetch_after_failure:
  assumes "ForceReconnect lib m w = (Some e, m1, w1)"
    and "lib_connect lib (length (heap m1)) (new_handler m1) w2 =
      (None, w3)"
    and "lib_read lib (length (heap m1)) (new_handler m1)
      fc a q w3 = (Inr s, w4)"
  shows "\<exists>m2. mb_fetch lib m1 fc a q w2 = (Ok s, m2, w4) \<and> client m2 = Some (length (heap m1))"
proof -
  have h: "handler m1 = None"
    using assms(1) by (auto simp: ForceReconnect_def Let_def split: option.splits prod.splits)
  let ?m2 = "m1\<lparr>heap := heap m1 @ [new_handler m1],
    handler := Some (length (heap m1)), client := Some (length (heap m1))\<rparr>"
  have "ForceReconnect lib m1 w2 = (None, ?m2, w3)"
    using h assms(2) by (simp add: ForceReconnect_def new_handler_def Let_def)
  then have "mb_fetch lib m1 fc a q w2 = (Ok s, ?m2, w4)"
    using h assms(3) by (simp add: mb_fetch_def lib_request_def)
  then show ?thesis by simp
qed

text \<open>C29: the batch reads have none of the reconnection their comments claim. After a reconnection
  that failed, a batch of registers panics, whatever the network does by then; a single read of
  the same client connects anew, and when the connection succeeds and the device answers, it
  returns the device's registers and leaves the client connected.\<close>

theorem batch_panics_after_failed_reconnect:
  assumes "fc = FHolding \<or> fc = FInput" "slice_sort srt"
    and "mb_Reconnect lib m w = (Some e, m1, w1)"
    and "points \<noteq> []" "parse_points points = Inr aps"
    and "lib_connect lib (length (heap m1)) (new_handler m1) w2 =
      (None, w3)"
    and "lib_read lib (length (heap m1)) (new_handler m1)
      fc a q w3 = (Inr (Slice (regs_bytes vs) sp), w4)" "length vs = unat q"
  shows "fst (reg_batch fc lib srt m1 points w2) = Panic NilDeref \<and>
    (\<exists>m2. single_read fc lib m1 a q w2 = (Ok vs, m2, w4) \<and> client m2 = Some (length (heap m1)))"
proof
  have f: "ForceReconnect lib m w = (Some e, m1, w1)"
    using assms(3) by (simp add: mb_Reconnect_def)
  have "aps \<noteq> []" using assms(4) parse_points_length [OF assms(5)] by auto
  then have ne: "srt aps \<noteq> []" using slice_sort_Nil [OF assms(2)] by simp
  note eq = reg_batch_eq [OF assms(1,4)]
  show "fst (reg_batch fc lib srt m1 points w2) = Panic NilDeref"
    unfolding eq by (simp add: assms(5) reg_loop_nil [OF ForceReconnect_Some [OF f] ne])
  have "unpack_regs (word_of_nat (length vs)) (Slice (regs_bytes vs) sp) = Ok vs"
    by (rule unpack_regs_bytes) (use assms(8) unsigned_less [of q] in simp)
  then have "unpack_regs q (Slice (regs_bytes vs) sp) = Ok vs" by (simp add: assms(8))
  with fetch_after_failure [OF f assms(6,7)]
  show "\<exists>m2. single_read fc lib m1 a q w2 = (Ok vs, m2, w4) \<and> client m2 = Some (length (heap m1))"
    using assms(1) by (auto simp: single_read_def ReadHoldingRegisters_def ReadInputRegisters_def)
qed

text \<open>A network that can connect in some worlds only.\<close>

definition flaky_device :: "bool mblib" where
  "flaky_device = (plain_device (\<lambda>s a. a))\<lparr>lib_connect := \<lambda>r h w. (if w then None else Some EOF, w)\<rparr>"

theorem batch_panics_after_failed_reconnect_witness:
  "\<exists>m1 m2. mb_Reconnect flaky_device demo_client False = (Some EOF, m1, False) \<and>
     fst (reg_batch FHolding flaky_device (sort_key ap_addr) m1 demo_points True) = Panic NilDeref \<and>
     single_read FHolding flaky_device m1 5 2 True = (Ok [5, 6], m2, True)"
proof -
  obtain m1 where m1: "mb_Reconnect flaky_device demo_client False = (Some EOF, m1, False)"
    by (simp add: mb_Reconnect_def ForceReconnect_def demo_client_def flaky_device_def plain_device_def Let_def)
  have c: "lib_connect flaky_device r h True = (None, True)" for r h
    by (simp add: flaky_device_def)
  have u: "map (\<lambda>i. 5 + word_of_nat i) [0..<2] = [5, 6 :: u16]" by (simp add: upt_rec)
  have r: "lib_read flaky_device r h FHolding 5 2 True = (Inr (Slice (regs_bytes [5, 6]) []), True)" for r h
    by (simp add: flaky_device_def plain_device_def Let_def u)
  have "demo_points \<noteq> []" by (simp add: demo_points_def)
  from batch_panics_after_failed_reconnect [OF disjI1 [OF refl] slice_sort_sort_key m1 this demo_parse c r] m1
  show ?thesis by auto
qed

section \<open>ReadBatch gives single registers\<close>

lemma reg_point_single:
  assumes "reg_point now base s p = Ok v" "getRegCount (ap_format p) = 1"
  shows "pv_Value v = VNil \<or> (\<exists>x. pv_Value v = VUint16 x)"
  using assms by (auto simp: reg_point_def Let_def split: if_splits)

lemma map_out_all:
  assumes "map_out f xs = Ok vs" "\<And>x v. x \<in> set xs \<Longrightarrow> f x = Ok v \<Longrightarrow> P v" "v \<in> set vs"
  shows "P v"
proof -
  from map_out_Ok_length [OF assms(1)] assms(3) obtain i where "i < length xs" "v = vs ! i"
    by (auto simp: in_set_conv_nth)
  with map_out_Ok_nth [OF assms(1)] show ?thesis by (auto intro: assms(2) [of "xs ! i"])
qed

lemma reg_loop_all:
  assumes "\<And>now base s p v. p \<in> S \<Longrightarrow> reg_point now base s p = Ok v \<Longrightarrow> P v"
  shows "reg_loop lib m fc msg ps acc w = (Ok vs, w1) \<Longrightarrow> set ps \<subseteq> S \<Longrightarrow> \<forall>v \<in> set acc. P v \<Longrightarrow>
    \<forall>v \<in> set vs. P v"
proof (induction lib m fc msg ps acc w arbitrary: vs w1 rule: reg_loop.induct)
  case (1 lib m fc msg results w)
  then show ?case by simp
next
  case (2 lib m fc msg p ps results w)
  obtain g m1 rest where g: "scan_group (ap_addr p) (first_max p) ps = (g, m1, rest)"
    by (metis prod_cases3)
  note ps = scan_group_append [OF g]
  from "2.prems" obtain s w2 us where
    q: "lib_request lib m fc (ap_addr p) (m1 - ap_addr p + 1) w = (Ok s, w2)"
    and us: "map_out (reg_point (lib_now lib w2) (ap_addr p) s) (p # g) = Ok us"
    and r: "reg_loop lib m fc msg rest (results @ us) w2 = (Ok vs, w1)"
    by (auto simp: reg_loop.simps(2) Let_def g split: prod.splits out.splits simp del: map_out.simps)
  have "\<forall>v \<in> set us. P v"
    by (rule ballI, rule map_out_all [OF us]) (use assms "2.prems"(2) ps in auto)
  with "2.IH" [OF g [symmetric] refl refl refl refl q [symmetric] refl us r] "2.prems"(2,3) ps
  show ?case by auto
qed

lemma parse_batch_config:
  "parse_points (map batch_config pts) = Inr aps \<Longrightarrow> p \<in> set aps \<Longrightarrow> getRegCount (ap_format p) = 1"
  by (induction pts arbitrary: aps)
    (auto simp: batch_config_def getRegCount_def split: sum.splits)

lemma mb_ReadBatch_single:
  assumes "slice_sort srtr" "function \<notin> {''01'', ''02''}"
    and "mb_ReadBatch lib srtr srtc m dev function points w = (Ok vs, w1)" "v \<in> set vs"
  shows "pv_Value v = VNil \<or> (\<exists>x. pv_Value v = VUint16 x)"
proof -
  obtain fc where fc: "fc = FHolding \<or> fc = FInput"
    and rb: "reg_batch fc lib srtr m (map batch_config points) w = (Ok vs, w1)"
  proof (cases "function = ''04''")
    case True
    then show thesis
      using assms(3) that [of FInput] by (simp add: mb_ReadBatch_def reg_batch_def)
  next
    case False
    then show thesis
      using assms(2,3) that [of FHolding]
      by (auto simp: mb_ReadBatch_def reg_batch_def Let_def split: if_splits)
  qed
  show ?thesis
  proof (cases "points = []")
    case True
    with rb assms(4) show ?thesis by (simp add: reg_batch_Nil)
  next
    case False
    then have eq: "reg_batch fc lib srtr m (map batch_config points) w =
      (case parse_points (map batch_config points) of Inl e \<Rightarrow> (Err e, w)
       | Inr aps \<Rightarrow> reg_loop lib m fc (reg_msg fc) (srtr aps) [] w)"
      by (intro reg_batch_eq [OF fc]) simp
    obtain aps where aps: "parse_points (map batch_config points) = Inr aps"
      and r: "reg_loop lib m fc (reg_msg fc) (srtr aps) [] w = (Ok vs, w1)"
      using rb unfolding eq by (auto split: sum.splits)
    have "\<forall>v \<in> set vs. pv_Value v = VNil \<or> (\<exists>x. pv_Value v = VUint16 x)"
    proof (rule reg_loop_all [OF _ r, of "{p. getRegCount (ap_format p) = 1}"])
      show "set (srtr aps) \<subseteq> {p. getRegCount (ap_format p) = 1}"
        using parse_batch_config [OF aps] slice_sort_set [OF assms(1)] by auto
    qed (auto dest: reg_point_single)
    with assms(4) show ?thesis by blast
  qed
qed

text \<open>\<open>ReadBatch\<close> drops the points' formats, so for the register functions every value is
  one register (or nil for a bad point): the two or four registers of a Float, Long or
  Double point never reach the caller.\<close>

theorem ReadBatch_single_registers:
  assumes "slice_sort srtr" "function \<notin> {''01'', ''02''}"
    and "mb_ReadBatch lib srtr srtc m dev function points w = (Ok vs, w1)" "v \<in> set vs"
  shows "pv_Value v = VNil \<or> (\<exists>x. pv_Value v = VUint16 x)"
  by (rule mb_ReadBatch_single [OF assms])

lemma demo_ReadBatch:
  "mb_ReadBatch (plain_device (\<lambda>s a. a)) (sort_key ap_addr) (\<lambda>ps. ps) demo_client ''d'' ''03'' [''10''] ()
     = (Ok [\<lparr>pv_PointID = ''10'', pv_Value = VUint16 9, pv_Quality = ''good'', pv_Timestamp = 0\<rparr>], ())"
  by code_simp

theorem ReadBatch_single_registers_witness:
  "\<forall>v \<in> set [\<lparr>pv_PointID = ''10'', pv_Value = VUint16 9, pv_Quality = ''good'', pv_Timestamp = 0\<rparr>].
     pv_Value v = VNil \<or> (\<exists>x. pv_Value v = VUint16 x)"
  using ReadBatch_single_registers [OF slice_sort_sort_key _ demo_ReadBatch] by fastforce

end
