(* ===== verification/Modbus_Coils.thy ===== *)
theory Modbus_Coils
  imports Modbus_Registers
begin

text \<open>
  What the batches of coils and discrete inputs return, the requests they send, and what coils
  and registers do with an answer that is too short.
\<close>

section \<open>Groups of coils\<close>

lemma coil_join:
  fixes s m a :: u16
  assumes "unat (m - s) \<le> 1999" "a = m + 1" "a - s < 2000"
  shows "unat (a - s) = unat (m - s) + 1" "unat (a - s) \<le> 1999"
proof -
  have a: "a - s = (m - s) + 1" using assms(2) by simp
  show "unat (a - s) = unat (m - s) + 1"
    unfolding a using assms(1) by (subst unat_plus_if_size) (simp add: word_size)
  show "unat (a - s) \<le> 1999" using assms(3) by (simp add: word_less_nat_alt)
qed

lemma scan_coils_bound:
  assumes "scan_coils s m ps = (g, m1, rest)" "unat (m - s) \<le> 1999"
  shows "unat (m - s) \<le> unat (m1 - s) \<and> unat (m1 - s) \<le> 1999 \<and>
    (\<forall>p \<in> set g. unat (cp_addr p - s) \<le> unat (m1 - s))"
  using assms
proof (induction s m ps arbitrary: g m1 rest rule: scan_coils.induct)
  case (1 s m)
  then show ?case by simp
next
  case (2 s m p ps)
  show ?case
  proof (cases "cp_addr p = m + 1 \<and> cp_addr p - s < 2000")
    case True
    obtain g2 where g2: "scan_coils s (cp_addr p) ps = (g2, m1, rest)" "g = p # g2"
      using "2.prems"(1) True by (auto split: prod.splits)
    note j = coil_join [OF "2.prems"(2) conjunct1 [OF True] conjunct2 [OF True]]
    have "unat (cp_addr p - s) \<le> unat (m1 - s) \<and> unat (m1 - s) \<le> 1999 \<and>
        (\<forall>p \<in> set g2. unat (cp_addr p - s) \<le> unat (m1 - s))"
      using "2.IH" [OF True g2(1) j(2)] .
    then show ?thesis using g2(2) j(1) by auto
  next
    case False
    with "2.prems" show ?thesis by auto
  qed
qed

lemma coil_quantity:
  fixes m1 a :: u16
  assumes "unat (m1 - a) \<le> 1999"
  shows "unat (m1 - a + 1) = unat (m1 - a) + 1"
  using assms by (simp add: unat_plus_if_size word_size)

section \<open>A device with coils\<close>

definition serves_coils :: "'w mblib \<Rightarrow> mbfunc \<Rightarrow> (byte \<Rightarrow> u16 \<Rightarrow> bool) \<Rightarrow> bool" where
  "serves_coils lib fc coils \<longleftrightarrow>
     (\<forall>r h a q w. 1 \<le> unat q \<and> unat q \<le> 2000 \<longrightarrow>
        (\<exists>sp w1. lib_read lib r h fc a q w =
           (Inr (Slice (pack_bits (map (\<lambda>i. coils (hSlaveId h) (a + word_of_nat i)) [0..<unat q])) sp),
            w1)))"

definition coil_ref :: "(u16 \<Rightarrow> bool) \<Rightarrow> coilPoint \<Rightarrow> string \<times> goval \<times> string" where
  "coil_ref f p = (cp_name p, VBool (f (cp_addr p)), ''good'')"

lemma coil_point_served:
  assumes "unat (cp_addr p - base) < q"
  shows "\<exists>v. coil_point now base (Slice (pack_bits (map (\<lambda>i. f (base + word_of_nat i)) [0..<q])) sp) p
      = Ok v \<and> reading v = coil_ref f p"
proof -
  let ?vs = "map (\<lambda>i. f (base + word_of_nat i)) [0..<q]" and ?o = "unat (cp_addr p - base)"
  have "bit_at (Slice (pack_bits ?vs) sp) ?o = Ok (?vs ! ?o)"
    using assms bit_pack_bits [of ?o ?vs] by (subst bit_at_Ok) auto
  moreover have "?vs ! ?o = f (cp_addr p)"
    using assms by simp
  ultimately show ?thesis
    by (simp add: coil_point_def reading_def coil_ref_def)
qed

lemma coil_loop_served:
  assumes "client m = Some r" "serves_coils lib fc coils"
  shows "\<exists>vs w1. coil_loop lib m fc msg ps acc w = (Ok (acc @ vs), w1) \<and>
    map reading vs = map (coil_ref (coils (hSlaveId (heap m ! r)))) ps"
proof (induction lib\<equiv>lib m\<equiv>m fc\<equiv>fc msg ps acc w rule: coil_loop.induct)
  case (1 msg results w)
  then show ?case by simp
next
  case (2 msg p ps results w)
  let ?f = "coils (hSlaveId (heap m ! r))"
  obtain g m1 rest where g: "scan_coils (cp_addr p) (cp_addr p) ps = (g, m1, rest)"
    by (metis prod_cases3)
  let ?q = "m1 - cp_addr p + 1"
  have ps: "ps = g @ rest" using scan_coils_append [OF g] .
  have b: "unat (m1 - cp_addr p) \<le> 1999"
    "\<And>x. x \<in> set g \<Longrightarrow> unat (cp_addr x - cp_addr p) \<le> unat (m1 - cp_addr p)"
    using scan_coils_bound [OF g] by auto
  note uq = coil_quantity [OF b(1)]
  have q: "1 \<le> unat ?q" "unat ?q \<le> 2000" using uq b(1) by auto
  then obtain sp w2 where rd: "lib_read lib r (heap m ! r) fc (cp_addr p) ?q w =
      (Inr (Slice (pack_bits (map (\<lambda>i. ?f (cp_addr p + word_of_nat i)) [0..<unat ?q])) sp), w2)"
    using assms(2) unfolding serves_coils_def by blast
  define s where "s = Slice (pack_bits (map (\<lambda>i. ?f (cp_addr p + word_of_nat i)) [0..<unat ?q])) sp"
  have rq: "lib_request lib m fc (cp_addr p) ?q w = (Ok s, w2)"
    using assms(1) rd by (simp add: lib_request_def s_def)
  have "\<exists>v. coil_point (lib_now lib w2) (cp_addr p) s x = Ok v \<and> reading v = coil_ref ?f x"
    if "x \<in> set (p # g)" for x
    unfolding s_def by (rule coil_point_served) (use that b(2) uq in fastforce)
  then obtain us where us: "map_out (coil_point (lib_now lib w2) (cp_addr p) s) (p # g) = Ok us"
    "map reading us = map (coil_ref ?f) (p # g)"
    using map_out_exists [where xs = "p # g"] by blast
  from "2.hyps" [OF g [symmetric] refl refl refl refl rq [symmetric] refl us(1)]
  obtain vs w1 where vs: "coil_loop lib m fc msg rest (results @ us) w2 = (Ok ((results @ us) @ vs), w1)"
    "map reading vs = map (coil_ref ?f) rest"
    by auto
  have "coil_loop lib m fc msg (p # ps) results w = (Ok (results @ us @ vs), w1)"
    using vs(1) us(1) by (simp add: coil_loop.simps(2) Let_def g rq del: map_out.simps)
  moreover have "map reading (us @ vs) = map (coil_ref ?f) (p # ps)"
    using us(2) vs(2) ps by simp
  ultimately show ?case by blast
qed

lemma coil_loop_requests:
  assumes "coil_loop (logged lib) m fc msg ps acc lw = (r, lw1)"
  shows "\<exists>reqs. fst lw1 = fst lw @ reqs \<and> length reqs \<le> length ps \<and>
    (\<forall>y \<in> set reqs. legal_request fc 2000 y)"
  using assms
proof (induction "logged lib" m fc msg ps acc lw arbitrary: r lw1 rule: coil_loop.induct)
  case (1 m fc msg results lw)
  then show ?case by simp
next
  case (2 m fc msg p ps results lw)
  obtain g m1 rest where g: "scan_coils (cp_addr p) (cp_addr p) ps = (g, m1, rest)"
    by (metis prod_cases3)
  let ?q = "m1 - cp_addr p + 1"
  have b: "unat (m1 - cp_addr p) \<le> 1999" using scan_coils_bound [OF g] by auto
  have good: "legal_request fc 2000 (fc, cp_addr p, ?q)"
    using b coil_quantity [OF b] by (simp add: legal_request_def)
  obtain x lw2 where q: "lib_request (logged lib) m fc (cp_addr p) ?q lw = (x, lw2)"
    by (metis prod.exhaust)
  obtain k where k: "fst lw2 = fst lw @ k" "length k \<le> 1" "\<forall>y \<in> set k. legal_request fc 2000 y"
    using logged_request [OF q] good by auto
  note unf = "2.prems"(1) [unfolded coil_loop.simps(2) Let_def g prod.case q]
  show ?case
  proof (cases "\<exists>s us. x = Ok s \<and>
      map_out (coil_point (lib_now (logged lib) lw2) (cp_addr p) s) (p # g) = Ok us")
    case True
    then obtain s us where s: "x = Ok s"
      and us: "map_out (coil_point (lib_now (logged lib) lw2) (cp_addr p) s) (p # g) = Ok us" by blast
    with unf have "coil_loop (logged lib) m fc msg rest (results @ us) lw2 = (r, lw1)"
      by (simp del: map_out.simps)
    from "2.hyps" [OF g [symmetric] refl refl refl refl q [symmetric, unfolded s] refl us this]
    obtain reqs where "fst lw1 = fst lw2 @ reqs" "length reqs \<le> length rest"
      "\<forall>y \<in> set reqs. legal_request fc 2000 y" by blast
    then show ?thesis
      using k scan_coils_append [OF g] by (intro exI [of _ "k @ reqs"]) auto
  next
    case False
    with unf have "lw1 = lw2"
      by (auto split: out.splits simp del: map_out.simps)
    then show ?thesis
      using k by (intro exI [of _ k]) auto
  qed
qed

section \<open>What a batch of coils returns\<close>

definition coil_msg :: "mbfunc \<Rightarrow> string" where
  "coil_msg fc = (if fc = FDiscrete then ''modbus discrete inputs batch read failed: ''
                  else ''modbus coils batch read failed: '')"

lemma coil_batch_eq:
  assumes "fc = FCoils \<or> fc = FDiscrete" "points \<noteq> []"
  shows "coil_batch fc lib srt m points w =
    (case parse_coils points of Inl e \<Rightarrow> (Err e, w)
     | Inr cps \<Rightarrow> coil_loop lib m fc (coil_msg fc) (srt cps) [] w)"
  using assms by (auto simp: coil_batch_def coil_msg_def readCoilsBatch_def
      readDiscreteInputsBatch_def split: sum.splits)

lemma coil_batch_Nil: "coil_batch fc lib srt m [] w = (Ok [], w)"
  by (simp add: coil_batch_def readCoilsBatch_def readDiscreteInputsBatch_def)

lemma parse_coils_length: "parse_coils pts = Inr cps \<Longrightarrow> length cps = length pts"
  by (induction pts arbitrary: cps) (auto split: sum.splits)

lemma plain_serves_coils:
  "fc = FCoils \<or> fc = FDiscrete \<Longrightarrow> serves_coils (plain_device regs) fc (\<lambda>s a. regs s a \<noteq> 0)"
  by (simp add: serves_coils_def plain_device_def Let_def comp_def)

definition demo_coils :: "PointConfig list" where
  "demo_coils = map batch_config [''10'', ''11'', ''20'']"

lemma demo_parse_coils:
  "parse_coils demo_coils = Inr [CoilPoint 9 ''10'', CoilPoint 10 ''11'', CoilPoint 19 ''20'']"
  by code_simp

lemma slice_sort_coils: "slice_sort (sort_key cp_addr)"
proof -
  have "sorted_wrt (\<le>) (sort_key cp_addr xs)" for xs
    using sorted_sort_key [of cp_addr xs]
    by (simp add: sorted_wrt_map less_eq_coilPoint_def [abs_def])
  then show ?thesis by (simp add: slice_sort_def)
qed

text \<open>C16: a batch of coils or discrete inputs gives every point the coil at its own address,
  with quality good, for any addresses: the test that a point follows the group's last one
  never joins a point across the end of the 16-bit range.\<close>

theorem coil_batch_equals_single_reads:
  assumes "fc = FCoils \<or> fc = FDiscrete" "slice_sort srt" "client m = Some r"
    and "serves_coils lib fc coils" "parse_coils points = Inr cps"
  shows "\<exists>vs w1. coil_batch fc lib srt m points w = (Ok vs, w1) \<and>
    mset (map reading vs) = mset (map (coil_ref (coils (hSlaveId (heap m ! r)))) cps)"
proof (cases "points = []")
  case True
  with assms(5) show ?thesis by (simp add: coil_batch_Nil)
next
  case False
  obtain vs w1 where "coil_loop lib m fc (coil_msg fc) (srt cps) [] w = (Ok ([] @ vs), w1)"
    "map reading vs = map (coil_ref (coils (hSlaveId (heap m ! r)))) (srt cps)"
    using coil_loop_served [OF assms(3,4)] by blast
  then show ?thesis
    by (intro exI [of _ vs] exI [of _ w1])
      (simp add: coil_batch_eq [OF assms(1) False] assms(5) slice_sort_image [OF assms(2)]
        del: mset_map)
qed

theorem coil_batch_equals_single_reads_witness:
  "\<exists>vs w1. coil_batch FCoils (plain_device (\<lambda>s a. a AND 1)) (sort_key cp_addr) demo_client demo_coils ()
     = (Ok vs, w1) \<and>
   mset (map reading vs) = {#(''10'', VBool True, ''good''), (''11'', VBool False, ''good''),
     (''20'', VBool True, ''good'')#}"
proof -
  have "client demo_client = Some 0" by (simp add: demo_client_def)
  from coil_batch_equals_single_reads [OF disjI1 [OF refl] slice_sort_coils this
      plain_serves_coils [OF disjI1 [OF refl], of "\<lambda>s a. a AND 1"] demo_parse_coils,
      of "()"]
  show ?thesis by (simp add: coil_ref_def)
qed

text \<open>Every request a batch of coils sends asks for 1 to 2000 of them, the protocol's limit,
  and there are no more requests than points.\<close>

theorem coil_batch_requests_legal:
  assumes "fc = FCoils \<or> fc = FDiscrete" "slice_sort srt"
  shows "\<exists>reqs. fst (snd (coil_batch fc (logged lib) srt m points (l, w))) = l @ reqs \<and>
    length reqs \<le> length points \<and> (\<forall>y \<in> set reqs. legal_request fc 2000 y)"
proof (cases "points = []")
  case True
  then show ?thesis by (simp add: coil_batch_Nil)
next
  case False
  note eq = coil_batch_eq [OF assms(1) False]
  show ?thesis
  proof (cases "parse_coils points")
    case (Inl e)
    then show ?thesis unfolding eq by simp
  next
    case (Inr cps)
    obtain r lw1 where rl: "coil_loop (logged lib) m fc (coil_msg fc) (srt cps) [] (l, w) = (r, lw1)"
      by (metis prod.exhaust)
    have len: "length (srt cps) = length points"
      using parse_coils_length [OF Inr] mset_eq_length [OF slice_sort_mset [OF assms(2), of cps]]
      by simp
    from coil_loop_requests [OF rl] obtain reqs where "fst lw1 = l @ reqs"
      "length reqs \<le> length (srt cps)" "\<forall>y \<in> set reqs. legal_request fc 2000 y"
      by auto
    with len show ?thesis
      by (intro exI [of _ reqs]) (simp add: eq Inr rl)
  qed
qed

theorem coil_batch_requests_legal_witness:
  "\<exists>reqs. fst (snd (coil_batch FDiscrete (logged (plain_device (\<lambda>s a. a))) (sort_key cp_addr)
      demo_client demo_coils ([], ()))) = reqs \<and> length reqs \<le> 3 \<and>
    (\<forall>y \<in> set reqs. legal_request FDiscrete 2000 y)"
  using coil_batch_requests_legal [OF disjI2 [OF refl] slice_sort_coils,
      of "plain_device (\<lambda>s a. a)" demo_client demo_coils "[]" "()"]
  by (simp add: demo_coils_def)

section \<open>Short answers\<close>

text \<open>A batch of coils indexes the answer without looking at its length: when a connected
  device answers a request with no data bytes, the batch panics instead of failing.\<close>

theorem coil_batch_panics_on_short_answer:
  assumes "fc = FCoils \<or> fc = FDiscrete" "slice_sort srt" "client m = Some r"
    and "\<And>h a q w. \<exists>sp w1. lib_read lib r h fc a q w = (Inr (Slice [] sp), w1)"
    and "points \<noteq> []" "parse_coils points = Inr cps"
  shows "fst (coil_batch fc lib srt m points w) = Panic IndexRange"
proof -
  have "cps \<noteq> []" using parse_coils_length [OF assms(6)] assms(5) by auto
  then have "srt cps \<noteq> []" using slice_sort_Nil [OF assms(2)] by simp
  then obtain p ps where ps: "srt cps = p # ps" by (cases "srt cps") auto
  obtain g m1 rest where g: "scan_coils (cp_addr p) (cp_addr p) ps = (g, m1, rest)"
    by (metis prod_cases3)
  obtain sp w1 where "lib_read lib r (heap m ! r) fc (cp_addr p) (m1 - cp_addr p + 1) w =
      (Inr (Slice [] sp), w1)"
    using assms(4) by blast
  then have "lib_request lib m fc (cp_addr p) (m1 - cp_addr p + 1) w = (Ok (Slice [] sp), w1)"
    using assms(3) by (simp add: lib_request_def)
  then have "fst (coil_loop lib m fc (coil_msg fc) (p # ps) [] w) = Panic IndexRange"
    by (simp add: coil_loop.simps(2) Let_def g coil_point_def bit_at_def slice_index_def
        slice_len_def)
  then show ?thesis
    by (simp add: coil_batch_eq [OF assms(1,5)] assms(6) ps)
qed

theorem coil_batch_panics_on_short_answer_witness:
  "fst (coil_batch FCoils
     ((plain_device (\<lambda>s a. a))\<lparr>lib_read := \<lambda>r h fc a q w. (Inr (Slice [] []), w)\<rparr>)
     (sort_key cp_addr) demo_client demo_coils ()) = Panic IndexRange"
  by (rule coil_batch_panics_on_short_answer [OF disjI1 [OF refl] slice_sort_coils _ _ _
        demo_parse_coils]) (simp_all add: demo_client_def demo_coils_def)

lemma map_out_total: "(\<And>x. x \<in> set xs \<Longrightarrow> \<exists>v. f x = Ok v) \<Longrightarrow> \<exists>vs. map_out f xs = Ok vs"
  by (induction xs) fastforce+

lemma reg_point_total: "\<exists>v. reg_point now base s p = Ok v"
proof (cases "slice_len s div 2 < unat (ap_addr p - base) + getRegCount (ap_format p)")
  case True
  then show ?thesis by (simp add: reg_point_def Let_def)
next
  case False
  have "\<exists>v. slice_u16 s ((unat (ap_addr p - base) + r) * 2) = Ok v"
    if "r < getRegCount (ap_format p)" for r
  proof -
    have "(unat (ap_addr p - base) + r) * 2 + 2 \<le> length (sdata s)"
      using False that by (simp add: slice_len_def)
    then show ?thesis by (simp add: slice_u16_Ok)
  qed
  then obtain vs where "map_out (\<lambda>r. slice_u16 s ((unat (ap_addr p - base) + r) * 2))
      [0..<getRegCount (ap_format p)] = Ok vs"
    using map_out_total [of "[0..<getRegCount (ap_format p)]"] by (metis atLeastLessThan_iff set_upt)
  then show ?thesis using False by (simp add: reg_point_def Let_def)
qed

lemma reg_loop_no_panic:
  assumes "client m \<noteq> None"
  shows "\<not> is_panic (fst (reg_loop lib m fc msg ps acc w))"
proof (induction lib m\<equiv>m fc msg ps acc w rule: reg_loop.induct)
  case (1 lib fc msg results w)
  then show ?case by simp
next
  case (2 lib fc msg p ps results w)
  obtain g m1 rest where g: "scan_group (ap_addr p) (first_max p) ps = (g, m1, rest)"
    by (metis prod_cases3)
  obtain x w1 where q: "lib_request lib m fc (ap_addr p) (m1 - ap_addr p + 1) w = (x, w1)"
    by (metis prod.exhaust)
  show ?case
  proof (cases x)
    case (Ok s)
    obtain us where us: "map_out (reg_point (lib_now lib w1) (ap_addr p) s) (p # g) = Ok us"
      using map_out_total [of "p # g" "reg_point (lib_now lib w1) (ap_addr p) s"] reg_point_total
      by metis
    from "2.hyps" [OF g [symmetric] refl refl refl refl q [symmetric, unfolded Ok] refl us]
    show ?thesis
      using us by (simp add: reg_loop.simps(2) Let_def g q Ok del: map_out.simps)
  next
    case (Err e)
    then show ?thesis by (simp add: reg_loop.simps(2) Let_def g q del: map_out.simps)
  next
    case (Panic y)
    from lib_request_panic [OF q [unfolded Panic]] assms show ?thesis by simp
  qed
qed

text \<open>A batch of registers checks the length of the answer first, and marks the points it
  does not cover as bad: with a connected client it never panics, whatever the device
  answers.\<close>

theorem reg_batch_no_panic:
  assumes "fc = FHolding \<or> fc = FInput" "client m \<noteq> None"
  shows "\<not> is_panic (fst (reg_batch fc lib srt m points w))"
proof (cases "points = []")
  case False
  then show ?thesis
    by (simp add: reg_batch_eq [OF assms(1)] reg_loop_no_panic [OF assms(2)] split: sum.splits)
qed (simp add: reg_batch_Nil)

theorem reg_batch_no_panic_witness:
  "\<not> is_panic (fst (reg_batch FHolding
     ((plain_device (\<lambda>s a. a))\<lparr>lib_read := \<lambda>r h fc a q w. (Inr (Slice [1] []), w)\<rparr>)
     (sort_key ap_addr) demo_client demo_points ()))"
  by (rule reg_batch_no_panic) (simp_all add: demo_client_def)

end
