(* ===== verification/Rule_Engine.thy ===== *)
theory Rule_Engine
  imports Data_Types Go_Float
begin

text \<open>
  The edge rules: the sliding window of \<open>types/edge_rule.go\<close>, the engine of
  \<open>edgecompute/rule_engine.go\<close> with its buffers per device and point, and the expression call of
  \<open>mapping/mapper.go\<close>, whose evaluator is a library and a parameter here. What the engine
  prints and its log file are left out.
\<close>

section \<open>The sliding window\<close>

record PointBuffer =
  pb_Values :: "f64 list"
  pb_Size :: i64

definition pb_Add :: "PointBuffer \<Rightarrow> f64 \<Rightarrow> PointBuffer" where
  "pb_Add b v =
     (let vs = pb_Values b @ [v]
      in b\<lparr>pb_Values := (if sint (pb_Size b) < int (length vs) then drop 1 vs else vs)\<rparr>)"

definition pb_sum :: "f64 list \<Rightarrow> f64" where  \<comment> \<open>the loop of \<open>Avg\<close>, from \<open>sum := 0.0\<close>\<close>
  "pb_sum vs = foldl f64_add 0 vs"

definition pb_Avg :: "PointBuffer \<Rightarrow> f64" where
  "pb_Avg b =
     (if pb_Values b = [] then 0
      else f64_div (pb_sum (pb_Values b)) (f64_of_int (int (length (pb_Values b)))))"

text \<open>What a window promises: it holds the last \<open>size\<close> samples.\<close>

definition last_n :: "nat \<Rightarrow> 'a list \<Rightarrow> 'a list" where
  "last_n n xs = drop (length xs - n) xs"

lemma length_last_n: "length (last_n n xs) \<le> n"
  by (simp add: last_n_def)

lemma last_n_step: "last_n n (last_n n xs @ ys) = last_n n (xs @ ys)"
proof (cases "length xs \<le> n")
  case False
  then show ?thesis by (simp add: last_n_def add.commute)
qed (simp add: last_n_def)

locale window =
  fixes add :: "'b \<Rightarrow> 'a \<Rightarrow> 'b"
    and contents :: "'b \<Rightarrow> 'a list"
    and size_of :: "'b \<Rightarrow> nat"
  assumes size_add: "size_of (add b x) = size_of b"
    and contents_add: "length (contents b) \<le> size_of b \<Longrightarrow>
      contents (add b x) = last_n (size_of b) (contents b @ [x])"
begin

lemma fold_add:
  assumes "length (contents b) \<le> size_of b"
  shows "contents (foldl add b xs) = last_n (size_of b) (contents b @ xs) \<and>
    size_of (foldl add b xs) = size_of b"
proof (induction xs rule: rev_induct)
  case Nil
  with assms show ?case by (simp add: last_n_def)
next
  case (snoc x xs)
  then have "length (contents (foldl add b xs)) \<le> size_of (foldl add b xs)"
    using length_last_n by metis
  from contents_add [OF this] snoc show ?case
    by (simp add: size_add last_n_step)
qed

lemma fold_empty:
  assumes "contents b = []"
  shows "contents (foldl add b xs) = last_n (size_of b) xs"
  using fold_add [of b xs] assms by simp

lemma fold_bound:
  assumes "length (contents b) \<le> size_of b"
  shows "length (contents (foldl add b xs)) \<le> size_of b"
  using fold_add [OF assms, of xs] length_last_n by metis

end

definition pb_cap :: "PointBuffer \<Rightarrow> nat" where  \<comment> \<open>a size below zero holds nothing, as zero does\<close>
  "pb_cap b = nat (sint (pb_Size b))"

interpretation pb: window pb_Add pb_Values pb_cap
proof
  fix b :: PointBuffer and x
  show "pb_cap (pb_Add b x) = pb_cap b"
    by (simp add: pb_Add_def pb_cap_def Let_def)
  assume "length (pb_Values b) \<le> pb_cap b"
  then show "pb_Values (pb_Add b x) = last_n (pb_cap b) (pb_Values b @ [x])"
    by (auto simp: pb_Add_def pb_cap_def last_n_def Let_def le_nat_iff Suc_diff_le
        intro!: arg_cong2 [where f = drop])
qed

lemma pb_Add_Size [simp]: "pb_Size (pb_Add b x) = pb_Size b"
  by (simp add: pb_Add_def Let_def)

lemma pb_fold_Size [simp]: "pb_Size (foldl pb_Add b xs) = pb_Size b"
  by (induction xs arbitrary: b) simp_all

section \<open>Expressions\<close>

text \<open>
  The library's evaluator: parsing an expression fails or gives a function of the parameters.
\<close>

type_synonym govaluate = "string \<Rightarrow> gerr + (gomap \<Rightarrow> gerr + goval)"

definition EvalExpression :: "govaluate \<Rightarrow> string \<Rightarrow> goval \<Rightarrow> gerr + goval" where
  "EvalExpression gov expr value =
     (case gov expr of Inl e \<Rightarrow> Inl e | Inr ev \<Rightarrow> ev [''value'' \<mapsto> value])"

section \<open>The engine\<close>

record RuleEngine =
  re_AggRules :: "AggregateRule list"
  re_AlarmRules :: "AlarmRuleEdge list"
  re_LinkageRules :: "LinkageRule list"
  re_Buffers :: "string \<rightharpoonup> PointBuffer"
  re_LastAlarms :: "AlarmInfo list"

definition NewRuleEngine ::
  "AggregateRule list \<Rightarrow> AlarmRuleEdge list \<Rightarrow> LinkageRule list \<Rightarrow> RuleEngine" where
  "NewRuleEngine agg alarm linkage =
     \<lparr>re_AggRules = agg, re_AlarmRules = alarm, re_LinkageRules = linkage,
      re_Buffers = Map.empty, re_LastAlarms = []\<rparr>"

definition buf_key :: "string \<Rightarrow> string \<Rightarrow> string" where
  "buf_key deviceID point = deviceID @ ''.'' @ point"

definition agg_rule :: "string \<Rightarrow> gomap \<Rightarrow> AggregateRule \<Rightarrow> (string \<rightharpoonup> PointBuffer) \<Rightarrow>
    (string \<rightharpoonup> PointBuffer)" where
  "agg_rule deviceID pointMap rule bufs =
     (if ag_DeviceID rule = deviceID then
        let key = buf_key deviceID (ag_Point rule)
        in case pointMap (ag_Point rule) of
             None \<Rightarrow> bufs
           | Some val \<Rightarrow>
               (case val of
                  VF64 fval \<Rightarrow>
                    let buf = (case bufs key of
                        None \<Rightarrow> \<lparr>pb_Values = [], pb_Size = ag_Window rule\<rparr>
                      | Some b \<Rightarrow> b)
                    in bufs(key \<mapsto> pb_Add buf fval)
                | _ \<Rightarrow> bufs)
      else bufs)"

fun agg_loop :: "string \<Rightarrow> gomap \<Rightarrow> AggregateRule list \<Rightarrow> (string \<rightharpoonup> PointBuffer) \<Rightarrow>
    (string \<rightharpoonup> PointBuffer)" where
  "agg_loop deviceID pointMap [] bufs = bufs"
| "agg_loop deviceID pointMap (rule # rules) bufs =
     agg_loop deviceID pointMap rules (agg_rule deviceID pointMap rule bufs)"

fun alarm_value :: "goval \<Rightarrow> goval" where
  "alarm_value (VF32 v) = VF64 (f64_of_f32 v)"
| "alarm_value (VInt v) = VF64 (f64_of_int (sint v))"
| "alarm_value (VInt32 v) = VF64 (f64_of_int (sint v))"
| "alarm_value (VInt64 v) = VF64 (f64_of_int (sint v))"
| "alarm_value (VUint16 v) = VF64 (f64_of_int (uint v))"
| "alarm_value (VUint32 v) = VF64 (f64_of_int (uint v))"
| "alarm_value (VUint64 v) = VF64 (f64_of_int (uint v))"
| "alarm_value v = v"

definition alarm_triggered :: "govaluate \<Rightarrow> string \<Rightarrow> gomap \<Rightarrow> AlarmRuleEdge \<Rightarrow> bool" where
  "alarm_triggered gov deviceID pointMap rule =
     (al_DeviceID rule = deviceID \<and>
      (case pointMap (al_Point rule) of
         None \<Rightarrow> False
       | Some val \<Rightarrow> EvalExpression gov (al_Condition rule) (alarm_value val) = Inr (VBool True)))"

fun alarm_loop ::
  "govaluate \<Rightarrow> string \<Rightarrow> gomap \<Rightarrow> AlarmRuleEdge list \<Rightarrow> AlarmInfo list \<Rightarrow> AlarmInfo list" where
  "alarm_loop gov deviceID pointMap [] alarms = alarms"
| "alarm_loop gov deviceID pointMap (rule # rules) alarms =
     alarm_loop gov deviceID pointMap rules
       (if alarm_triggered gov deviceID pointMap rule
        then alarms @ [\<lparr>ai_Name = al_Point rule, ai_Level = al_Level rule, ai_Message = al_Message rule\<rparr>]
        else alarms)"

text \<open>The linkage rules only print, the control they would run: device, address and value.\<close>

definition linkage_triggered :: "govaluate \<Rightarrow> string \<Rightarrow> gomap \<Rightarrow> LinkageRule \<Rightarrow> bool" where
  "linkage_triggered gov deviceID pointMap rule =
     (lk_SourceDevice rule = deviceID \<and>
      (case pointMap (lk_SourcePoint rule) of
         None \<Rightarrow> False
       | Some val \<Rightarrow> EvalExpression gov (lk_Condition rule) val = Inr (VBool True)))"

fun linkage_loop ::
  "govaluate \<Rightarrow> string \<Rightarrow> gomap \<Rightarrow> LinkageRule list \<Rightarrow> (string \<times> string \<times> goval) list" where
  "linkage_loop gov deviceID pointMap [] = []"
| "linkage_loop gov deviceID pointMap (rule # rules) =
     (if linkage_triggered gov deviceID pointMap rule
      then [(lk_ActionDevice rule, lk_ActionAddress rule, lk_ActionValue rule)] else []) @
     linkage_loop gov deviceID pointMap rules"

text \<open>\<open>ApplyRules\<close>, with the controls it prints.\<close>

definition ApplyRules :: "govaluate \<Rightarrow> RuleEngine \<Rightarrow> string \<Rightarrow> gomap \<Rightarrow>
    RuleEngine \<times> (string \<times> string \<times> goval) list" where
  "ApplyRules gov r deviceID pointMap =
     (let r1 = r\<lparr>re_LastAlarms := []\<rparr>;
          r2 = r1\<lparr>re_Buffers := agg_loop deviceID pointMap (re_AggRules r1) (re_Buffers r1)\<rparr>;
          r3 = r2\<lparr>re_LastAlarms :=
                    alarm_loop gov deviceID pointMap (re_AlarmRules r2) (re_LastAlarms r2)\<rparr>
      in (r3, linkage_loop gov deviceID pointMap (re_LinkageRules r3)))"

text \<open>The reload on SIGHUP replaces the rules and keeps the buffers.\<close>

definition reload_rules :: "DeviceEdgeRules list \<Rightarrow> RuleEngine \<Rightarrow> RuleEngine" where
  "reload_rules devRules re =
     re\<lparr>re_AggRules := ExtractAggregateRules devRules, re_AlarmRules := ExtractAlarmRules devRules,
        re_LinkageRules := ExtractLinkageRules devRules\<rparr>"

section \<open>Buffers over many reports\<close>

definition run_reports :: "govaluate \<Rightarrow> RuleEngine \<Rightarrow> (string \<times> gomap) list \<Rightarrow> RuleEngine" where
  "run_reports gov re reports = foldl (\<lambda>re (d, pm). fst (ApplyRules gov re d pm)) re reports"

text \<open>The samples one rule, and all rules over some reports, push to the buffer \<open>key\<close>.\<close>

definition rule_samples :: "string \<Rightarrow> string \<Rightarrow> gomap \<Rightarrow> AggregateRule \<Rightarrow> f64 list" where
  "rule_samples key d pm rule =
     (if ag_DeviceID rule = d \<and> buf_key d (ag_Point rule) = key
      then (case pm (ag_Point rule) of Some (VF64 f) \<Rightarrow> [f] | _ \<Rightarrow> []) else [])"

definition samples :: "AggregateRule list \<Rightarrow> string \<Rightarrow> (string \<times> gomap) list \<Rightarrow> f64 list" where
  "samples rules key reports =
     concat (map (\<lambda>(d, pm). concat (map (rule_samples key d pm) rules)) reports)"

definition feed :: "i64 \<Rightarrow> PointBuffer option \<Rightarrow> f64 list \<Rightarrow> PointBuffer option" where
  "feed n ob xs =
     (if xs = [] then ob
      else Some (foldl pb_Add (case ob of None \<Rightarrow> \<lparr>pb_Values = [], pb_Size = n\<rparr> | Some b \<Rightarrow> b) xs))"

lemma feed_Nil [simp]: "feed n ob [] = ob"
  by (simp add: feed_def)

lemma feed_append: "feed n ob (xs @ ys) = feed n (feed n ob xs) ys"
  by (simp add: feed_def)

definition same_window :: "AggregateRule list \<Rightarrow> string \<Rightarrow> i64 \<Rightarrow> bool" where
  "same_window rules key n \<longleftrightarrow>
     (\<forall>rule \<in> set rules. buf_key (ag_DeviceID rule) (ag_Point rule) = key \<longrightarrow> ag_Window rule = n)"

lemma same_window_Cons:
  "same_window (rule # rules) key n \<longleftrightarrow>
     (buf_key (ag_DeviceID rule) (ag_Point rule) = key \<longrightarrow> ag_Window rule = n) \<and>
     same_window rules key n"
  by (simp add: same_window_def)

lemma agg_rule_feed:
  "same_window [rule] key n \<Longrightarrow>
   agg_rule d pm rule bufs key = feed n (bufs key) (rule_samples key d pm rule)"
  by (auto simp: agg_rule_def rule_samples_def feed_def same_window_def Let_def
      split: option.splits goval.splits)

lemma agg_loop_feed:
  "same_window rules key n \<Longrightarrow>
   agg_loop d pm rules bufs key = feed n (bufs key) (concat (map (rule_samples key d pm) rules))"
proof (induction rules arbitrary: bufs)
  case (Cons rule rules)
  then have "same_window [rule] key n" "same_window rules key n"
    by (simp_all add: same_window_def)
  with Cons.IH show ?case by (simp add: agg_rule_feed feed_append)
qed simp

lemma ApplyRules_fields [simp]:
  "re_AggRules (fst (ApplyRules gov re d pm)) = re_AggRules re"
  "re_AlarmRules (fst (ApplyRules gov re d pm)) = re_AlarmRules re"
  "re_LinkageRules (fst (ApplyRules gov re d pm)) = re_LinkageRules re"
  "re_Buffers (fst (ApplyRules gov re d pm)) = agg_loop d pm (re_AggRules re) (re_Buffers re)"
  by (simp_all add: ApplyRules_def Let_def)

lemma run_reports_AggRules [simp]: "re_AggRules (run_reports gov re reports) = re_AggRules re"
  by (induction reports arbitrary: re) (auto simp: run_reports_def)

lemma run_reports_feed:
  "same_window (re_AggRules re) key n \<Longrightarrow>
   re_Buffers (run_reports gov re reports) key =
     feed n (re_Buffers re key) (samples (re_AggRules re) key reports)"
proof (induction reports rule: rev_induct)
  case Nil
  then show ?case by (simp add: run_reports_def samples_def)
next
  case (snoc r reports)
  obtain d pm where r: "r = (d, pm)" by (cases r)
  let ?re = "run_reports gov re reports"
  have "run_reports gov re (reports @ [r]) = fst (ApplyRules gov ?re d pm)"
    by (simp add: run_reports_def r)
  with snoc show ?case
    by (simp add: agg_loop_feed samples_def r feed_append)
qed

text \<open>C4: after any reports, in any order and from any devices, the buffer of a key holds exactly
  the last \<open>Window\<close> samples pushed to it, oldest first, and exists once one was pushed. What is
  pushed is the point's value once per aggregate rule on it, so two rules on one point push each
  sample twice, and devices whose names concatenate to the same key share a buffer.\<close>

theorem buffer_is_window:
  assumes "same_window agg key n"
  shows "re_Buffers (run_reports gov (NewRuleEngine agg alarm linkage) reports) key =
    (let xs = samples agg key reports
     in if xs = [] then None
        else Some \<lparr>pb_Values = last_n (nat (sint n)) xs, pb_Size = n\<rparr>)"
proof -
  let ?re = "NewRuleEngine agg alarm linkage" and ?b = "\<lparr>pb_Values = [], pb_Size = n\<rparr>"
  let ?xs = "samples agg key reports"
  have "pb_Values (foldl pb_Add ?b ?xs) = last_n (nat (sint n)) ?xs"
    using pb.fold_empty [of ?b ?xs] by (simp add: pb_cap_def)
  then have "foldl pb_Add ?b ?xs = \<lparr>pb_Values = last_n (nat (sint n)) ?xs, pb_Size = n\<rparr>"
    by (intro PointBuffer.equality) simp_all
  then show ?thesis
    using run_reports_feed [of ?re key n gov reports] assms
    by (simp add: NewRuleEngine_def feed_def Let_def)
qed

definition demo_agg :: "string \<Rightarrow> string \<Rightarrow> i64 \<Rightarrow> AggregateRule" where
  "demo_agg d p n =
     \<lparr>ag_ID = ''r'', ag_Description = [], ag_Type = ''aggregate'', ag_DeviceID = d, ag_Point = p,
      ag_Method = ''avg'', ag_Window = n\<rparr>"

text \<open>Two devices, \<open>a.b\<close> with point \<open>c\<close> and \<open>a\<close> with point \<open>b.c\<close>, mix their samples.\<close>

definition demo_gov :: govaluate where
  "demo_gov expr = Inl (ErrText expr)"

theorem buffer_is_window_witness:
  "re_Buffers (run_reports demo_gov (NewRuleEngine [demo_agg ''a.b'' ''c'' 2, demo_agg ''a'' ''b.c'' 2] [] [])
     [(''a.b'', [''c'' \<mapsto> VF64 1]), (''a'', [''b.c'' \<mapsto> VF64 2]), (''a.b'', [''c'' \<mapsto> VF64 3])]) ''a.b.c''
   = Some \<lparr>pb_Values = [2, 3], pb_Size = 2\<rparr>"
proof -
  have "same_window [demo_agg ''a.b'' ''c'' 2, demo_agg ''a'' ''b.c'' 2] ''a.b.c'' 2"
    by (simp add: same_window_def demo_agg_def buf_key_def)
  from buffer_is_window [OF this] show ?thesis
    by (simp add: samples_def rule_samples_def demo_agg_def buf_key_def last_n_def)
qed

section \<open>Reloading rules\<close>

inductive re_reach :: "govaluate \<Rightarrow> RuleEngine \<Rightarrow> bool" for gov where
  new: "re_reach gov (NewRuleEngine agg alarm linkage)"
| report: "re_reach gov re \<Longrightarrow> re_reach gov (fst (ApplyRules gov re d pm))"
| reload: "re_reach gov re \<Longrightarrow> re_reach gov (reload_rules devRules re)"

definition bounded_bufs :: "(string \<rightharpoonup> PointBuffer) \<Rightarrow> bool" where
  "bounded_bufs bufs \<longleftrightarrow> (\<forall>key b. bufs key = Some b \<longrightarrow> length (pb_Values b) \<le> pb_cap b)"

lemma bounded_Add: "length (pb_Values b) \<le> pb_cap b \<Longrightarrow> length (pb_Values (pb_Add b x)) \<le> pb_cap b"
  using pb.fold_bound [of b "[x]"] by simp

lemma pb_cap_Add [simp]: "pb_cap (pb_Add b x) = pb_cap b"
  by (simp add: pb_cap_def)

lemma bounded_agg_rule: "bounded_bufs bufs \<Longrightarrow> bounded_bufs (agg_rule d pm rule bufs)"
  by (auto simp: agg_rule_def bounded_bufs_def Let_def bounded_Add split: option.splits goval.splits)

lemma bounded_agg_loop: "bounded_bufs bufs \<Longrightarrow> bounded_bufs (agg_loop d pm rules bufs)"
  by (induction rules arbitrary: bufs) (auto intro: bounded_agg_rule)

lemma re_reach_bounded: "re_reach gov re \<Longrightarrow> bounded_bufs (re_Buffers re)"
proof (induction rule: re_reach.induct)
  case (new agg alarm linkage)
  then show ?case by (simp add: NewRuleEngine_def bounded_bufs_def)
next
  case (report re d pm)
  then show ?case by (simp add: bounded_agg_loop)
next
  case (reload re devRules)
  then show ?case by (simp add: reload_rules_def)
qed

lemma agg_rule_size:
  "bufs key = Some b \<Longrightarrow> \<exists>b1. agg_rule d pm rule bufs key = Some b1 \<and> pb_Size b1 = pb_Size b"
  by (auto simp: agg_rule_def Let_def split: option.splits goval.splits)

lemma agg_loop_size:
  "bufs key = Some b \<Longrightarrow> \<exists>b1. agg_loop d pm rules bufs key = Some b1 \<and> pb_Size b1 = pb_Size b"
proof (induction rules arbitrary: bufs b)
  case (Cons rule rules)
  from agg_rule_size [of bufs key b, OF Cons.prems] obtain b1
    where "agg_rule d pm rule bufs key = Some b1" "pb_Size b1 = pb_Size b" by blast
  with Cons.IH [of "agg_rule d pm rule bufs" b1] show ?case by simp
qed simp

lemma run_reports_size:
  "re_Buffers re key = Some b \<Longrightarrow>
   \<exists>b1. re_Buffers (run_reports gov re reports) key = Some b1 \<and> pb_Size b1 = pb_Size b"
proof (induction reports arbitrary: re b)
  case (Cons r reports)
  obtain d pm where r: "r = (d, pm)" by (cases r)
  from agg_loop_size [of "re_Buffers re" key b, OF Cons.prems] obtain b1 where
    "re_Buffers (fst (ApplyRules gov re d pm)) key = Some b1" "pb_Size b1 = pb_Size b" by force
  with Cons.IH [of "fst (ApplyRules gov re d pm)" b1] show ?case
    by (simp add: run_reports_def r)
qed (simp add: run_reports_def)

lemma re_reach_run: "re_reach gov re \<Longrightarrow> re_reach gov (run_reports gov re reports)"
proof (induction reports arbitrary: re)
  case (Cons r reports)
  then show ?case
    by (cases r) (simp add: run_reports_def re_reach.report)
qed (simp add: run_reports_def)

text \<open>C39: no sequence of reports and reloads makes a window longer than its size, and a reload
  never changes the size of a buffer that exists: a new \<open>Window\<close> in the rules has no effect
  until the program restarts.\<close>

theorem reload_keeps_window:
  assumes "re_reach gov re" "re_Buffers re key = Some b"
  shows "\<exists>b1. re_Buffers (run_reports gov (reload_rules devRules re) reports) key = Some b1 \<and>
    pb_Size b1 = pb_Size b \<and> length (pb_Values b1) \<le> pb_cap b"
proof -
  let ?re = "reload_rules devRules re"
  have "re_Buffers ?re key = Some b" using assms(2) by (simp add: reload_rules_def)
  from run_reports_size [OF this] obtain b1 where
    b1: "re_Buffers (run_reports gov ?re reports) key = Some b1" "pb_Size b1 = pb_Size b" by blast
  have "re_reach gov (run_reports gov ?re reports)"
    by (intro re_reach_run re_reach.reload assms)
  from re_reach_bounded [OF this] b1 have "length (pb_Values b1) \<le> pb_cap b1"
    unfolding bounded_bufs_def by blast
  with b1 show ?thesis by (simp add: pb_cap_def)
qed

theorem reload_keeps_window_witness:
  "\<exists>b1. re_Buffers (run_reports demo_gov (reload_rules
       [\<lparr>de_DeviceID = ''a'', de_Aggregate = [demo_agg ''a'' ''p'' 9], de_Alarm = [], de_Linkage = []\<rparr>]
       (fst (ApplyRules demo_gov (NewRuleEngine [demo_agg ''a'' ''p'' 1] [] []) ''a'' [''p'' \<mapsto> VF64 5])))
     [(''a'', [''p'' \<mapsto> VF64 6])]) ''a.p'' = Some b1 \<and> pb_Size b1 = 1 \<and> length (pb_Values b1) \<le> 1"
proof -
  let ?re = "fst (ApplyRules demo_gov (NewRuleEngine [demo_agg ''a'' ''p'' 1] [] []) ''a'' [''p'' \<mapsto> VF64 5])"
  have r: "re_reach demo_gov ?re"
    by (intro re_reach.intros)
  have b: "re_Buffers ?re ''a.p'' = Some \<lparr>pb_Values = [5], pb_Size = 1\<rparr>"
    by (simp add: NewRuleEngine_def agg_rule_def demo_agg_def buf_key_def pb_Add_def)
  from reload_keeps_window [OF r b] show ?thesis by (simp add: pb_cap_def)
qed

section \<open>Alarms\<close>

lemma alarm_loop_filter:
  "alarm_loop gov d pm rules acc = acc @
     map (\<lambda>rule. \<lparr>ai_Name = al_Point rule, ai_Level = al_Level rule, ai_Message = al_Message rule\<rparr>)
       (filter (alarm_triggered gov d pm) rules)"
  by (induction rules arbitrary: acc) auto

lemma filter_alarms_of:
  "filter (alarm_triggered gov d pm) (concat (map alarms_of devRules)) =
   concat (map (\<lambda>g. filter (alarm_triggered gov d pm) (alarms_of g))
     (filter (\<lambda>g. de_DeviceID g = d) devRules))"
  by (induction devRules) (auto simp: alarm_triggered_def filter_map comp_def)

text \<open>What a rule's condition says of the device's values, without the device named in the rule.\<close>

definition condition_holds :: "govaluate \<Rightarrow> gomap \<Rightarrow> AlarmRuleEdge \<Rightarrow> bool" where
  "condition_holds gov pm rule \<longleftrightarrow>
     (\<exists>val. pm (al_Point rule) = Some val \<and>
        EvalExpression gov (al_Condition rule) (alarm_value val) = Inr (VBool True))"

text \<open>C40: the alarms after a report are exactly those of the rules listed under the device whose
  condition holds on its values, in the order of the file, whatever device a rule itself names
  and whatever alarms the last report left.\<close>

theorem alarms_follow_groups:
  "re_LastAlarms (fst (ApplyRules gov (reload_rules devRules re) d pm)) =
     map (\<lambda>rule. \<lparr>ai_Name = al_Point rule, ai_Level = al_Level rule, ai_Message = al_Message rule\<rparr>)
       (filter (condition_holds gov pm)
         (concat (map de_Alarm (filter (\<lambda>g. de_DeviceID g = d) devRules))))"
proof -
  have "re_LastAlarms (fst (ApplyRules gov (reload_rules devRules re) d pm)) =
      map (\<lambda>rule. \<lparr>ai_Name = al_Point rule, ai_Level = al_Level rule, ai_Message = al_Message rule\<rparr>)
        (filter (alarm_triggered gov d pm) (concat (map alarms_of devRules)))"
    by (simp add: ApplyRules_def reload_rules_def Let_def alarm_loop_filter ExtractAlarmRules_eq)
  also have "\<dots> = map (\<lambda>rule. \<lparr>ai_Name = al_Point rule, ai_Level = al_Level rule, ai_Message = al_Message rule\<rparr>)
       (filter (condition_holds gov pm)
         (concat (map de_Alarm (filter (\<lambda>g. de_DeviceID g = d) devRules))))"
    by (induction devRules)
      (auto simp: alarm_triggered_def condition_holds_def filter_map comp_def
        intro!: arg_cong2 [where f = map] filter_cong split: option.splits)
  finally show ?thesis .
qed

end
