(* ===== verification/Bacnet.thy ===== *)
theory Bacnet
  imports Rule_Engine Go_Strings
begin

text \<open>
  The BACnet client of \<open>protocols/bacnet/bacnet.go\<close> and \<open>type.go\<close>: its point table with the two
  indexes by id and by address, reads, typed writes, and device discovery. The formatting of
  values with \<open>%v\<close> and \<open>%s\<close>, the expression library and the clock are parameters; the order in
  which a map is iterated is an argument, since Go leaves it open.
\<close>

section \<open>Types\<close>

datatype PropertyValueType =
    TypeNull | TypeBoolean | TypeUnsignedInt | TypeSignedInt | TypeReal | TypeDouble
  | TypeOctetString | TypeCharacterString | TypeBitString | TypeEnumerated | TypeDate | TypeTime
  | TypeObjectID

record BacnetPoint =
  bp_ID :: string
  bp_ObjectType :: string
  bp_Instance :: i64
  bp_Description :: string
  bp_Access :: string
  bp_Name :: string
  bp_Address :: string
  bp_Type :: string
  bp_Format :: string
  bp_Unit :: string
  bp_Value :: goval
  bp_Property :: string
  bp_PropertyValueType :: PropertyValueType
  bp_Writable :: bool
  bp_Transform :: string

definition empty_point :: BacnetPoint where  \<comment> \<open>\<open>BacnetPoint{}\<close>\<close>
  "empty_point =
     \<lparr>bp_ID = [], bp_ObjectType = [], bp_Instance = 0, bp_Description = [], bp_Access = [],
      bp_Name = [], bp_Address = [], bp_Type = [], bp_Format = [], bp_Unit = [], bp_Value = VNil,
      bp_Property = [], bp_PropertyValueType = TypeNull, bp_Writable = False, bp_Transform = []\<rparr>"

text \<open>The fields of the client that its operations use; a nil map is the empty one.\<close>

record BacnetClient =
  bc_deviceID :: string
  bc_connected :: bool
  bc_points :: "string \<rightharpoonup> BacnetPoint"
  bc_idToName :: "string \<rightharpoonup> string"
  bc_addressToName :: "string \<rightharpoonup> string"
  bc_discovered :: bool

definition NewBacnetClient :: BacnetClient where
  "NewBacnetClient =
     \<lparr>bc_deviceID = [], bc_connected = False, bc_points = Map.empty, bc_idToName = Map.empty,
      bc_addressToName = Map.empty, bc_discovered = False\<rparr>"

text \<open>Formatting with \<open>%v\<close> and with \<open>%s\<close>.\<close>

record fmtlib =
  fmt_v :: "goval \<Rightarrow> string"
  fmt_s :: "goval \<Rightarrow> string"

section \<open>Addresses\<close>

text \<open>
  \<open>fmt.Sscanf\<close> reads a string with the verbs \<open>s\<close> and \<open>v\<close> (and \<open>q\<close>, \<open>x\<close>, \<open>X\<close>, not used here) and
  refuses any other; it has no bracket verb, so in \<open>%[^:]:%d\<close> the verb is \<open>[\<close> and the rest is
  literal text up to \<open>%d\<close>.
\<close>

definition scan_string :: "char \<Rightarrow> string \<Rightarrow> gerr + string \<times> string" where
  "scan_string verb s =
     (if verb \<in> {CHR ''s'', CHR ''v''} then
        (case skip_space s of
           None \<Rightarrow> Inl (ErrText ''unexpected newline'')
         | Some s1 \<Rightarrow>
             let word = takeWhile (\<lambda>c. c \<notin> {CHR 0x09, CHR 0x0A, CHR 0x0B, CHR 0x0C, CHR 0x0D, CHR 0x20}) s1
             in if word = [] then Inl (ErrText ''unexpected EOF'')
                else Inr (word, drop (length word) s1))
      else Inl (ErrText (''bad verb '' @ [CHR 0x27] @ ''%'' @ [verb, CHR 0x27] @ '' for string'')))"

definition parseAddressFields :: "string \<Rightarrow> (string \<times> i64) option" where
  "parseAddressFields addr =
     (if addr = [] then None
      else case scan_string (CHR ''['') addr of
        Inl e \<Rightarrow> None
      | Inr (objType, rest) \<Rightarrow>
          (if prefix ''^:]:'' rest then
             (case scan_int (drop 4 rest) of
                Inl e \<Rightarrow> None
              | Inr inst \<Rightarrow> Some (objType, inst))
           else None))"

section \<open>Init\<close>

definition pvt_of :: "string \<Rightarrow> PropertyValueType" where
  "pvt_of pvt =
     (if pvt = ''REAL'' then TypeReal
      else if pvt = ''INTEGER'' then TypeSignedInt
      else if pvt = ''BOOLEAN'' then TypeBoolean
      else if pvt = ''ENUMERATED'' then TypeEnumerated
      else if pvt = ''CHARACTERSTRING'' then TypeCharacterString
      else if pvt = ''OCTETSTRING'' then TypeOctetString
      else if pvt = ''BITSTRING'' then TypeBitString
      else if pvt = ''OBJECTID'' then TypeObjectID
      else TypeNull)"

definition text_field :: "fmtlib \<Rightarrow> gomap \<Rightarrow> string \<Rightarrow> string" where
  \<comment> \<open>\<open>if v, ok := m[k]; ok { field = fmt.Sprintf("%v", v) }\<close> on an empty field\<close>
  "text_field F m k = (case m k of None \<Rightarrow> [] | Some v \<Rightarrow> fmt_v F v)"

definition point_of :: "fmtlib \<Rightarrow> string \<Rightarrow> gomap \<Rightarrow> BacnetPoint" where
  \<comment> \<open>the body of \<open>Init\<close>'s loop, up to the address\<close>
  "point_of F deviceID m =
     empty_point
       \<lparr>bp_ID := (case m ''id'' of
            Some v \<Rightarrow> fmt_v F v
          | None \<Rightarrow> if deviceID \<noteq> [] \<and> mget m ''name'' \<noteq> VNil
                     then deviceID @ ''.'' @ fmt_s F (mget m ''name'') else []),
        bp_ObjectType := text_field F m ''object_type'',
        bp_Instance := (case m ''instance'' of
            Some (VInt i) \<Rightarrow> i | Some (VF64 f) \<Rightarrow> f64_to_int f | _ \<Rightarrow> 0),
        bp_Description := text_field F m ''description'',
        bp_Access := text_field F m ''access'',
        bp_Name := text_field F m ''name'',
        bp_Address := text_field F m ''address'',
        bp_Type := text_field F m ''type'',
        bp_Format := text_field F m ''format'',
        bp_Unit := text_field F m ''unit'',
        bp_Value := mget m ''init_value'',
        bp_Property := text_field F m ''property'',
        bp_Transform := text_field F m ''transform'',
        bp_Writable := (case mget m ''writable'' of VBool w \<Rightarrow> w | _ \<Rightarrow> False),
        bp_PropertyValueType :=
          (case mget m ''property_value_type'' of VStr pvt \<Rightarrow> pvt_of pvt | _ \<Rightarrow> TypeNull)\<rparr>"

definition from_address :: "BacnetPoint \<Rightarrow> BacnetPoint" where
  "from_address pt =
     (if bp_ObjectType pt = [] \<or> bp_Instance pt = 0 then
        case parseAddressFields (bp_Address pt) of
          None \<Rightarrow> pt
        | Some (objType, inst) \<Rightarrow>
            let pt1 = (if bp_ObjectType pt = [] then pt\<lparr>bp_ObjectType := objType\<rparr> else pt)
            in if bp_Instance pt1 = 0 then pt1\<lparr>bp_Instance := inst\<rparr> else pt1
      else pt)"

definition add_point :: "BacnetPoint \<Rightarrow> BacnetClient \<Rightarrow> BacnetClient" where
  "add_point pt c =
     c\<lparr>bc_points := (bc_points c)(bp_Name pt \<mapsto> pt),
       bc_idToName := (if bp_ID pt \<noteq> [] then (bc_idToName c)(bp_ID pt \<mapsto> bp_Name pt)
                       else bc_idToName c),
       bc_addressToName := (if bp_Address pt \<noteq> [] then (bc_addressToName c)(bp_Address pt \<mapsto> bp_Name pt)
                            else bc_addressToName c)\<rparr>"

fun init_points :: "fmtlib \<Rightarrow> goval list \<Rightarrow> BacnetClient \<Rightarrow> BacnetClient" where
  "init_points F [] c = c"
| "init_points F (p # pts) c =
     init_points F pts
       (case p of
          VMap m \<Rightarrow> add_point (from_address (point_of F (bc_deviceID c) (map_of m))) c
        | _ \<Rightarrow> c)"

definition bc_Init :: "fmtlib \<Rightarrow> gomap \<Rightarrow> BacnetClient \<Rightarrow> gerr option \<times> BacnetClient" where
  "bc_Init F config c =
     (let dev = (case config ''object_device'' of
            Some v \<Rightarrow> fmt_v F v
          | None \<Rightarrow> fmt_v F (mget config ''device_id''));
          c1 = c\<lparr>bc_deviceID := dev, bc_connected := True, bc_points := Map.empty,
                 bc_idToName := Map.empty, bc_addressToName := Map.empty\<rparr>
      in (None, case mget config ''points'' of VList pts \<Rightarrow> init_points F pts c1 | _ \<Rightarrow> c1))"

section \<open>Reads\<close>

definition not_connected :: gerr where
  "not_connected = ErrText ''bacnet: not connected''"

definition default_value :: "BacnetPoint \<Rightarrow> goval" where  \<comment> \<open>false, or 42.0\<close>
  "default_value pt =
     (if bp_Value pt = VNil
      then (if bp_Type pt = ''bool'' then VBool False else VF64 0x4045000000000000)
      else bp_Value pt)"

definition good_value :: "i64 \<Rightarrow> string \<Rightarrow> goval \<Rightarrow> PointValue" where
  "good_value now name v =
     \<lparr>pv_PointID = name, pv_Value = v, pv_Quality = ''good'', pv_Timestamp = now\<rparr>"

definition bc_Read :: "i64 \<Rightarrow> string list \<Rightarrow> BacnetClient \<Rightarrow> string \<Rightarrow> gerr + PointValue list" where
  \<comment> \<open>the list gives the keys of \<open>points\<close> in the order of iteration\<close>
  "bc_Read now names c deviceID =
     (if \<not> bc_connected c then Inl not_connected
      else Inr (map (\<lambda>name. good_value now name (default_value (the (bc_points c name)))) names))"

text \<open>\<open>parseTransform\<close> of this package: the value is given to the expression as it is.\<close>

definition bc_parseTransform :: "govaluate \<Rightarrow> string \<Rightarrow> goval \<Rightarrow> gerr + goval" where
  "bc_parseTransform gov expr value =
     (if expr = [] then Inr value
      else case gov expr of Inl e \<Rightarrow> Inl e | Inr ev \<Rightarrow> ev [''value'' \<mapsto> value])"

definition bc_lookup :: "BacnetClient \<Rightarrow> string \<Rightarrow> (string \<times> BacnetPoint) option" where
  \<comment> \<open>by name, else by address, else by id; a name missing from \<open>points\<close> is the zero point\<close>
  "bc_lookup c key =
     (let point_at = (\<lambda>name. case bc_points c name of None \<Rightarrow> empty_point | Some pt \<Rightarrow> pt)
      in case bc_points c key of
           Some pt \<Rightarrow> Some (key, pt)
         | None \<Rightarrow>
             (case bc_addressToName c key of
                Some name2 \<Rightarrow> Some (name2, point_at name2)
              | None \<Rightarrow>
                  (case bc_idToName c key of
                     Some name3 \<Rightarrow> Some (name3, point_at name3)
                   | None \<Rightarrow> None)))"

definition transformed :: "govaluate \<Rightarrow> BacnetPoint \<Rightarrow> goval \<Rightarrow> goval" where
  "transformed gov pt val =
     (if bp_Transform pt \<noteq> [] then
        case bc_parseTransform gov (bp_Transform pt) val of Inl e \<Rightarrow> val | Inr v2 \<Rightarrow> v2
      else val)"

definition read_key :: "govaluate \<Rightarrow> i64 \<Rightarrow> BacnetClient \<Rightarrow> string \<Rightarrow> PointValue" where
  "read_key gov now c key =
     (case bc_lookup c key of
        None \<Rightarrow> \<lparr>pv_PointID = key, pv_Value = VNil, pv_Quality = ''bad'', pv_Timestamp = now\<rparr>
      | Some (_, pt) \<Rightarrow> good_value now (bp_Name pt) (transformed gov pt (default_value pt)))"

definition bc_ReadBatch ::
  "govaluate \<Rightarrow> i64 \<Rightarrow> BacnetClient \<Rightarrow> string \<Rightarrow> string \<Rightarrow> string list \<Rightarrow> gerr + PointValue list" where
  "bc_ReadBatch gov now c deviceID function points =
     (if \<not> bc_connected c then Inl not_connected else Inr (map (read_key gov now c) points))"

section \<open>Writes\<close>

text \<open>
  \<open>reflect.TypeOf(v).Kind()\<close>: on nil it panics. The element kind is that of a slice. A type of
  another name has the kind of what it is declared as.
\<close>

fun go_kind :: "goval \<Rightarrow> string option" where
  "go_kind VNil = None"
| "go_kind (VBytes _) = Some ''slice''"
| "go_kind (VU16s _) = Some ''slice''"
| "go_kind (VBools _) = Some ''slice''"
| "go_kind (VList _) = Some ''slice''"
| "go_kind (VMap _) = Some ''map''"
| "go_kind (VObjectID _ _) = Some ''struct''"
| "go_kind (VOther _ k _) = Some k"
| "go_kind v = Some (go_typename v)"

fun elem_kind :: "goval \<Rightarrow> string" where
  "elem_kind (VBytes _) = ''uint8''"
| "elem_kind (VU16s _) = ''uint16''"
| "elem_kind (VBools _) = ''bool''"
| "elem_kind (VOther _ _ e) = e"
| "elem_kind _ = ''interface''"

definition expect_kind :: "string \<Rightarrow> string \<Rightarrow> goval \<Rightarrow> unit out" where  \<comment> \<open>\<open>typeCheck\<close>\<close>
  "expect_kind point expect value =
     (case go_kind value of
        None \<Rightarrow> Panic NilDeref
      | Some actual \<Rightarrow>
          if actual \<noteq> expect
          then Err (ErrText (''bacnet: point '' @ point @ '' expect '' @ expect @ '' value, got '' @ actual))
          else Ok ())"

definition expect_slice :: "string \<Rightarrow> string \<Rightarrow> string \<Rightarrow> goval \<Rightarrow> unit out" where
  "expect_slice point elem shown value =
     (case go_kind value of
        None \<Rightarrow> Panic NilDeref
      | Some actual \<Rightarrow>
          if actual \<noteq> ''slice'' \<or> elem_kind value \<noteq> elem
          then Err (ErrText (''bacnet: point '' @ point @ '' expect '' @ shown @ '' value''))
          else Ok ())"

fun check_value :: "string \<Rightarrow> PropertyValueType \<Rightarrow> goval \<Rightarrow> unit out" where
  "check_value point TypeReal value = expect_kind point ''float64'' value"
| "check_value point TypeDouble value = expect_kind point ''float64'' value"
| "check_value point TypeSignedInt value = expect_kind point ''int'' value"
| "check_value point TypeEnumerated value = expect_kind point ''int'' value"
| "check_value point TypeUnsignedInt value = expect_kind point ''uint64'' value"
| "check_value point TypeBoolean value = expect_kind point ''bool'' value"
| "check_value point TypeCharacterString value = expect_kind point ''string'' value"
| "check_value point TypeDate value = expect_kind point ''string'' value"
| "check_value point TypeTime value = expect_kind point ''string'' value"
| "check_value point TypeOctetString value = expect_slice point ''uint8'' ''[]byte'' value"
| "check_value point TypeBitString value = expect_slice point ''bool'' ''[]bool'' value"
| "check_value point TypeObjectID value =
     (case value of
        VObjectID _ _ \<Rightarrow> Ok ()
      | _ \<Rightarrow> Err (ErrText (''bacnet: point '' @ point @ '' expect ObjectID value'')))"
| "check_value point TypeNull value = Ok ()"

definition bc_Write :: "BacnetClient \<Rightarrow> string \<Rightarrow> goval \<Rightarrow> unit out \<times> BacnetClient" where
  "bc_Write c point value =
     (if \<not> bc_connected c then (Err not_connected, c)
      else case bc_lookup c point of
        None \<Rightarrow> (Err (ErrText (''bacnet: point '' @ point @ '' not found'')), c)
      | Some (name, pt) \<Rightarrow>
          if \<not> bp_Writable pt
          then (Err (ErrText (''bacnet: point '' @ name @ '' is not writable'')), c)
          else case check_value name (bp_PropertyValueType pt) value of
            Ok _ \<Rightarrow> (Ok (), c\<lparr>bc_points := (bc_points c)(name \<mapsto> pt\<lparr>bp_Value := value\<rparr>)\<rparr>)
          | Err e \<Rightarrow> (Err e, c)
          | Panic p \<Rightarrow> (Panic p, c))"

section \<open>Connection and discovery\<close>

definition bc_Close :: "BacnetClient \<Rightarrow> gerr option \<times> BacnetClient" where
  "bc_Close c = (None, c\<lparr>bc_connected := False\<rparr>)"

definition bc_Reconnect :: "BacnetClient \<Rightarrow> gerr option \<times> BacnetClient" where
  "bc_Reconnect c = (None, c\<lparr>bc_connected := True\<rparr>)"

definition GetPointModel :: "BacnetClient \<Rightarrow> (string \<rightharpoonup> BacnetPoint)" where
  "GetPointModel c = bc_points c"

record BACnetDeviceInfo =
  bd_DeviceID :: string
  bd_Address :: string
  bd_Vendor :: string
  bd_Model :: string

definition DiscoverDevices :: "BacnetClient \<Rightarrow> BACnetDeviceInfo list \<times> BacnetClient" where
  "DiscoverDevices c =
     ([\<lparr>bd_DeviceID = ''2228316'', bd_Address = ''192.168.1.10'', bd_Vendor = ''SimVendor'',
        bd_Model = ''SimModelA''\<rparr>,
       \<lparr>bd_DeviceID = ''2228317'', bd_Address = ''192.168.1.11'', bd_Vendor = ''SimVendor'',
        bd_Model = ''SimModelB''\<rparr>],
      c\<lparr>bc_discovered := True\<rparr>)"

text \<open>
  The broadcast discovery: the datagrams that arrive before the timeout, with their senders. The
  identifier it stores is a constant text.
\<close>

definition who_is :: "byte list" where
  "who_is = [0x81, 0x0b, 0x00, 0x0c, 0x01, 0x20, 0xff, 0xff, 0xff, 0xff, 0x00, 0x00]"

definition unparsed_id :: string where
  "unparsed_id = [CHR 0xE8, CHR 0xA7, CHR 0xA3, CHR 0xE6, CHR 0x9E, CHR 0x90] @ ''DeviceID''"

fun DiscoverDevicesReal :: "(byte list \<times> string) list \<Rightarrow> BACnetDeviceInfo list" where
  "DiscoverDevicesReal [] = []"
| "DiscoverDevicesReal ((buf, addr) # packets) =
     (if 10 < length buf \<and> buf ! 1 = 0x0a
      then [\<lparr>bd_DeviceID = unparsed_id, bd_Address = addr, bd_Vendor = ''Unknown'',
             bd_Model = ''Unknown''\<rparr>] else []) @
     DiscoverDevicesReal packets"

section \<open>The point table\<close>

text \<open>
  Every point is stored under its own name, and both indexes lead to stored points: the zero
  point is never read.
\<close>

definition bac_wf :: "BacnetClient \<Rightarrow> bool" where
  "bac_wf c \<longleftrightarrow>
     (\<forall>k pt. bc_points c k = Some pt \<longrightarrow> bp_Name pt = k) \<and>
     (\<forall>i n. bc_idToName c i = Some n \<longrightarrow> bc_points c n \<noteq> None) \<and>
     (\<forall>a n. bc_addressToName c a = Some n \<longrightarrow> bc_points c n \<noteq> None)"

inductive bac_reach :: "fmtlib \<Rightarrow> BacnetClient \<Rightarrow> bool" for F where
  new: "bac_reach F NewBacnetClient"
| inited: "bac_reach F c \<Longrightarrow> bac_reach F (snd (bc_Init F config c))"
| written: "bac_reach F c \<Longrightarrow> bac_reach F (snd (bc_Write c point v))"
| closed: "bac_reach F c \<Longrightarrow> bac_reach F (snd (bc_Close c))"
| reconnected: "bac_reach F c \<Longrightarrow> bac_reach F (snd (bc_Reconnect c))"
| discovered: "bac_reach F c \<Longrightarrow> bac_reach F (snd (DiscoverDevices c))"

lemma bac_wf_new: "bac_wf NewBacnetClient"
  by (simp add: bac_wf_def NewBacnetClient_def)

lemma bac_wf_add: "bac_wf c \<Longrightarrow> bac_wf (add_point pt c)"
  by (auto simp: bac_wf_def add_point_def)

lemma bac_wf_init_points: "bac_wf c \<Longrightarrow> bac_wf (init_points F pts c)"
  by (induction F pts c rule: init_points.induct) (auto simp: bac_wf_add split: goval.splits)

lemma bac_wf_Init: "bac_wf (snd (bc_Init F config c))"
proof -
  have "bac_wf (c\<lparr>bc_deviceID := d, bc_connected := True, bc_points := Map.empty,
      bc_idToName := Map.empty, bc_addressToName := Map.empty\<rparr>)" for d
    by (simp add: bac_wf_def)
  then show ?thesis
    by (auto simp: bc_Init_def Let_def bac_wf_init_points split: goval.splits option.splits)
qed

lemma bc_lookup_wf:
  assumes "bac_wf c" "bc_lookup c key = Some (name, pt)"
  shows "bc_points c name = Some pt \<and> bp_Name pt = name"
proof -
  have "bc_points c n \<noteq> None" if "bc_addressToName c key = Some n \<or> bc_idToName c key = Some n" for n
    using assms(1) that by (auto simp: bac_wf_def)
  then have "bc_points c name = Some pt"
    using assms(2) by (fastforce simp: bc_lookup_def Let_def split: option.splits)
  with assms(1) show ?thesis by (simp add: bac_wf_def)
qed

lemma bc_Write_cases:
  assumes "bc_Write c point v = (r, c1)"
  shows "c1 = c \<or> (\<exists>name pt. bc_lookup c point = Some (name, pt) \<and>
    c1 = c\<lparr>bc_points := (bc_points c)(name \<mapsto> pt\<lparr>bp_Value := v\<rparr>)\<rparr>)"
  using assms by (auto simp: bc_Write_def split: option.splits out.splits if_splits)

lemma bac_wf_Write:
  assumes "bac_wf c"
  shows "bac_wf (snd (bc_Write c point v))"
proof -
  obtain r c1 where w: "bc_Write c point v = (r, c1)" by (metis prod.exhaust)
  from bc_Write_cases [OF w] show ?thesis
  proof
    assume "c1 = c"
    with w assms show ?thesis by simp
  next
    assume "\<exists>name pt. bc_lookup c point = Some (name, pt) \<and>
      c1 = c\<lparr>bc_points := (bc_points c)(name \<mapsto> pt\<lparr>bp_Value := v\<rparr>)\<rparr>"
    then obtain name pt where l: "bc_lookup c point = Some (name, pt)"
      and c1: "c1 = c\<lparr>bc_points := (bc_points c)(name \<mapsto> pt\<lparr>bp_Value := v\<rparr>)\<rparr>" by blast
    from bc_lookup_wf [OF assms l] assms c1 w show ?thesis by (simp add: bac_wf_def)
  qed
qed

lemma bac_reach_wf:
  assumes "bac_reach F c"
  shows "bac_wf c"
  using assms
proof (induction rule: bac_reach.induct)
  case new
  show ?case by (rule bac_wf_new)
next
  case (inited c config)
  show ?case by (rule bac_wf_Init)
next
  case (written c point v)
  then show ?case by (simp add: bac_wf_Write)
next
  case (closed c)
  then show ?case by (simp add: bac_wf_def bc_Close_def)
next
  case (reconnected c)
  then show ?case by (simp add: bac_wf_def bc_Reconnect_def)
next
  case (discovered c)
  then show ?case by (simp add: bac_wf_def DiscoverDevices_def)
qed

text \<open>Whatever points a configuration lists, and after any writes and reconnections, each
  point is stored under its own name and both indexes lead to stored points: the name found for
  a key is always that of the point read, and a key that is a point's name finds that point.\<close>

theorem point_table_consistent:
  assumes "bac_reach F c"
  shows "bac_wf c \<and>
    (\<forall>key name pt. bc_lookup c key = Some (name, pt) \<longrightarrow> bc_points c name = Some pt \<and>
       bc_lookup c name = Some (name, pt))"
  using bac_reach_wf [OF assms] bc_lookup_wf [OF bac_reach_wf [OF assms]]
  by (auto simp: bc_lookup_def)

definition demo_fmt :: fmtlib where
  "demo_fmt = \<lparr>fmt_v = (\<lambda>v. case v of VStr s \<Rightarrow> s | _ \<Rightarrow> ''?''),
     fmt_s = (\<lambda>v. case v of VStr s \<Rightarrow> s | _ \<Rightarrow> ''?'')\<rparr>"

definition demo_bacnet_config :: gomap where
  "demo_bacnet_config =
     [''device_id'' \<mapsto> VStr ''d1'',
      ''points'' \<mapsto> VList [VMap [(''name'', VStr ''temp''), (''address'', VStr ''analogInput:3''),
        (''property_value_type'', VStr ''REAL''), (''writable'', VBool True)]]]"

definition demo_bacnet :: BacnetClient where
  "demo_bacnet = snd (bc_Init demo_fmt demo_bacnet_config NewBacnetClient)"

lemma demo_bacnet_reach: "bac_reach demo_fmt demo_bacnet"
  unfolding demo_bacnet_def by (intro bac_reach.intros)

lemma from_address_id [simp]: "from_address pt = pt"
  by (simp add: from_address_def parseAddressFields_def scan_string_def)

lemma demo_bacnet_lookup:
  "bc_lookup demo_bacnet ''analogInput:3'' =
     Some (''temp'', empty_point\<lparr>bp_ID := ''d1.temp'', bp_Name := ''temp'',
       bp_Address := ''analogInput:3'', bp_PropertyValueType := TypeReal, bp_Writable := True\<rparr>)"
  "bc_connected demo_bacnet"
  by (simp_all add: demo_bacnet_def bc_Init_def demo_bacnet_config_def mget_def NewBacnetClient_def
      point_of_def text_field_def empty_point_def demo_fmt_def add_point_def bc_lookup_def Let_def
      pvt_of_def)

theorem point_table_consistent_witness:
  "bac_wf demo_bacnet \<and> fst (the (bc_lookup demo_bacnet ''temp'')) = ''temp''"
  using point_table_consistent [OF demo_bacnet_reach] demo_bacnet_lookup(1) by fastforce

text \<open>The object type and instance are never taken from an address such as
  \<open>analogInput:3\<close>: Go's scanner has no bracket verb, so the parse always fails and the fields
  stay as the configuration left them.\<close>

theorem address_never_parsed: "parseAddressFields addr = None \<and> from_address pt = pt"
  by (simp add: parseAddressFields_def scan_string_def)

section \<open>Reading what was written\<close>

text \<open>What may come after a write to the point \<open>name\<close> that leaves it alone.\<close>

inductive bac_keeps :: "string \<Rightarrow> BacnetClient \<Rightarrow> BacnetClient \<Rightarrow> bool" for name c where
  same: "bac_keeps name c c"
| written: "bac_keeps name c c1 \<Longrightarrow>
    map_option fst (bc_lookup c1 key) \<noteq> Some name \<or> fst (bc_Write c1 key v) \<noteq> Ok () \<Longrightarrow>
    bac_keeps name c (snd (bc_Write c1 key v))"
| closed: "bac_keeps name c c1 \<Longrightarrow> bac_keeps name c (snd (bc_Close c1))"
| reconnected: "bac_keeps name c c1 \<Longrightarrow> bac_keeps name c (snd (bc_Reconnect c1))"
| discovered: "bac_keeps name c c1 \<Longrightarrow> bac_keeps name c (snd (DiscoverDevices c1))"

lemma bc_Write_Ok:
  "bc_Write c key v = (Ok (), c1) \<Longrightarrow> bc_lookup c key = Some (name, pt) \<Longrightarrow>
   c1 = c\<lparr>bc_points := (bc_points c)(name \<mapsto> pt\<lparr>bp_Value := v\<rparr>)\<rparr>"
  by (auto simp: bc_Write_def split: if_splits out.splits)

lemma bc_Write_not_Ok: "fst (bc_Write c key v) \<noteq> Ok () \<Longrightarrow> snd (bc_Write c key v) = c"
  by (auto simp: bc_Write_def split: if_splits out.splits option.splits)

lemma lookup_upd:
  assumes "bc_points c name \<noteq> None"
  shows "bc_lookup (c\<lparr>bc_points := (bc_points c)(name \<mapsto> q)\<rparr>) key =
    map_option (\<lambda>(n, p). (n, if n = name then q else p)) (bc_lookup c key)"
  using assms by (auto simp: bc_lookup_def Let_def split: option.splits)

lemma lookup_flags:
  "bc_lookup (c\<lparr>bc_connected := b\<rparr>) key = bc_lookup c key"
  "bc_lookup (c\<lparr>bc_discovered := b\<rparr>) key = bc_lookup c key"
  by (auto simp: bc_lookup_def Let_def split: option.splits)

lemma keeps_lookup:
  assumes "bac_keeps name c c1" "bac_wf c"
  shows "bac_wf c1 \<and> (\<forall>key. map_option fst (bc_lookup c1 key) = map_option fst (bc_lookup c key)) \<and>
    bc_points c1 name = bc_points c name"
  using assms(1)
proof (induction rule: bac_keeps.induct)
  case (written c1 key v)
  have wf: "bac_wf (snd (bc_Write c1 key v))" using bac_wf_Write written.IH by blast
  show ?case
  proof (cases "fst (bc_Write c1 key v) = Ok ()")
    case True
    then obtain n p where l: "bc_lookup c1 key = Some (n, p)"
      by (auto simp: bc_Write_def split: option.splits if_splits)
    note pt = bc_lookup_wf [OF _ l]
    have "bc_Write c1 key v = (Ok (), snd (bc_Write c1 key v))" using True by (metis prod.collapse)
    note w = bc_Write_Ok [OF this l]
    have "bac_wf c1" "n \<noteq> name" using written True l by auto
    with pt wf written.IH show ?thesis
      unfolding w by (auto simp: lookup_upd option.map_comp o_def split_def)
  next
    case False
    then show ?thesis using written.IH bc_Write_not_Ok by metis
  qed
qed (use assms(2) in \<open>auto simp: bac_wf_def bc_Close_def bc_Reconnect_def DiscoverDevices_def lookup_flags\<close>)

text \<open>C24: a successful write stays: until the point is written again or the client initialised
  anew, whatever is written to other points, refused, closed, reconnected or discovered, a read
  on the connected client by the point's name, address or id gives what was written with quality
  good, through the point's transform if it has one; a nil written reads as the default of the
  point's type. Reads of every other key are not changed by the write.\<close>

theorem write_then_read:
  assumes "bac_reach F c" "bc_Write c key v = (Ok (), c1)" "bc_lookup c key = Some (name, pt)"
    and "bac_keeps name c1 c2"
  shows "(\<forall>key2. map_option fst (bc_lookup c key2) = Some name \<longrightarrow> bc_connected c2 \<longrightarrow>
      bc_ReadBatch gov now c2 dev fn [key2] =
        Inr [good_value now name
          (if bp_Transform pt = [] \<and> v \<noteq> VNil then v
           else transformed gov pt (default_value (pt\<lparr>bp_Value := v\<rparr>)))]) \<and>
    (\<forall>key2. map_option fst (bc_lookup c key2) \<noteq> Some name \<longrightarrow>
      read_key gov now c1 key2 = read_key gov now c key2)"
proof -
  have wf: "bac_wf c" using bac_reach_wf [OF assms(1)] .
  note pt = bc_lookup_wf [OF wf assms(3)]
  note c1 = bc_Write_Ok [OF assms(2,3)]
  have wf1: "bac_wf c1" using bac_wf_Write [OF wf, of key v] assms(2) by simp
  have l1: "bc_lookup c1 k = map_option (\<lambda>(n, p). (n, if n = name then pt\<lparr>bp_Value := v\<rparr> else p)) (bc_lookup c k)"
    for k unfolding c1 by (rule lookup_upd) (simp add: pt)
  note k = keeps_lookup [OF assms(4) wf1]
  have rd: "read_key gov now c2 key2 = good_value now name
      (transformed gov pt (default_value (pt\<lparr>bp_Value := v\<rparr>)))"
    if "map_option fst (bc_lookup c key2) = Some name" for key2
  proof -
    have "map_option fst (bc_lookup c2 key2) = Some name"
      using that k by (auto simp: l1)
    then obtain p where p: "bc_lookup c2 key2 = Some (name, p)" by auto
    from bc_lookup_wf [OF _ this] k have "p = pt\<lparr>bp_Value := v\<rparr>" by (simp add: c1)
    with p pt show ?thesis by (simp add: read_key_def transformed_def)
  qed
  have "read_key gov now c1 key2 = read_key gov now c key2"
    if "map_option fst (bc_lookup c key2) \<noteq> Some name" for key2
    using that by (auto simp: read_key_def l1 split: option.splits prod.splits)
  with rd show ?thesis by (auto simp: bc_ReadBatch_def transformed_def default_value_def)
qed

text \<open>The witness writes, writes a wrong type, closes and reconnects.\<close>

theorem write_then_read_witness:
  "bc_ReadBatch demo_gov 0 (snd (bc_Reconnect (snd (bc_Close (snd (bc_Write
       (snd (bc_Write demo_bacnet ''analogInput:3'' (VF64 7))) ''temp'' (VInt 1))))))) ''d1'' [] [''temp''] =
     Inr [good_value 0 ''temp'' (VF64 7)]"
proof -
  let ?c1 = "snd (bc_Write demo_bacnet ''analogInput:3'' (VF64 7))"
  have w: "bc_Write demo_bacnet ''analogInput:3'' (VF64 7) = (Ok (), ?c1)"
    using demo_bacnet_lookup by (simp add: bc_Write_def expect_kind_def empty_point_def)
  have l: "bc_lookup demo_bacnet ''temp'' = Some (''temp'', the (bc_points demo_bacnet ''temp''))"
    "bp_Transform (the (bc_points demo_bacnet ''temp'')) = []"
    using point_table_consistent [OF demo_bacnet_reach] demo_bacnet_lookup(1)
    by (fastforce simp: empty_point_def)+
  have bad: "fst (bc_Write ?c1 ''temp'' (VInt 1)) \<noteq> Ok ()"
    using bc_Write_Ok [OF w demo_bacnet_lookup(1)] demo_bacnet_lookup(2)
    by (auto simp: bc_Write_def bc_lookup_def expect_kind_def empty_point_def)
  have "bac_keeps ''temp'' ?c1 (snd (bc_Reconnect (snd (bc_Close (snd (bc_Write ?c1 ''temp'' (VInt 1)))))))"
    by (intro bac_keeps.reconnected bac_keeps.closed bac_keeps.written bac_keeps.same disjI2 bad)
  from write_then_read [OF demo_bacnet_reach w demo_bacnet_lookup(1) this, of demo_gov 0 "''d1''" "[]"]
  show ?thesis using l by (auto simp: bc_Reconnect_def empty_point_def)
qed

text \<open>The Go types a point's property type takes: one by name, and all others of its kind.\<close>

definition of_kind :: "string \<Rightarrow> goval \<Rightarrow> bool" where
  "of_kind k v \<longleftrightarrow> (case v of VOther _ k1 _ \<Rightarrow> k1 = k | _ \<Rightarrow> False)"

definition of_slice :: "string \<Rightarrow> goval \<Rightarrow> bool" where
  "of_slice e v \<longleftrightarrow> (case v of VOther _ k e1 \<Rightarrow> k = ''slice'' \<and> e1 = e | _ \<Rightarrow> False)"

fun accepts :: "PropertyValueType \<Rightarrow> goval \<Rightarrow> bool" where
  "accepts TypeNull v = True"
| "accepts TypeBoolean v = ((\<exists>b. v = VBool b) \<or> of_kind ''bool'' v)"
| "accepts TypeUnsignedInt v = ((\<exists>n. v = VUint64 n) \<or> of_kind ''uint64'' v)"
| "accepts TypeSignedInt v = ((\<exists>n. v = VInt n) \<or> of_kind ''int'' v)"
| "accepts TypeEnumerated v = ((\<exists>n. v = VInt n) \<or> of_kind ''int'' v)"
| "accepts TypeReal v = ((\<exists>x. v = VF64 x) \<or> of_kind ''float64'' v)"
| "accepts TypeDouble v = ((\<exists>x. v = VF64 x) \<or> of_kind ''float64'' v)"
| "accepts TypeOctetString v = ((\<exists>bs. v = VBytes bs) \<or> of_slice ''uint8'' v)"
| "accepts TypeBitString v = ((\<exists>bs. v = VBools bs) \<or> of_slice ''bool'' v)"
| "accepts TypeCharacterString v = ((\<exists>s. v = VStr s) \<or> of_kind ''string'' v)"
| "accepts TypeDate v = ((\<exists>s. v = VStr s) \<or> of_kind ''string'' v)"
| "accepts TypeTime v = ((\<exists>s. v = VStr s) \<or> of_kind ''string'' v)"
| "accepts TypeObjectID v = (\<exists>t i. v = VObjectID t i)"

lemma check_value_Ok: "check_value point t v = Ok () \<longleftrightarrow> accepts t v"
  by (cases t; cases v) (auto simp: expect_kind_def expect_slice_def of_kind_def of_slice_def)

lemma check_value_Panic:
  "is_panic (check_value point t v) \<longleftrightarrow> v = VNil \<and> t \<notin> {TypeNull, TypeObjectID}"
  by (cases t; cases v) (auto simp: expect_kind_def expect_slice_def)

text \<open>C23: a write to a connected client succeeds exactly when the key names a writable point and
  the value has the Go type of its property type; it panics exactly for a nil value on a
  writable point whose type is checked by kind; and nothing but a success changes the client.\<close>

theorem write_outcomes:
  assumes "bc_connected c"
  shows "(fst (bc_Write c key v) = Ok () \<longleftrightarrow>
      (\<exists>name pt. bc_lookup c key = Some (name, pt) \<and> bp_Writable pt \<and> accepts (bp_PropertyValueType pt) v)) \<and>
    (is_panic (fst (bc_Write c key v)) \<longleftrightarrow>
      v = VNil \<and> (\<exists>name pt. bc_lookup c key = Some (name, pt) \<and> bp_Writable pt \<and>
        bp_PropertyValueType pt \<notin> {TypeNull, TypeObjectID})) \<and>
    (fst (bc_Write c key v) \<noteq> Ok () \<longrightarrow> snd (bc_Write c key v) = c)"
proof (cases "bc_lookup c key")
  case None
  then show ?thesis using assms by (simp add: bc_Write_def)
next
  case (Some np)
  obtain name pt where np: "np = (name, pt)" by (cases np)
  show ?thesis
  proof (cases "bp_Writable pt")
    case False
    then show ?thesis using assms Some np by (simp add: bc_Write_def)
  next
    case True
    then show ?thesis
      using assms Some np check_value_Ok [of name "bp_PropertyValueType pt" v]
        check_value_Panic [of name "bp_PropertyValueType pt" v]
      by (cases "check_value name (bp_PropertyValueType pt) v") (auto simp: bc_Write_def)
  qed
qed

theorem write_outcomes_witness:
  "is_panic (fst (bc_Write demo_bacnet ''analogInput:3'' VNil)) \<and>
   fst (bc_Write demo_bacnet ''analogInput:3'' (VInt 7)) \<noteq> Ok ()"
  using write_outcomes [OF demo_bacnet_lookup(2), of "''analogInput:3''" VNil]
    write_outcomes [OF demo_bacnet_lookup(2), of "''analogInput:3''" "VInt 7"]
  by (simp add: demo_bacnet_lookup empty_point_def of_kind_def)

end
