(* ===== verification/Bacnet_Discover.thy ===== *)
theory Bacnet_Discover
  imports Go_Strings
begin

text \<open>
  \<open>protocols/bacnet/discover.go\<close>: the two parsers of I-Am datagrams, the table of discovered
  devices with its two ways to register, the poller of each device, and the point templates.
  Goroutines are the steps of a relation; the sockets are left out, and the encoder and the files
  of the templates are parameters.
\<close>

section \<open>Types\<close>

record DeviceInfo =
  di_DeviceID :: u32
  di_VendorID :: u16
  di_ModelName :: string
  di_IP :: string

record Device =
  dv_ID :: string
  dv_IP :: string
  dv_DeviceID :: u32
  dv_VendorID :: u16
  dv_Online :: bool
  dv_FailCount :: i64
  dv_Points :: "string list"

record ObjectIdentifier =
  oi_ObjectType :: string
  oi_Instance :: u32

record PointModel =
  pl_Name :: string
  pl_Address :: string
  pl_ObjectType :: string
  pl_Instance :: u32
  pl_Property :: string
  pl_Type :: string
  pl_Unit :: string
  pl_Writable :: bool

section \<open>I-Am datagrams\<close>

definition byte_at :: "byte list \<Rightarrow> nat \<Rightarrow> byte out" where
  "byte_at data i = (if i < length data then Ok (data ! i) else Panic IndexRange)"

definition u32_at :: "byte list \<Rightarrow> nat \<Rightarrow> u32 out" where  \<comment> \<open>\<open>BigEndian.Uint32(data[i:i+4])\<close>\<close>
  "u32_at data i =
     (if i + 4 \<le> length data
      then Ok (be32 (data ! i) (data ! (i + 1)) (data ! (i + 2)) (data ! (i + 3)))
      else Panic SliceBounds)"

definition u16_at :: "byte list \<Rightarrow> nat \<Rightarrow> u16 out" where
  "u16_at data i =
     (if i + 2 \<le> length data then Ok (be16 (data ! i) (data ! (i + 1))) else Panic SliceBounds)"

definition parseIAM :: "byte list \<Rightarrow> DeviceInfo out" where
  "parseIAM data =
     (if length data < 14 then Err (ErrText ''invalid length'')
      else bind_out (byte_at data 1) (\<lambda>b1. bind_out (byte_at data 4) (\<lambda>b4.
        if b1 \<noteq> 0x10 \<and> b4 \<noteq> 0xC4 then Err (ErrText ''not I-Am'')
        else
          let apdu = drop 6 data
          in bind_out (byte_at apdu 0) (\<lambda>a0. bind_out (byte_at apdu 1) (\<lambda>a1.
               if a0 \<noteq> 0x10 \<or> a1 \<noteq> 0x00 then Err (ErrText ''not unconfirmed I-Am'')
               else bind_out (u32_at apdu 2) (\<lambda>deviceID. bind_out (u16_at apdu 6) (\<lambda>vendorID.
                 Ok \<lparr>di_DeviceID = deviceID, di_VendorID = vendorID, di_ModelName = ''Unknown'',
                     di_IP = []\<rparr>)))))))"

definition ParseIAm :: "byte list \<Rightarrow> string \<Rightarrow> DeviceInfo out" where
  "ParseIAm buf srcIP =
     (if length buf < 14 then Err (ErrText ''I-Am too short'')
      else bind_out (byte_at buf 1) (\<lambda>b1. bind_out (byte_at buf 4) (\<lambda>b4.
        if b1 \<noteq> 0x10 \<or> b4 \<noteq> 0xC4 then Err (ErrText ''not I-Am'')
        else
          bind_out (byte_at buf 8) (\<lambda>d0. bind_out (byte_at buf 9) (\<lambda>d1.
          bind_out (byte_at buf 10) (\<lambda>d2. bind_out (byte_at buf 11) (\<lambda>d3.
          bind_out (byte_at buf 12) (\<lambda>v0. bind_out (byte_at buf 13) (\<lambda>v1.
            Ok \<lparr>di_DeviceID = push_bit 24 (ucast d0) OR push_bit 16 (ucast d1) OR
                   push_bit 8 (ucast d2) OR ucast d3,
                di_VendorID = push_bit 8 (ucast v0) OR ucast v1, di_ModelName = ''Unknown'',
                di_IP = srcIP\<rparr>)))))))))"

text \<open>What \<open>ListenIAM\<close> gives its handler for one datagram.\<close>

definition iam_event :: "byte list \<Rightarrow> string \<Rightarrow> DeviceInfo option" where
  "iam_event data remote =
     (case parseIAM data of Ok info \<Rightarrow> Some (info\<lparr>di_IP := remote\<rparr>) | _ \<Rightarrow> None)"

lemma parseIAM_long:
  "14 \<le> length data \<Longrightarrow> parseIAM data =
     (if data ! 1 \<noteq> 0x10 \<and> data ! 4 \<noteq> 0xC4 then Err (ErrText ''not I-Am'')
      else if data ! 6 \<noteq> 0x10 \<or> data ! 7 \<noteq> 0x00 then Err (ErrText ''not unconfirmed I-Am'')
      else Ok \<lparr>di_DeviceID = be32 (data ! 8) (data ! 9) (data ! 10) (data ! 11),
               di_VendorID = be16 (data ! 12) (data ! 13), di_ModelName = ''Unknown'', di_IP = []\<rparr>)"
proof -
  assume "14 \<le> length data"
  moreover from this have "8 \<le> length data - 6" by linarith
  ultimately show ?thesis by (simp add: parseIAM_def byte_at_def u32_at_def u16_at_def Let_def)
qed

lemma ParseIAm_long:
  "14 \<le> length data \<Longrightarrow> ParseIAm data src =
     (if data ! 1 \<noteq> 0x10 \<or> data ! 4 \<noteq> 0xC4 then Err (ErrText ''not I-Am'')
      else Ok \<lparr>di_DeviceID = be32 (data ! 8) (data ! 9) (data ! 10) (data ! 11),
               di_VendorID = be16 (data ! 12) (data ! 13), di_ModelName = ''Unknown'', di_IP = src\<rparr>)"
  by (simp add: ParseIAm_def byte_at_def be32_def be16_def)

text \<open>Neither parser ever indexes beyond a datagram, whatever arrives, and when both accept
  one they agree on the device and its vendor.\<close>

theorem iam_parsers_agree:
  "\<not> is_panic (parseIAM data) \<and> \<not> is_panic (ParseIAm data src) \<and>
   (case (iam_event data src, ParseIAm data src) of (Some info, Ok info2) \<Rightarrow> info = info2 | _ \<Rightarrow> True)"
proof (cases "length data < 14")
  case True
  then show ?thesis by (simp add: parseIAM_def ParseIAm_def iam_event_def)
next
  case False
  then show ?thesis by (simp add: parseIAM_long ParseIAm_long iam_event_def)
qed

text \<open>No I-Am in a BACnet/IP frame is recognised: such a frame starts with 0x81, a function
  code of at most 0x0B, its length, and the network version 0x01, none of which the parsers
  look for where they look.\<close>

theorem bacnet_ip_frames_rejected:
  assumes "f \<le> 0x0B"
  shows "iam_event (0x81 # f # l1 # l2 # 0x01 # rest) src = None \<and>
    (\<exists>e. ParseIAm (0x81 # f # l1 # l2 # 0x01 # rest) src = Err e)"
proof -
  let ?d = "0x81 # f # l1 # l2 # 0x01 # rest"
  have f: "f \<noteq> 0x10" using assms by auto
  show ?thesis
  proof (cases "length ?d < 14")
    case True
    then show ?thesis by (simp add: parseIAM_def ParseIAm_def iam_event_def)
  next
    case False
    then show ?thesis using f by (simp add: parseIAM_long ParseIAm_long iam_event_def)
  qed
qed

text \<open>The witness is the broadcast I-Am of device 1234 of vendor 260.\<close>

theorem bacnet_ip_frames_rejected_witness:
  "iam_event [0x81, 0x0b, 0x00, 0x18, 0x01, 0x20, 0xff, 0xff, 0x00, 0xff, 0x10, 0x00, 0xc4, 0x02,
     0x00, 0x04, 0xd2, 0x22, 0x05, 0xc4, 0x91, 0x03, 0x21, 0x04] ''10.0.0.9'' = None"
  using bacnet_ip_frames_rejected [of "0x0b" "0x00" "0x18" "[0x20, 0xff, 0xff, 0x00, 0xff, 0x10,
    0x00, 0xc4, 0x02, 0x00, 0x04, 0xd2, 0x22, 0x05, 0xc4, 0x91, 0x03, 0x21, 0x04]" "''10.0.0.9''"] by simp

section \<open>Registration\<close>

datatype task = Poll string | GeneratePoints string

text \<open>The table, every goroutine started so far, and the pollers that have returned.\<close>

record discovery =
  dy_devMap :: "string \<rightharpoonup> Device"
  dy_started :: "task list"
  dy_stopped :: "string set"

definition no_devices :: discovery where
  "no_devices = \<lparr>dy_devMap = Map.empty, dy_started = [], dy_stopped = {}\<rparr>"

definition dev_key :: "DeviceInfo \<Rightarrow> string" where
  "dev_key info = ''bacnet_'' @ dec_of_nat (unat (di_DeviceID info))"

definition new_device :: "DeviceInfo \<Rightarrow> Device" where
  "new_device info =
     \<lparr>dv_ID = dev_key info, dv_IP = di_IP info, dv_DeviceID = di_DeviceID info,
      dv_VendorID = di_VendorID info, dv_Online = True, dv_FailCount = 0, dv_Points = []\<rparr>"

definition RegisterDevice :: "DeviceInfo \<Rightarrow> discovery \<Rightarrow> discovery" where
  "RegisterDevice info d =
     (if dy_devMap d (dev_key info) \<noteq> None then d
      else d\<lparr>dy_devMap := (dy_devMap d)(dev_key info \<mapsto> new_device info),
             dy_started := dy_started d @ [Poll (dev_key info)]\<rparr>)"

definition RegisterAndStartPolling :: "DeviceInfo \<Rightarrow> discovery \<Rightarrow> discovery" where
  "RegisterAndStartPolling info d =
     (if dy_devMap d (dev_key info) \<noteq> None then d
      else d\<lparr>dy_devMap := (dy_devMap d)(dev_key info \<mapsto> new_device info),
             dy_started := dy_started d @ [GeneratePoints (dev_key info), Poll (dev_key info)]\<rparr>)"

section \<open>Polling\<close>

definition pollOnce :: "Device \<Rightarrow> gerr option" where
  "pollOnce dev = None"

definition poll_tick :: "gerr option \<Rightarrow> Device \<Rightarrow> Device \<times> bool" where
  \<comment> \<open>one tick of \<open>startPolling\<close> with the result of its poll; whether the poller returns\<close>
  "poll_tick err dev =
     (case err of
        Some e \<Rightarrow>
          (let dev1 = dev\<lparr>dv_FailCount := dv_FailCount dev + 1\<rparr>
           in if 3 \<le>s dv_FailCount dev1 then (dev1\<lparr>dv_Online := False\<rparr>, True) else (dev1, False))
      | None \<Rightarrow> (dev\<lparr>dv_FailCount := 0, dv_Online := True\<rparr>, False))"

fun startPolling :: "gerr option list \<Rightarrow> Device \<Rightarrow> Device \<times> bool" where
  \<comment> \<open>over the results of its polls\<close>
  "startPolling [] dev = (dev, False)"
| "startPolling (r # rs) dev =
     (case poll_tick r dev of
        (dev1, True) \<Rightarrow> (dev1, True)
      | (dev1, False) \<Rightarrow> startPolling rs dev1)"

inductive dstep :: "discovery \<Rightarrow> discovery \<Rightarrow> bool" where
  register: "dstep d (RegisterDevice info d)"
| register_poll: "dstep d (RegisterAndStartPolling info d)"
| tick: "Poll key \<in> set (dy_started d) \<Longrightarrow> key \<notin> dy_stopped d \<Longrightarrow> dy_devMap d key = Some dev \<Longrightarrow>
    poll_tick (pollOnce dev) dev = (dev1, stop) \<Longrightarrow>
    dstep d (d\<lparr>dy_devMap := (dy_devMap d)(key \<mapsto> dev1),
               dy_stopped := (if stop then insert key (dy_stopped d) else dy_stopped d)\<rparr>)"

section \<open>Point templates\<close>

definition GuessValueType :: "string \<Rightarrow> string" where
  "GuessValueType objType =
     (if objType = ''analogInput'' \<or> objType = ''analogValue'' then ''float''
      else if objType = ''binaryInput'' \<or> objType = ''binaryValue'' then ''bool''
      else ''float'')"

definition IsWritable :: "string \<Rightarrow> bool" where
  "IsWritable objType =
     (objType = ''analogValue'' \<or> objType = ''binaryValue'' \<or> objType = ''multiStateValue'')"

definition ReadObjectList :: "Device \<Rightarrow> ObjectIdentifier list" where
  "ReadObjectList dev =
     [\<lparr>oi_ObjectType = ''analogInput'', oi_Instance = 0\<rparr>,
      \<lparr>oi_ObjectType = ''analogInput'', oi_Instance = 1\<rparr>,
      \<lparr>oi_ObjectType = ''binaryInput'', oi_Instance = 2\<rparr>]"

definition point_template :: "ObjectIdentifier \<Rightarrow> PointModel" where
  "point_template obj =
     \<lparr>pl_Name = oi_ObjectType obj @ ''_'' @ dec_of_nat (unat (oi_Instance obj)),
      pl_Address = oi_ObjectType obj @ '':'' @ dec_of_nat (unat (oi_Instance obj)),
      pl_ObjectType = oi_ObjectType obj, pl_Instance = oi_Instance obj,
      pl_Property = ''presentValue'', pl_Type = GuessValueType (oi_ObjectType obj), pl_Unit = [],
      pl_Writable = IsWritable (oi_ObjectType obj)\<rparr>"

fun group_points :: "PointModel list \<Rightarrow> (string \<Rightarrow> PointModel list) \<Rightarrow> string \<Rightarrow> PointModel list" where
  \<comment> \<open>\<open>funcMap[fn] = append(funcMap[fn], pt)\<close>\<close>
  "group_points [] g = g"
| "group_points (pt # pts) g =
     group_points pts (g(pl_ObjectType pt := g (pl_ObjectType pt) @ [pt]))"

text \<open>The YAML encoder, given the three entries of the file, and the file it goes to.\<close>

record 'w templates =
  tp_Marshal :: "string \<Rightarrow> string \<Rightarrow> (string \<Rightarrow> PointModel list) \<Rightarrow> gerr + byte list"
  tp_WriteFile :: "string \<Rightarrow> byte list \<Rightarrow> 'w \<Rightarrow> gerr option \<times> 'w"

definition WritePointsToFile ::
  "'w templates \<Rightarrow> string \<Rightarrow> PointModel list \<Rightarrow> 'w \<Rightarrow> gerr option \<times> 'w" where
  "WritePointsToFile tp devID points w =
     (case tp_Marshal tp devID ''bacnet'' (group_points points (\<lambda>_. [])) of
        Inl e \<Rightarrow> (Some e, w)
      | Inr text_out \<Rightarrow> tp_WriteFile tp (''bacnet_points_'' @ devID @ ''.yaml'') text_out w)"

definition AutoGeneratePoints :: "'w templates \<Rightarrow> Device \<Rightarrow> 'w \<Rightarrow> 'w" where
  \<comment> \<open>the error is only printed\<close>
  "AutoGeneratePoints tp dev w =
     snd (WritePointsToFile tp (dv_ID dev) (map point_template (ReadObjectList dev)) w)"

lemma group_points_filter:
  "group_points pts g t = g t @ filter (\<lambda>pt. pl_ObjectType pt = t) pts"
  by (induction pts arbitrary: g) auto

section \<open>One poller per device\<close>

lemma dec_of_nat_inject: "dec_of_nat m = dec_of_nat n \<longleftrightarrow> m = n"
  using dec_value_dec_of_nat by metis

lemma unat_inject: "unat v = unat w \<longleftrightarrow> v = w"
  by (auto intro: unsigned_word_eqI)

lemma dev_key_inject: "dev_key info = dev_key info2 \<longleftrightarrow> di_DeviceID info = di_DeviceID info2"
  by (simp add: dev_key_def dec_of_nat_inject unat_inject)

definition discovery_inv :: "discovery \<Rightarrow> bool" where
  "discovery_inv d \<longleftrightarrow>
     (\<forall>key. count_list (dy_started d) (Poll key) = (if dy_devMap d key = None then 0 else 1)) \<and>
     (\<forall>key dev. dy_devMap d key = Some dev \<longrightarrow>
        key = ''bacnet_'' @ dec_of_nat (unat (dv_DeviceID dev)))"

lemma discovery_inv_start: "discovery_inv no_devices"
  by (simp add: discovery_inv_def no_devices_def)

lemma discovery_inv_new:
  assumes "discovery_inv d" "dy_devMap d (dev_key info) = None"
    and "\<And>key. count_list ts (Poll key) = (if key = dev_key info then 1 else 0)"
  shows "discovery_inv (d\<lparr>dy_devMap := (dy_devMap d)(dev_key info \<mapsto> new_device info),
    dy_started := dy_started d @ ts\<rparr>)"
  using assms by (auto simp: discovery_inv_def new_device_def dev_key_def)

lemma poll_tick_DeviceID: "poll_tick r dev = (dev1, stop) \<Longrightarrow> dv_DeviceID dev1 = dv_DeviceID dev"
  by (auto simp: poll_tick_def Let_def split: option.splits if_splits)

lemma discovery_inv_step:
  assumes "dstep d d1" "discovery_inv d"
  shows "discovery_inv d1"
  using assms
proof (induction rule: dstep.induct)
  case (register d info)
  then show ?case
    using discovery_inv_new [of d info "[Poll (dev_key info)]"] by (auto simp: RegisterDevice_def)
next
  case (register_poll d info)
  then show ?case
    using discovery_inv_new [of d info "[GeneratePoints (dev_key info), Poll (dev_key info)]"]
    by (auto simp: RegisterAndStartPolling_def)
next
  case (tick key d dev dev1 stop)
  then show ?case
    using poll_tick_DeviceID [OF tick(4)] by (auto simp: discovery_inv_def)
qed

lemma discovery_inv_steps: "dstep\<^sup>*\<^sup>* d d1 \<Longrightarrow> discovery_inv d \<Longrightarrow> discovery_inv d1"
  by (induction rule: rtranclp_induct) (auto intro: discovery_inv_step)

lemma registered_stays:
  assumes "dstep\<^sup>*\<^sup>* d d1" "dy_devMap d key = Some dev"
  shows "\<exists>dev1. dy_devMap d1 key = Some dev1 \<and> dv_IP dev1 = dv_IP dev"
  using assms
proof (induction rule: rtranclp_induct)
  case base
  then show ?case by simp
next
  case (step d1 d2)
  then obtain dev1 where dev1: "dy_devMap d1 key = Some dev1" "dv_IP dev1 = dv_IP dev" by blast
  from step.hyps(2) dev1 show ?case
    by (induction rule: dstep.induct)
      (auto simp: RegisterDevice_def RegisterAndStartPolling_def poll_tick_def Let_def
        split: option.splits if_splits)
qed

text \<open>C25: the two listeners may announce a device in any order and any number of times: it has one
  poller, no more, the table's key is that of its identifier, and it keeps the address it was
  first seen at, even when it has moved.\<close>

theorem one_poller_per_device:
  assumes "dstep\<^sup>*\<^sup>* no_devices d" "dy_devMap d (dev_key info) = Some dev"
    and "dstep\<^sup>*\<^sup>* d d1"
  shows "count_list (dy_started d1) (Poll (dev_key info)) = 1 \<and> dv_DeviceID dev = di_DeviceID info \<and>
    (\<exists>dev1. dy_devMap d1 (dev_key info) = Some dev1 \<and> dv_IP dev1 = dv_IP dev)"
proof -
  have inv: "discovery_inv d" using discovery_inv_steps [OF assms(1) discovery_inv_start] .
  have inv1: "discovery_inv d1" using discovery_inv_steps [OF assms(3) inv] .
  obtain dev1 where dev1: "dy_devMap d1 (dev_key info) = Some dev1" "dv_IP dev1 = dv_IP dev"
    using registered_stays [OF assms(3,2)] by blast
  have "dec_of_nat (unat (di_DeviceID info)) = dec_of_nat (unat (dv_DeviceID dev))"
    using inv assms(2) by (auto simp: discovery_inv_def dev_key_def)
  then have "dv_DeviceID dev = di_DeviceID info" by (simp add: dec_of_nat_inject unat_inject)
  with inv1 dev1 show ?thesis by (simp add: discovery_inv_def)
qed

definition demo_info :: "string \<Rightarrow> DeviceInfo" where
  "demo_info addr =
     \<lparr>di_DeviceID = 7, di_VendorID = 1, di_ModelName = ''Unknown'', di_IP = addr\<rparr>"

theorem one_poller_per_device_witness:
  "count_list (dy_started (RegisterAndStartPolling (demo_info ''10.0.0.9'')
     (RegisterDevice (demo_info ''10.0.0.7'') no_devices))) (Poll (dev_key (demo_info ''10.0.0.9''))) = 1"
proof -
  let ?d = "RegisterDevice (demo_info ''10.0.0.7'') no_devices"
  have "dev_key (demo_info ''10.0.0.9'') = dev_key (demo_info ''10.0.0.7'')"
    by (simp add: dev_key_inject demo_info_def)
  then have "dy_devMap ?d (dev_key (demo_info ''10.0.0.9'')) = Some (new_device (demo_info ''10.0.0.7''))"
    by (simp add: RegisterDevice_def no_devices_def)
  from one_poller_per_device [OF r_into_rtranclp [where r = dstep, OF dstep.register] this
      r_into_rtranclp [where r = dstep, OF dstep.register_poll]]
  show ?thesis by blast
qed

section \<open>The limit of failures\<close>

text \<open>Three failures one after the other.\<close>

definition three_failures :: "gerr option list \<Rightarrow> bool" where
  "three_failures rs \<longleftrightarrow> (\<exists>i. i + 2 < length rs \<and> rs ! i \<noteq> None \<and> rs ! (i + 1) \<noteq> None \<and> rs ! (i + 2) \<noteq> None)"

text \<open>One, or two, failures to begin with.\<close>

definition lead1 :: "gerr option list \<Rightarrow> bool" where
  "lead1 rs \<longleftrightarrow> rs \<noteq> [] \<and> rs ! 0 \<noteq> None"

definition lead2 :: "gerr option list \<Rightarrow> bool" where
  "lead2 rs \<longleftrightarrow> 2 \<le> length rs \<and> rs ! 0 \<noteq> None \<and> rs ! 1 \<noteq> None"

lemma lead_simps [simp]:
  "\<not> lead1 []" "\<not> lead2 []" "\<not> three_failures []" "lead1 (r # rs) \<longleftrightarrow> r \<noteq> None"
  "lead2 (r # rs) \<longleftrightarrow> r \<noteq> None \<and> lead1 rs"
  by (cases rs; auto simp: lead1_def lead2_def three_failures_def)+

lemma lead2_lead1: "lead2 rs \<Longrightarrow> lead1 rs"
  by (auto simp: lead1_def lead2_def)

lemma three_failures_Cons:
  "three_failures (r # rs) \<longleftrightarrow> (r \<noteq> None \<and> lead2 rs) \<or> three_failures rs"
  (is "?l \<longleftrightarrow> ?a \<or> ?r")
proof
  assume ?l
  then obtain i where i: "i + 2 < length (r # rs)" "(r # rs) ! i \<noteq> None"
    "(r # rs) ! (i + 1) \<noteq> None" "(r # rs) ! (i + 2) \<noteq> None"
    unfolding three_failures_def by blast
  then show "?a \<or> ?r"
    by (cases i) (auto simp: three_failures_def lead2_def numeral_2_eq_2)
next
  assume "?a \<or> ?r"
  then show ?l
  proof
    assume ?a
    then show ?l unfolding three_failures_def
      by (intro exI [of _ 0]) (auto simp: lead2_def numeral_2_eq_2)
  next
    assume ?r
    then obtain i where "i + 2 < length rs" "rs ! i \<noteq> None" "rs ! (i + 1) \<noteq> None" "rs ! (i + 2) \<noteq> None"
      unfolding three_failures_def by blast
    then show ?l unfolding three_failures_def by (intro exI [of _ "Suc i"]) auto
  qed
qed

lemma startPolling_counts:
  "(dv_FailCount dev = 0 \<longrightarrow> snd (startPolling rs dev) = three_failures rs) \<and>
   (dv_FailCount dev = 1 \<longrightarrow> snd (startPolling rs dev) = (three_failures rs \<or> lead2 rs)) \<and>
   (dv_FailCount dev = 2 \<longrightarrow> snd (startPolling rs dev) = (three_failures rs \<or> lead1 rs))"
proof (induction rs arbitrary: dev)
  case (Cons r rs)
  have c: "\<not> (3 :: i64) \<le>s 1" "\<not> (3 :: i64) \<le>s 2" "(3 :: i64) \<le>s 3"
    by (simp_all add: word_sle_eq)
  show ?case
  proof (cases r)
    case None
    then show ?thesis
      using Cons [of "dev\<lparr>dv_FailCount := 0, dv_Online := True\<rparr>"]
      by (simp add: poll_tick_def three_failures_Cons)
  next
    case (Some e)
    then show ?thesis
      using Cons [of "dev\<lparr>dv_FailCount := dv_FailCount dev + 1\<rparr>"] lead2_lead1 [of rs]
      by (auto simp: poll_tick_def three_failures_Cons Let_def c)
  qed
qed simp

lemma startPolling_Online:
  "dv_Online dev \<Longrightarrow> dv_Online (fst (startPolling rs dev)) = (\<not> snd (startPolling rs dev))"
proof (induction rs arbitrary: dev)
  case (Cons r rs)
  obtain dev1 stop where t: "poll_tick r dev = (dev1, stop)" by (metis prod.exhaust)
  then have "dv_Online dev1 = (\<not> stop)"
    using Cons.prems by (auto simp: poll_tick_def Let_def split: option.splits if_splits)
  with Cons.IH [of dev1] t show ?case by (cases stop) auto
qed simp

text \<open>Over any results of its polls, the loop of a new device's poller would return exactly when
  three in a row failed, and mark the device offline then and only then; with the poll of this
  repository it never does.\<close>

theorem offline_after_three_failures:
  "snd (startPolling rs (new_device info)) = three_failures rs \<and>
   dv_Online (fst (startPolling rs (new_device info))) = (\<not> three_failures rs) \<and>
   \<not> snd (startPolling (replicate n (pollOnce dev)) (new_device info))"
proof -
  have n: "dv_FailCount (new_device info) = 0" "dv_Online (new_device info)"
    by (simp_all add: new_device_def)
  have "\<not> three_failures (replicate n (pollOnce dev))"
    by (auto simp: three_failures_def pollOnce_def)
  with n startPolling_counts [of "new_device info"] startPolling_Online [OF n(2)]
  show ?thesis by simp
qed

section \<open>Nothing goes offline\<close>

definition all_online :: "discovery \<Rightarrow> bool" where
  "all_online d \<longleftrightarrow> dy_stopped d = {} \<and>
     (\<forall>key dev. dy_devMap d key = Some dev \<longrightarrow>
        dv_Online dev \<and> dv_FailCount dev = 0 \<and> Poll key \<in> set (dy_started d))"

lemma poll_tick_alive:
  "poll_tick (pollOnce dev) dev = (dev\<lparr>dv_FailCount := 0, dv_Online := True\<rparr>, False)"
  by (simp add: poll_tick_def pollOnce_def)

lemma all_online_step: "dstep d d1 \<Longrightarrow> all_online d \<Longrightarrow> all_online d1"
  by (induction rule: dstep.induct)
    (auto simp: all_online_def RegisterDevice_def RegisterAndStartPolling_def new_device_def poll_tick_alive)

lemma all_online_steps: "dstep\<^sup>*\<^sup>* no_devices d \<Longrightarrow> all_online d"
proof (induction rule: rtranclp_induct)
  case base
  show ?case by (simp add: all_online_def no_devices_def)
next
  case (step d d1)
  then show ?case by (blast intro: all_online_step)
qed

text \<open>C26: a discovered device counts as online for ever, whether it answers or not: \<open>pollOnce\<close> is a
  stub that reports no error, so in every state that announcements and ticks lead to, each
  device of the table is online with no failure counted, its poller runs, and its next tick
  leaves the table as it is.\<close>

theorem discovered_stay_online:
  assumes "dstep\<^sup>*\<^sup>* no_devices d" "dy_devMap d key = Some dev"
  shows "dv_Online dev \<and> dv_FailCount dev = 0 \<and> Poll key \<in> set (dy_started d) \<and> key \<notin> dy_stopped d \<and>
    poll_tick (pollOnce dev) dev = (dev, False)"
  using all_online_steps [OF assms(1)] assms(2) by (simp add: all_online_def poll_tick_alive)

theorem discovered_stay_online_witness:
  "dv_Online (new_device (demo_info ''10.0.0.7'')) \<and>
   poll_tick (pollOnce (new_device (demo_info ''10.0.0.7''))) (new_device (demo_info ''10.0.0.7'')) =
     (new_device (demo_info ''10.0.0.7''), False)"
proof -
  have "dy_devMap (RegisterDevice (demo_info ''10.0.0.7'') no_devices) (dev_key (demo_info ''10.0.0.7'')) =
      Some (new_device (demo_info ''10.0.0.7''))"
    by (simp add: RegisterDevice_def no_devices_def)
  from discovered_stay_online [OF r_into_rtranclp [where r = dstep, OF dstep.register] this]
  show ?thesis by blast
qed

end
