(* ===== verification/Format_Parser.thy ===== *)
theory Format_Parser
  imports Go_Strings
begin

text \<open>
  \<open>utils/format_parser.go\<close>: the named layouts of 16-, 32- and 64-bit values, and the cast of a
  point's raw value. Against them stands what a layout's name says: its letters give, for each
  received byte, which byte of the big-endian value it is.
\<close>

section \<open>Parsing\<close>

text \<open>The texts of the errors, in UTF-8: ``n bytes needed'' and ``unknown format''.\<close>

definition need_text :: "string \<Rightarrow> string" where
  "need_text n =
     [CHR 0xE9, CHR 0x9C, CHR 0x80] @ n @
     [CHR 0xE5, CHR 0xAD, CHR 0x97, CHR 0xE8, CHR 0x8A, CHR 0x82]"

definition unknown_text :: string where
  "unknown_text = [CHR 0xE6, CHR 0x9C, CHR 0xAA, CHR 0xE7, CHR 0x9F, CHR 0xA5] @ ''format: ''"

definition need :: "nat \<Rightarrow> string \<Rightarrow> byte list \<Rightarrow> string \<Rightarrow> goval \<Rightarrow> gerr + goval" where
  \<comment> \<open>\<open>if len(raw) < n { return nil, ... }; return v, nil\<close>\<close>
  "need n digits raw format v =
     (if length raw < n then Inl (ErrText (format @ need_text digits)) else Inr v)"

definition ParseFormat :: "string \<Rightarrow> byte list \<Rightarrow> gerr + goval" where
  "ParseFormat format raw =
     (let b = (\<lambda>i. raw ! i) in
      if format = ''INT'' then need 2 ''2'' raw format (VInt16 (be16 (b 0) (b 1)))
      else if format = ''UINT'' then need 2 ''2'' raw format (VUint16 (be16 (b 0) (b 1)))
      else if format = ''Long AB CD'' then
        need 4 ''4'' raw format (VInt32 (be32 (b 0) (b 1) (b 2) (b 3)))
      else if format = ''Long CD AB'' then
        need 4 ''4'' raw format (VInt32 (le32 (b 2) (b 3) (b 0) (b 1)))
      else if format = ''Long BA DC'' then
        need 4 ''4'' raw format (VInt32 (be32 (b 1) (b 0) (b 3) (b 2)))
      else if format = ''Long DC BA'' then
        need 4 ''4'' raw format (VInt32 (le32 (b 0) (b 1) (b 2) (b 3)))
      else if format = ''Float AB CD'' then
        need 4 ''4'' raw format (VF32 (be32 (b 0) (b 1) (b 2) (b 3)))
      else if format = ''Float CD AB'' then
        need 4 ''4'' raw format (VF32 (be32 (b 2) (b 3) (b 0) (b 1)))
      else if format = ''Float BA DC'' then
        need 4 ''4'' raw format (VF32 (be32 (b 1) (b 0) (b 3) (b 2)))
      else if format = ''Float DC BA'' then
        need 4 ''4'' raw format (VF32 (le32 (b 0) (b 1) (b 2) (b 3)))
      else if format = ''Double AB CD EF GH'' then
        need 8 ''8'' raw format (VF64 (be64 (b 0) (b 1) (b 2) (b 3) (b 4) (b 5) (b 6) (b 7)))
      else if format = ''Double GH EF CD AB'' then
        need 8 ''8'' raw format (VF64 (be64 (b 6) (b 7) (b 4) (b 5) (b 2) (b 3) (b 0) (b 1)))
      else if format = ''Double BA DC FE HG'' then
        need 8 ''8'' raw format (VF64 (be64 (b 1) (b 0) (b 3) (b 2) (b 5) (b 4) (b 7) (b 6)))
      else if format = ''Double HG FE DC BA'' then
        need 8 ''8'' raw format (VF64 (le64 (b 0) (b 1) (b 2) (b 3) (b 4) (b 5) (b 6) (b 7)))
      else Inl (ErrText (unknown_text @ format)))"

text \<open>The cast returns a value and an error at once: when parsing fails, the raw value.\<close>

definition ParseAndCastFormat :: "string \<Rightarrow> goval \<Rightarrow> goval \<times> gerr option" where
  "ParseAndCastFormat format raw =
     (let upperFmt = go_upper format;
          parsed = (case raw of
              VBytes bytes \<Rightarrow>
                (case ParseFormat format bytes of Inl e \<Rightarrow> (raw, Some e) | Inr v \<Rightarrow> (v, None))
            | _ \<Rightarrow> (raw, None))
      in if format = [] then (raw, None)
         else if upperFmt = ''INT'' then
           (case raw of
              VInt16 v \<Rightarrow> (VInt (scast v), None)
            | VInt v \<Rightarrow> (VInt (scast (ucast v :: u16)), None)
            | VUint16 v \<Rightarrow> (VInt (scast v), None)
            | VUint v \<Rightarrow> (VInt (scast (ucast v :: u16)), None)
            | _ \<Rightarrow> parsed)
         else if upperFmt = ''UINT'' then
           (case raw of
              VUint16 v \<Rightarrow> (VUint (ucast v), None)
            | VUint v \<Rightarrow> (VUint16 (ucast v), None)
            | _ \<Rightarrow> parsed)
         else parsed)"

section \<open>Layouts\<close>

text \<open>
  The letters of \<open>AB CD EF GH\<close> name the bytes of a value from the most significant one; a
  layout lists them in the order in which they are received.
\<close>

definition layout_letters :: "string \<Rightarrow> string" where
  "layout_letters format = filter (\<lambda>c. c \<noteq> CHR '' '') (dropWhile (\<lambda>c. c \<noteq> CHR '' '') format)"

definition received :: "string \<Rightarrow> byte list \<Rightarrow> byte list" where
  "received format value = map (\<lambda>c. value ! (of_char c - 65)) (layout_letters format)"

definition long_layouts :: "string list" where
  "long_layouts = [''Long AB CD'', ''Long BA DC'', ''Long DC BA'']"

definition float_layouts :: "string list" where
  "float_layouts = [''Float AB CD'', ''Float CD AB'', ''Float BA DC'', ''Float DC BA'']"

definition double_layouts :: "string list" where
  "double_layouts =
     [''Double AB CD EF GH'', ''Double GH EF CD AB'', ''Double BA DC FE HG'', ''Double HG FE DC BA'']"

lemma of_char_letters [simp]:
  "(of_char CHR ''A'' :: nat) = 65" "(of_char CHR ''B'' :: nat) = 66" "(of_char CHR ''C'' :: nat) = 67"
  "(of_char CHR ''D'' :: nat) = 68" "(of_char CHR ''E'' :: nat) = 69" "(of_char CHR ''F'' :: nat) = 70"
  "(of_char CHR ''G'' :: nat) = 71" "(of_char CHR ''H'' :: nat) = 72"
  by simp_all

lemma received_long:
  "received ''Long AB CD'' [a, b, c, d] = [a, b, c, d]"
  "received ''Long CD AB'' [a, b, c, d] = [c, d, a, b]"
  "received ''Long BA DC'' [a, b, c, d] = [b, a, d, c]"
  "received ''Long DC BA'' [a, b, c, d] = [d, c, b, a]"
  by (simp_all add: received_def layout_letters_def)

lemma received_float:
  "received ''Float AB CD'' [a, b, c, d] = [a, b, c, d]"
  "received ''Float CD AB'' [a, b, c, d] = [c, d, a, b]"
  "received ''Float BA DC'' [a, b, c, d] = [b, a, d, c]"
  "received ''Float DC BA'' [a, b, c, d] = [d, c, b, a]"
  by (simp_all add: received_def layout_letters_def)

lemma received_double:
  "received ''Double AB CD EF GH'' [a, b, c, d, e, f, g, h] = [a, b, c, d, e, f, g, h]"
  "received ''Double GH EF CD AB'' [a, b, c, d, e, f, g, h] = [g, h, e, f, c, d, a, b]"
  "received ''Double BA DC FE HG'' [a, b, c, d, e, f, g, h] = [b, a, d, c, f, e, h, g]"
  "received ''Double HG FE DC BA'' [a, b, c, d, e, f, g, h] = [h, g, f, e, d, c, b, a]"
  by (simp_all add: received_def layout_letters_def)

lemma ParseFormat_16:
  "ParseFormat ''INT'' raw = need 2 ''2'' raw ''INT'' (VInt16 (be16 (raw ! 0) (raw ! 1)))"
  "ParseFormat ''UINT'' raw = need 2 ''2'' raw ''UINT'' (VUint16 (be16 (raw ! 0) (raw ! 1)))"
  by (simp_all add: ParseFormat_def Let_def)

lemma ParseFormat_long:
  "ParseFormat ''Long AB CD'' raw =
     need 4 ''4'' raw ''Long AB CD'' (VInt32 (be32 (raw ! 0) (raw ! 1) (raw ! 2) (raw ! 3)))"
  "ParseFormat ''Long CD AB'' raw =
     need 4 ''4'' raw ''Long CD AB'' (VInt32 (be32 (raw ! 1) (raw ! 0) (raw ! 3) (raw ! 2)))"
  "ParseFormat ''Long BA DC'' raw =
     need 4 ''4'' raw ''Long BA DC'' (VInt32 (be32 (raw ! 1) (raw ! 0) (raw ! 3) (raw ! 2)))"
  "ParseFormat ''Long DC BA'' raw =
     need 4 ''4'' raw ''Long DC BA'' (VInt32 (be32 (raw ! 3) (raw ! 2) (raw ! 1) (raw ! 0)))"
  by (simp_all add: ParseFormat_def Let_def le32_def)

lemma ParseFormat_float:
  "ParseFormat ''Float AB CD'' raw =
     need 4 ''4'' raw ''Float AB CD'' (VF32 (be32 (raw ! 0) (raw ! 1) (raw ! 2) (raw ! 3)))"
  "ParseFormat ''Float CD AB'' raw =
     need 4 ''4'' raw ''Float CD AB'' (VF32 (be32 (raw ! 2) (raw ! 3) (raw ! 0) (raw ! 1)))"
  "ParseFormat ''Float BA DC'' raw =
     need 4 ''4'' raw ''Float BA DC'' (VF32 (be32 (raw ! 1) (raw ! 0) (raw ! 3) (raw ! 2)))"
  "ParseFormat ''Float DC BA'' raw =
     need 4 ''4'' raw ''Float DC BA'' (VF32 (be32 (raw ! 3) (raw ! 2) (raw ! 1) (raw ! 0)))"
  by (simp_all add: ParseFormat_def Let_def le32_def)

lemma ParseFormat_double:
  "ParseFormat ''Double AB CD EF GH'' raw =
     need 8 ''8'' raw ''Double AB CD EF GH'' (VF64 (be64 (raw ! 0) (raw ! 1) (raw ! 2) (raw ! 3)
       (raw ! 4) (raw ! 5) (raw ! 6) (raw ! 7)))"
  "ParseFormat ''Double GH EF CD AB'' raw =
     need 8 ''8'' raw ''Double GH EF CD AB'' (VF64 (be64 (raw ! 6) (raw ! 7) (raw ! 4) (raw ! 5)
       (raw ! 2) (raw ! 3) (raw ! 0) (raw ! 1)))"
  "ParseFormat ''Double BA DC FE HG'' raw =
     need 8 ''8'' raw ''Double BA DC FE HG'' (VF64 (be64 (raw ! 1) (raw ! 0) (raw ! 3) (raw ! 2)
       (raw ! 5) (raw ! 4) (raw ! 7) (raw ! 6)))"
  "ParseFormat ''Double HG FE DC BA'' raw =
     need 8 ''8'' raw ''Double HG FE DC BA'' (VF64 (be64 (raw ! 7) (raw ! 6) (raw ! 5) (raw ! 4)
       (raw ! 3) (raw ! 2) (raw ! 1) (raw ! 0)))"
  by (simp_all add: ParseFormat_def Let_def le64_def)

lemma parse_long:
  "f \<in> set long_layouts \<Longrightarrow> ParseFormat f (received f (put32 v) @ rest) = Inr (VInt32 v)"
  unfolding long_layouts_def set_simps
  by (elim insertE emptyE) (simp_all add: put32_def received_long ParseFormat_long need_def)

lemma parse_float:
  "f \<in> set float_layouts \<Longrightarrow> ParseFormat f (received f (put32 v) @ rest) = Inr (VF32 v)"
  unfolding float_layouts_def set_simps
  by (elim insertE emptyE) (simp_all add: put32_def received_float ParseFormat_float need_def)

lemma parse_double:
  "f \<in> set double_layouts \<Longrightarrow> ParseFormat f (received f (put64 x) @ rest) = Inr (VF64 x)"
  unfolding double_layouts_def set_simps
  by (elim insertE emptyE) (simp_all add: put64_def received_double ParseFormat_double need_def)

text \<open>C14: every layout but one reads back the value whose bytes arrive in the order its name
  gives, whatever follows them: \<open>Long\<close>, \<open>Float\<close> and \<open>Double\<close>, and the two plain 16-bit
  formats.\<close>

theorem layouts_read_back:
  "(\<forall>f \<in> set long_layouts. ParseFormat f (received f (put32 v) @ rest) = Inr (VInt32 v)) \<and>
   (\<forall>f \<in> set float_layouts. ParseFormat f (received f (put32 v) @ rest) = Inr (VF32 v)) \<and>
   (\<forall>f \<in> set double_layouts. ParseFormat f (received f (put64 x) @ rest) = Inr (VF64 x)) \<and>
   ParseFormat ''INT'' (put16 u @ rest) = Inr (VInt16 u) \<and>
   ParseFormat ''UINT'' (put16 u @ rest) = Inr (VUint16 u)"
  using parse_long parse_float parse_double
  by (simp add: ParseFormat_16 put16_def need_def)

text \<open>The witness reads 0x12345678 and the double 1.0 from their words in reverse order.\<close>

theorem layouts_read_back_witness:
  "ParseFormat ''Long DC BA'' (received ''Long DC BA'' (put32 0x12345678) @ []) = Inr (VInt32 0x12345678) \<and>
   ParseFormat ''Double GH EF CD AB''
     (received ''Double GH EF CD AB'' (put64 0x3FF0000000000000) @ [1]) = Inr (VF64 0x3FF0000000000000)"
  using layouts_read_back [of "0x12345678" "[]" "0x3FF0000000000000" 0]
    layouts_read_back [of "0x12345678" "[1]" "0x3FF0000000000000" 0]
  by (simp add: long_layouts_def double_layouts_def)

text \<open>The layout \<open>Long CD AB\<close> is read as \<open>Long BA DC\<close>, by a little-endian read of the
  swapped words: a value whose words really arrive as CD AB comes out with its four bytes
  reversed.\<close>

theorem long_cdab_read_as_badc:
  "(length raw \<ge> 4 \<longrightarrow> ParseFormat ''Long CD AB'' raw = ParseFormat ''Long BA DC'' raw) \<and>
   ParseFormat ''Long CD AB'' (received ''Long CD AB'' [a, b, c, d]) = Inr (VInt32 (be32 d c b a))"
  by (simp add: ParseFormat_long need_def received_long)

theorem long_cdab_read_as_badc_witness:
  "ParseFormat ''Long CD AB'' [0, 1, 0, 0] = ParseFormat ''Long BA DC'' [0, 1, 0, 0] \<and>
   ParseFormat ''Long CD AB'' (received ''Long CD AB'' (put32 1)) = Inr (VInt32 0x1000000)"
proof -
  have "put32 1 = [0, 0, 0, 1]" "be32 1 0 0 0 = 0x1000000" by (simp_all add: put32_def be32_def)
  then show ?thesis
    using long_cdab_read_as_badc [of "[0, 1, 0, 0]" 0 0 0 1] by simp
qed

section \<open>Casts\<close>

text \<open>The names the parser knows, and how many bytes each takes.\<close>

definition format_size :: "string \<Rightarrow> nat option" where
  "format_size f =
     (if f \<in> {''INT'', ''UINT''} then Some 2
      else if f \<in> set (''Long CD AB'' # long_layouts @ float_layouts) then Some 4
      else if f \<in> set double_layouts then Some 8
      else None)"

lemma ParseFormat_error_iff:
  "(\<exists>e. ParseFormat f raw = Inl e) \<longleftrightarrow> (case format_size f of None \<Rightarrow> True | Some n \<Rightarrow> length raw < n)"
  by (auto simp: ParseFormat_def Let_def need_def format_size_def long_layouts_def float_layouts_def double_layouts_def)

text \<open>A cast reports an error exactly for bytes in a format the parser does not know, or
  fewer bytes than the format takes, and it then returns the bytes unchanged; on any other
  value it succeeds. The names of the layouts are case-sensitive here, though the batch reads
  and the collector compare them in upper case.\<close>

theorem cast_errors:
  "snd (ParseAndCastFormat f raw) \<noteq> None \<longleftrightarrow>
     f \<noteq> [] \<and> (\<exists>bs. raw = VBytes bs \<and> fst (ParseAndCastFormat f raw) = raw \<and>
       (case format_size f of None \<Rightarrow> True | Some n \<Rightarrow> length bs < n))"
proof (cases raw)
  case (VBytes bs)
  show ?thesis
  proof (cases "ParseFormat f bs")
    case (Inl e)
    then show ?thesis
      using ParseFormat_error_iff [of f bs] VBytes by (simp add: ParseAndCastFormat_def Let_def)
  next
    case (Inr v)
    then show ?thesis
      using ParseFormat_error_iff [of f bs] VBytes by (simp add: ParseAndCastFormat_def Let_def)
  qed
qed (simp_all add: ParseAndCastFormat_def Let_def)


end
