(* ===== verification/Outbound_Queue.thy ===== *)
theory Outbound_Queue
  imports Prelude
begin

text \<open>
  The store-and-forward queue of \<open>uplink/sparkplugb/queue.go\<close>. Its \<open>Storage\<close> is an interface
  without an implementation in the repository, and publishing is the caller's function: both
  are parameters acting on a world \<open>'w\<close>. A nil storage is \<open>None\<close>. Sleeping between retries and
  the lock have no effect on the values here: the lock makes \<open>Enqueue\<close> and \<open>Process\<close> atomic.
\<close>

section \<open>Messages and storage\<close>

record Message =
  ms_ID :: string
  ms_Topic :: string
  ms_QoS :: byte
  ms_Payload :: "byte list"
  ms_Created :: i64
  ms_Retry :: i64

record 'w Storage =
  st_Save :: "Message \<Rightarrow> 'w \<Rightarrow> gerr option \<times> 'w"
  st_Delete :: "string \<Rightarrow> 'w \<Rightarrow> gerr option \<times> 'w"
  st_LoadAll :: "'w \<Rightarrow> Message list \<times> gerr option"

record 'w OutboundQueue =
  oq_queue :: "Message list"
  oq_storage :: "'w Storage option"

section \<open>Operations\<close>

definition NewOutboundQueue :: "'w Storage option \<Rightarrow> 'w \<Rightarrow> 'w OutboundQueue out" where
  \<comment> \<open>the error of \<open>LoadAll\<close> is dropped; calling it on a nil interface panics\<close>
  "NewOutboundQueue storage w =
     (case storage of
        None \<Rightarrow> Panic NilDeref
      | Some st \<Rightarrow> Ok \<lparr>oq_queue = fst (st_LoadAll st w), oq_storage = storage\<rparr>)"

definition Enqueue :: "'w OutboundQueue \<Rightarrow> Message \<Rightarrow> 'w \<Rightarrow> unit out \<times> 'w OutboundQueue \<times> 'w" where
  "Enqueue q msg w =
     (let q1 = q\<lparr>oq_queue := oq_queue q @ [msg]\<rparr>
      in case oq_storage q1 of
           None \<Rightarrow> (Panic NilDeref, q1, w)
         | Some st \<Rightarrow> (Ok (), q1, snd (st_Save st msg w)))"

fun process_loop ::
  "'w Storage option \<Rightarrow> (Message \<Rightarrow> 'w \<Rightarrow> gerr option \<times> 'w) \<Rightarrow> i64 \<Rightarrow> Message list \<Rightarrow> Message list
    \<Rightarrow> 'w \<Rightarrow> Message list out \<times> 'w" where
  "process_loop storage publish maxRetry [] remain w = (Ok remain, w)"
| "process_loop storage publish maxRetry (msg # msgs) remain w =
     (case publish msg w of
        (Some err, w1) \<Rightarrow>
          (let msg1 = msg\<lparr>ms_Retry := ms_Retry msg + 1\<rparr>
           in process_loop storage publish maxRetry msgs
                (if ms_Retry msg1 <s maxRetry then remain @ [msg1] else remain) w1)
      | (None, w1) \<Rightarrow>
          (case storage of
             None \<Rightarrow> (Panic NilDeref, w1)
           | Some st \<Rightarrow>
               process_loop storage publish maxRetry msgs remain (snd (st_Delete st (ms_ID msg) w1))))"

definition Process ::
  "'w OutboundQueue \<Rightarrow> (Message \<Rightarrow> 'w \<Rightarrow> gerr option \<times> 'w) \<Rightarrow> i64 \<Rightarrow> 'w
    \<Rightarrow> unit out \<times> 'w OutboundQueue \<times> 'w" where
  "Process q publish maxRetry w =
     (case process_loop (oq_storage q) publish maxRetry (oq_queue q) [] w of
        (Ok remain, w1) \<Rightarrow> (Ok (), q\<lparr>oq_queue := remain\<rparr>, w1)
      | (Err e, w1) \<Rightarrow> (Err e, q, w1)
      | (Panic p, w1) \<Rightarrow> (Panic p, q, w1))"

section \<open>What storage and broker are relied on for\<close>

text \<open>
  Any of the two may fail: \<open>stored w\<close> are the messages kept in the world \<open>w\<close> and \<open>sent w\<close> the
  identifiers of those the broker accepted. Of the storage, a \<open>Save\<close> without an error stores its
  message and no \<open>Save\<close> loses another one, a \<open>Delete\<close> removes no message of another identifier, and
  a \<open>LoadAll\<close> without an error gives what is stored. Nothing is said of what a \<open>LoadAll\<close> gives that
  fails, or whether a \<open>Delete\<close> deletes.
\<close>

record 'w queue_env =
  qe_storage :: "'w Storage"
  qe_publish :: "Message \<Rightarrow> 'w \<Rightarrow> gerr option \<times> 'w"
  qe_stored :: "'w \<Rightarrow> Message list"
  qe_sent :: "'w \<Rightarrow> string set"

definition storage_keeps :: "'w queue_env \<Rightarrow> bool" where
  "storage_keeps E \<longleftrightarrow>
     (\<forall>w. snd (st_LoadAll (qe_storage E) w) = None \<longrightarrow> fst (st_LoadAll (qe_storage E) w) = qe_stored E w) \<and>
     (\<forall>m w e w1. st_Save (qe_storage E) m w = (e, w1) \<longrightarrow>
        set (qe_stored E w) \<subseteq> set (qe_stored E w1) \<and> (e = None \<longrightarrow> m \<in> set (qe_stored E w1)) \<and>
        qe_sent E w1 = qe_sent E w) \<and>
     (\<forall>i w e w1. st_Delete (qe_storage E) i w = (e, w1) \<longrightarrow>
        {m \<in> set (qe_stored E w). ms_ID m \<noteq> i} \<subseteq> set (qe_stored E w1) \<and> qe_sent E w1 = qe_sent E w)"

definition broker_reports :: "'w queue_env \<Rightarrow> bool" where
  "broker_reports E \<longleftrightarrow>
     (\<forall>m w. qe_stored E (snd (qe_publish E m w)) = qe_stored E w \<and>
        qe_sent E w \<subseteq> qe_sent E (snd (qe_publish E m w)) \<and>
        (fst (qe_publish E m w) = None \<longrightarrow> ms_ID m \<in> qe_sent E (snd (qe_publish E m w))))"

lemma storageD:
  assumes "storage_keeps E"
  shows "snd (st_LoadAll (qe_storage E) w) = None \<Longrightarrow> fst (st_LoadAll (qe_storage E) w) = qe_stored E w"
    "st_Save (qe_storage E) m w = (e, w1) \<Longrightarrow> x \<in> set (qe_stored E w) \<Longrightarrow> x \<in> set (qe_stored E w1)"
    "st_Save (qe_storage E) m w = (None, w1) \<Longrightarrow> m \<in> set (qe_stored E w1)"
    "st_Save (qe_storage E) m w = (e, w1) \<Longrightarrow> qe_sent E w1 = qe_sent E w"
    "st_Delete (qe_storage E) i w = (e, w1) \<Longrightarrow> x \<in> set (qe_stored E w) \<Longrightarrow> ms_ID x \<noteq> i \<Longrightarrow>
       x \<in> set (qe_stored E w1)"
    "st_Delete (qe_storage E) i w = (e, w1) \<Longrightarrow> qe_sent E w1 = qe_sent E w"
proof -
  note s = assms [unfolded storage_keeps_def, THEN conjunct2, THEN conjunct1, rule_format]
  note d = assms [unfolded storage_keeps_def, THEN conjunct2, THEN conjunct2, rule_format]
  show "snd (st_LoadAll (qe_storage E) w) = None \<Longrightarrow> fst (st_LoadAll (qe_storage E) w) = qe_stored E w"
    using assms [unfolded storage_keeps_def, THEN conjunct1] by simp
  show "x \<in> set (qe_stored E w1)" if "st_Save (qe_storage E) m w = (e, w1)" "x \<in> set (qe_stored E w)"
    using s [OF that(1)] that(2) by auto
  show "m \<in> set (qe_stored E w1)" if "st_Save (qe_storage E) m w = (None, w1)"
    using s [OF that] by simp
  show "qe_sent E w1 = qe_sent E w" if "st_Save (qe_storage E) m w = (e, w1)"
    using s [OF that] by simp
  show "x \<in> set (qe_stored E w1)"
    if "st_Delete (qe_storage E) i w = (e, w1)" "x \<in> set (qe_stored E w)" "ms_ID x \<noteq> i"
    using d [OF that(1)] that(2,3) by auto
  show "qe_sent E w1 = qe_sent E w" if "st_Delete (qe_storage E) i w = (e, w1)"
    using d [OF that] by simp
qed

lemma broker_simps:
  assumes "broker_reports E" "qe_publish E m w = (r, w1)"
  shows "qe_stored E w1 = qe_stored E w" "qe_sent E w \<subseteq> qe_sent E w1"
    "r = None \<Longrightarrow> ms_ID m \<in> qe_sent E w1"
  using assms unfolding broker_reports_def by (metis fst_conv snd_conv)+

text \<open>A message is safe when it is in the storage or its identifier has been accepted.\<close>

definition safe :: "'w queue_env \<Rightarrow> 'w \<Rightarrow> Message \<Rightarrow> bool" where
  "safe E w m \<longleftrightarrow> m \<in> set (qe_stored E w) \<or> ms_ID m \<in> qe_sent E w"

lemma safe_publish:
  "broker_reports E \<Longrightarrow> qe_publish E m w = (r, w1) \<Longrightarrow> safe E w x \<Longrightarrow> safe E w1 x"
  using broker_simps [of E m w r w1] by (auto simp: safe_def)

lemma safe_Save:
  "storage_keeps E \<Longrightarrow> st_Save (qe_storage E) m w = (e, w1) \<Longrightarrow> safe E w x \<Longrightarrow> safe E w1 x"
  using storageD(2,4) [of E m w e w1] by (auto simp: safe_def)

lemma safe_Delete:
  "storage_keeps E \<Longrightarrow> st_Delete (qe_storage E) i w = (e, w1) \<Longrightarrow> i \<in> qe_sent E w \<Longrightarrow>
   safe E w x \<Longrightarrow> safe E w1 x"
  using storageD(5,6) [of E i w e w1] by (auto simp: safe_def)

text \<open>One pass loses nothing that is safe, whatever is in the queue, and never panics.\<close>

lemma process_loop_safe:
  assumes "storage_keeps E" "broker_reports E"
    and "process_loop (Some (qe_storage E)) (qe_publish E) n msgs remain w = (r, w1)"
  shows "(\<exists>q1. r = Ok q1) \<and> (\<forall>x. safe E w x \<longrightarrow> safe E w1 x)"
  using assms(3)
proof (induction msgs arbitrary: remain w)
  case (Cons m msgs)
  obtain e w2 where p: "qe_publish E m w = (e, w2)" by (metis prod.exhaust)
  note safe2 = safe_publish [OF assms(2) p]
  show ?case
  proof (cases e)
    case None
    obtain e3 w3 where d: "st_Delete (qe_storage E) (ms_ID m) w2 = (e3, w3)" by (metis prod.exhaust)
    have "process_loop (Some (qe_storage E)) (qe_publish E) n msgs remain w3 = (r, w1)"
      using Cons.prems p None d by simp
    from Cons.IH [OF this] safe2 safe_Delete [OF assms(1) d broker_simps(3) [OF assms(2) p None]]
    show ?thesis by blast
  next
    case (Some err)
    with Cons.prems p have "process_loop (Some (qe_storage E)) (qe_publish E) n msgs
        (if ms_Retry m + 1 <s n then remain @ [m\<lparr>ms_Retry := ms_Retry m + 1\<rparr>] else remain) w2 =
        (r, w1)" by (simp add: Let_def)
    from Cons.IH [OF this] safe2 show ?thesis by blast
  qed
qed auto

lemma Process_safe:
  assumes "storage_keeps E" "broker_reports E" "oq_storage q = Some (qe_storage E)"
    and "Process q (qe_publish E) n w = (res, q1, w1)"
  shows "res = Ok () \<and> oq_storage q1 = Some (qe_storage E) \<and> (\<forall>x. safe E w x \<longrightarrow> safe E w1 x)"
proof -
  obtain r w2 where l: "process_loop (Some (qe_storage E)) (qe_publish E) n (oq_queue q) [] w = (r, w2)"
    by (metis prod.exhaust)
  from process_loop_safe [OF assms(1,2) l] assms(3,4) l show ?thesis
    by (auto simp: Process_def)
qed

section \<open>Runs of the queue\<close>

text \<open>
  A run: start from what is stored, enqueue any messages, process, and restart at any moment
  (a crash loses the queue, not the storage). The last argument is every message that was stored
  at the start or whose \<open>Save\<close> gave no error since.
\<close>

inductive q_reach :: "'w queue_env \<Rightarrow> 'w OutboundQueue \<Rightarrow> 'w \<Rightarrow> Message set \<Rightarrow> bool" for E where
  start: "NewOutboundQueue (Some (qe_storage E)) w = Ok q \<Longrightarrow> q_reach E q w (set (qe_stored E w))"
| enqueue: "q_reach E q w saved \<Longrightarrow> Enqueue q m w = (Ok (), q1, w1) \<Longrightarrow>
    fst (st_Save (qe_storage E) m w) = e \<Longrightarrow>
    q_reach E q1 w1 (if e = None then insert m saved else saved)"
| process: "q_reach E q w saved \<Longrightarrow> Process q (qe_publish E) maxRetry w = (Ok (), q1, w1) \<Longrightarrow>
    q_reach E q1 w1 saved"
| restart: "q_reach E q w saved \<Longrightarrow> NewOutboundQueue (Some (qe_storage E)) w = Ok q1 \<Longrightarrow>
    q_reach E q1 w saved"

lemma q_reach_safe:
  assumes "storage_keeps E" "broker_reports E" "q_reach E q w saved"
  shows "oq_storage q = Some (qe_storage E) \<and> (\<forall>m \<in> saved. safe E w m)"
  using assms(3)
proof (induction rule: q_reach.induct)
  case (start w q)
  then show ?case by (auto simp: NewOutboundQueue_def safe_def)
next
  case (enqueue q w saved m q1 w1 e)
  obtain w2 where s: "st_Save (qe_storage E) m w = (e, w2)" using enqueue.hyps(3) by (metis prod.collapse)
  have q1: "q1 = q\<lparr>oq_queue := oq_queue q @ [m]\<rparr>" "w1 = w2"
    using enqueue s by (auto simp: Enqueue_def Let_def)
  have "safe E w2 m" if "e = None"
    using storageD(3) [OF assms(1) s [unfolded that]] by (simp add: safe_def)
  with enqueue.IH safe_Save [OF assms(1) s] show ?case by (auto simp: q1)
next
  case (process q w saved maxRetry q1 w1)
  with Process_safe [OF assms(1,2)] show ?case by blast
next
  case (restart q w saved q1)
  then show ?case by (auto simp: NewOutboundQueue_def)
qed

text \<open>C3: no message that was saved is lost, although \<open>Enqueue\<close>, \<open>Process\<close> and \<open>NewOutboundQueue\<close> drop the
  storage's errors: over any run of enqueues, passes and restarts, with any of the calls to storage
  and broker failing, every message that was stored at the start, or whose \<open>Save\<close> gave no
  error, is still in the storage or its identifier has been accepted by the broker; and a pass
  never panics.\<close>

theorem no_message_lost:
  assumes "storage_keeps E" "broker_reports E" "q_reach E q w saved"
  shows "(\<forall>m \<in> saved. m \<in> set (qe_stored E w) \<or> ms_ID m \<in> qe_sent E w) \<and>
    fst (Process q (qe_publish E) n w) = Ok ()"
proof -
  note inv = q_reach_safe [OF assms]
  obtain res q1 w1 where "Process q (qe_publish E) n w = (res, q1, w1)" by (metis prod_cases3)
  with Process_safe [OF assms(1,2) _ this] inv show ?thesis by (simp add: safe_def)
qed

text \<open>Nothing keeps a message whose \<open>Save\<close> failed, but the queue: \<open>Enqueue\<close> does not tell its caller,
  and a restart that loads what is stored does not have it.\<close>

theorem unsaved_message_lost:
  assumes "storage_keeps E" "st_Save (qe_storage E) m w = (Some e, w1)" "m \<notin> set (qe_stored E w1)"
    and "oq_storage q = Some (qe_storage E)" "snd (st_LoadAll (qe_storage E) w1) = None"
  shows "Enqueue q m w = (Ok (), q\<lparr>oq_queue := oq_queue q @ [m]\<rparr>, w1) \<and>
    (\<exists>q1. NewOutboundQueue (Some (qe_storage E)) w1 = Ok q1 \<and> m \<notin> set (oq_queue q1))"
  using assms by (simp add: Enqueue_def NewOutboundQueue_def storageD(1) Let_def)

text \<open>
  A storage in memory, whose saves fail while the broker is down, and a broker that is up or
  down.
\<close>

definition mem_env :: "(Message list \<times> string set \<times> bool) queue_env" where
  "mem_env =
     \<lparr>qe_storage =
        \<lparr>st_Save = (\<lambda>m (ms, s, up). if up then (None, ms @ [m], s, up) else (Some EOF, ms, s, up)),
         st_Delete = (\<lambda>i (ms, s, up). (None, filter (\<lambda>m. ms_ID m \<noteq> i) ms, s, up)),
         st_LoadAll = (\<lambda>(ms, s, up). (ms, None))\<rparr>,
      qe_publish = (\<lambda>m (ms, s, up).
        if up then (None, ms, insert (ms_ID m) s, up) else (Some EOF, ms, s, up)),
      qe_stored = (\<lambda>(ms, s, up). ms),
      qe_sent = (\<lambda>(ms, s, up). s)\<rparr>"

lemma mem_env_ok: "storage_keeps mem_env" "broker_reports mem_env"
  by (auto simp: storage_keeps_def broker_reports_def mem_env_def split: if_splits)

definition demo_msg :: "string \<Rightarrow> Message" where
  "demo_msg i = \<lparr>ms_ID = i, ms_Topic = ''t'', ms_QoS = 1, ms_Payload = [], ms_Created = 0, ms_Retry = 0\<rparr>"

lemma demo_start:
  "NewOutboundQueue (Some (qe_storage mem_env)) ([demo_msg ''a'', demo_msg ''b''], {}, up) =
     Ok \<lparr>oq_queue = [demo_msg ''a'', demo_msg ''b''], oq_storage = Some (qe_storage mem_env)\<rparr>"
  by (simp add: NewOutboundQueue_def mem_env_def)

text \<open>The witness enqueues a third message, which is saved, and processes all of them.\<close>

theorem no_message_lost_witness:
  "\<exists>q w. q_reach mem_env q w {demo_msg ''a'', demo_msg ''b'', demo_msg ''c''} \<and>
     oq_queue q = [] \<and> qe_stored mem_env w = [] \<and> {''a'', ''b'', ''c''} \<subseteq> qe_sent mem_env w"
proof -
  let ?ms = "[demo_msg ''a'', demo_msg ''b'']"
  let ?q0 = "\<lparr>oq_queue = ?ms, oq_storage = Some (qe_storage mem_env)\<rparr>"
  let ?q1 = "?q0\<lparr>oq_queue := ?ms @ [demo_msg ''c'']\<rparr>"
  let ?w2 = "([], {''a'', ''b'', ''c''}, True)"
  have "q_reach mem_env ?q0 (?ms, {}, True) (set ?ms)"
    using q_reach.start [OF demo_start [of True]] by (simp add: mem_env_def)
  moreover have "Enqueue ?q0 (demo_msg ''c'') (?ms, {}, True) = (Ok (), ?q1, ?ms @ [demo_msg ''c''], {}, True)"
    by (simp add: Enqueue_def mem_env_def)
  ultimately have r1: "q_reach mem_env ?q1 (?ms @ [demo_msg ''c''], {}, True) (insert (demo_msg ''c'') (set ?ms))"
    using q_reach.enqueue [of mem_env ?q0 _ "set ?ms" "demo_msg ''c''" ?q1 _ None] by (simp add: mem_env_def)
  have "Process ?q1 (qe_publish mem_env) 3 (?ms @ [demo_msg ''c''], {}, True) =
      (Ok (), ?q1\<lparr>oq_queue := []\<rparr>, ?w2)"
    by (simp add: Process_def mem_env_def demo_msg_def insert_commute)
  from q_reach.process [OF r1 this]
  have r2: "q_reach mem_env (?q1\<lparr>oq_queue := []\<rparr>) ?w2 {demo_msg ''a'', demo_msg ''b'', demo_msg ''c''}"
    by (simp add: insert_commute)
  from no_message_lost [OF mem_env_ok r2, of 3] r2 show ?thesis
    by (intro exI [of _ "?q1\<lparr>oq_queue := []\<rparr>"] exI [of _ ?w2]) (simp add: mem_env_def demo_msg_def)
qed

theorem unsaved_message_lost_witness:
  "fst (Enqueue \<lparr>oq_queue = [], oq_storage = Some (qe_storage mem_env)\<rparr> (demo_msg ''a'') ([], {}, False)) = Ok ()"
  using unsaved_message_lost [OF mem_env_ok(1), of "demo_msg ''a''" "([], {}, False)" EOF "([], {}, False)"
      "\<lparr>oq_queue = [], oq_storage = Some (qe_storage mem_env)\<rparr>"]
  by (simp add: mem_env_def)

section \<open>Giving up\<close>

fun process_times ::
  "nat \<Rightarrow> 'w OutboundQueue \<Rightarrow> (Message \<Rightarrow> 'w \<Rightarrow> gerr option \<times> 'w) \<Rightarrow> i64 \<Rightarrow> 'w
    \<Rightarrow> 'w OutboundQueue \<times> 'w" where
  "process_times 0 q publish maxRetry w = (q, w)"
| "process_times (Suc k) q publish maxRetry w =
     (case Process q publish maxRetry w of (_, q1, w1) \<Rightarrow> process_times k q1 publish maxRetry w1)"

definition broker_down :: "'w queue_env \<Rightarrow> 'w \<Rightarrow> bool" where
  "broker_down E w \<longleftrightarrow> (\<forall>m. \<exists>e. qe_publish E m w = (Some e, w))"

definition with_retry :: "i64 \<Rightarrow> Message \<Rightarrow> Message" where
  "with_retry k m = m\<lparr>ms_Retry := k\<rparr>"

lemma process_loop_down:
  assumes "broker_down E w"
  shows "process_loop st (qe_publish E) n (map (with_retry k) ms) remain w =
    (Ok (if k + 1 <s n then remain @ map (with_retry (k + 1)) ms else remain), w)"
proof (induction ms arbitrary: remain)
  case (Cons m ms)
  obtain e where "qe_publish E (with_retry k m) w = (Some e, w)"
    using assms unfolding broker_down_def by blast
  with Cons show ?case by (simp add: with_retry_def Let_def)
qed simp

lemma Process_down:
  assumes "broker_down E w" "oq_queue q = map (with_retry k) ms"
  shows "Process q (qe_publish E) n w =
    (Ok (), q\<lparr>oq_queue := (if k + 1 <s n then map (with_retry (k + 1)) ms else [])\<rparr>, w)"
  using process_loop_down [OF assms(1), of "oq_storage q" n k ms "[]"] assms(2)
  by (simp add: Process_def)

lemma process_times_down:
  assumes "broker_down E w" "j + i = nat (sint n)" "0 < i"
  shows "oq_queue q = map (with_retry (word_of_nat j)) ms \<Longrightarrow>
    process_times i q (qe_publish E) n w = (q\<lparr>oq_queue := []\<rparr>, w)"
  using assms(2,3)
proof (induction i arbitrary: j q)
  case (Suc i)
  have n: "j + Suc i = nat (sint n)" by fact
  have "sint n < 2 ^ 63" using sint_less [of n] by simp
  then have bound: "int (Suc j) < 2 ^ 63" using n by linarith
  have sj: "sint (word_of_nat j + 1 :: i64) = int (Suc j)"
  proof -
    have "word_of_nat j + 1 = (word_of_int (int (Suc j)) :: i64)" by simp
    then show ?thesis
      using bound by (simp only: signed_of_int) (simp add: signed_take_bit_int_eq_self)
  qed
  note P = Process_down [OF assms(1) Suc.prems(1), of n]
  show ?case
  proof (cases "i = 0")
    case True
    then have "\<not> word_of_nat j + 1 <s n" using n sj by (simp add: word_sless_alt)
    with P True show ?thesis by simp
  next
    case False
    then have lt: "word_of_nat j + 1 <s n" using n sj by (simp add: word_sless_alt)
    let ?q1 = "q\<lparr>oq_queue := map (with_retry (word_of_nat j + 1)) ms\<rparr>"
    have "oq_queue ?q1 = map (with_retry (word_of_nat (Suc j))) ms" by (simp add: add.commute)
    from Suc.IH [OF this] n False have "process_times i ?q1 (qe_publish E) n w = (q\<lparr>oq_queue := []\<rparr>, w)"
      by simp
    with P lt show ?thesis by simp
  qed
qed simp

text \<open>C22: a message given up after \<open>maxRetry\<close> failures leaves the queue but not the storage,
  which has no count of its failures: after \<open>maxRetry\<close> passes with the broker down the queue is
  empty, and a restart that can load brings every message back as it was when it was enqueued.\<close>

theorem exhausted_messages_return:
  assumes "storage_keeps E" "broker_down E w" "0 < sint n" "snd (st_LoadAll (qe_storage E) w) = None"
    and "\<forall>m \<in> set (qe_stored E w). ms_Retry m = 0"
    and "NewOutboundQueue (Some (qe_storage E)) w = Ok q"
  shows "\<exists>q1. process_times (nat (sint n)) q (qe_publish E) n w = (q1, w) \<and> oq_queue q1 = [] \<and>
    NewOutboundQueue (Some (qe_storage E)) w = Ok q \<and> oq_queue q = qe_stored E w"
proof -
  have "map (with_retry 0) (qe_stored E w) = qe_stored E w"
    using assms(5) by (simp add: map_idI with_retry_def)
  then have q: "oq_queue q = qe_stored E w" "oq_queue q = map (with_retry (word_of_nat 0)) (qe_stored E w)"
    using assms(6) by (auto simp: NewOutboundQueue_def storageD(1) [OF assms(1,4)])
  have "process_times (nat (sint n)) q (qe_publish E) n w = (q\<lparr>oq_queue := []\<rparr>, w)"
    by (rule process_times_down [OF assms(2) _ _ q(2)]) (use assms(3) in simp_all)
  with assms(6) q(1) show ?thesis by simp
qed

theorem exhausted_messages_return_witness:
  "\<exists>q1. process_times 3 \<lparr>oq_queue = [demo_msg ''a'', demo_msg ''b''], oq_storage = Some (qe_storage mem_env)\<rparr>
      (qe_publish mem_env) 3 ([demo_msg ''a'', demo_msg ''b''], {}, False) =
      (q1, [demo_msg ''a'', demo_msg ''b''], {}, False) \<and> oq_queue q1 = []"
proof -
  have "broker_down mem_env ([demo_msg ''a'', demo_msg ''b''], {}, False)"
    by (auto simp: broker_down_def mem_env_def)
  moreover have "\<forall>m \<in> set (qe_stored mem_env ([demo_msg ''a'', demo_msg ''b''], {}, False)). ms_Retry m = 0"
    by (simp add: mem_env_def demo_msg_def)
  ultimately show ?thesis
    using exhausted_messages_return [OF mem_env_ok(1) _ _ _ _ demo_start, of False 3]
    by (auto simp: mem_env_def)
qed

end
