(* ===== verification/Uplink.thy ===== *)
theory Uplink
  imports Data_Types Outbound_Queue Go_Strings
begin

text \<open>
  The way up: \<open>uplink/manager.go\<close>, \<open>uplink.go\<close>, \<open>encoder.go\<close>, the channels under \<open>uplink/http\<close>,
  \<open>mqtt\<close>, \<open>kafka\<close>, \<open>nats\<close> and \<open>redis\<close>, and the Sparkplug B client of \<open>uplink/sparkplugb\<close> with
  its south-bound mapping. The client libraries, the HTTP transport and the JSON encoder are
  parameters that act on a world \<open>'w\<close>; the log file is left out.
\<close>

section \<open>Libraries\<close>

record MqttOptions =
  mo_Broker :: string
  mo_ClientID :: string
  mo_Username :: string
  mo_Password :: string

record HttpRequest =
  rq_Method :: string
  rq_URL :: string
  rq_Headers :: "(string \<times> string) list"  \<comment> \<open>the calls of \<open>Header.Set\<close>, in order\<close>
  rq_Body :: "byte list"

record 'w netlib =
  nl_mqtt_connect :: "MqttOptions \<Rightarrow> 'w \<Rightarrow> gerr option \<times> 'w"
  nl_mqtt_publish :: "MqttOptions \<Rightarrow> string \<Rightarrow> byte \<Rightarrow> bool \<Rightarrow> byte list \<Rightarrow> 'w \<Rightarrow> gerr option \<times> 'w"
  nl_http_check :: "string \<Rightarrow> string \<Rightarrow> gerr option"  \<comment> \<open>what \<open>http.NewRequest\<close> refuses\<close>
  nl_http_do :: "HttpRequest \<Rightarrow> 'w \<Rightarrow> (gerr + int \<times> string) \<times> 'w"
  nl_redis_publish :: "string \<Rightarrow> byte list \<Rightarrow> 'w \<Rightarrow> gerr option \<times> 'w"

section \<open>Channels\<close>

text \<open>
  The five implementations of \<open>Uplink\<close>. An MQTT client is known by its options (\<open>None\<close>: nil);
  a Redis uplink's client is nil or not.
\<close>

datatype uplink =
    MqttUplink "MqttOptions option" string string
  | HttpUplink string string "(string \<times> string) list"
  | KafkaUplink string string
  | NatsUplink
  | RedisUplink bool string string

definition out_of_error :: "gerr option \<Rightarrow> unit out" where
  "out_of_error e = (case e of None \<Rightarrow> Ok () | Some err \<Rightarrow> Err err)"

definition http_send ::
  "'w netlib \<Rightarrow> string \<Rightarrow> string \<Rightarrow> (string \<times> string) list \<Rightarrow> byte list \<Rightarrow> 'w \<Rightarrow> unit out \<times> 'w" where
  "http_send lib url method headers data w =
     (case nl_http_check lib method url of
        Some e \<Rightarrow> (Err e, w)
      | None \<Rightarrow>
          (case nl_http_do lib
             \<lparr>rq_Method = method, rq_URL = url,
              rq_Headers = headers @ [(''Content-Type'', ''application/json'')], rq_Body = data\<rparr> w of
             (Inl e, w1) \<Rightarrow> (Err e, w1)
           | (Inr (code, body), w1) \<Rightarrow>
               (if code < 200 \<or> 300 \<le> code
                then (Err (ErrText (''http send failed with code '' @ dec_of_int code @ '': '' @ body)), w1)
                else (Ok (), w1))))"

fun up_Send :: "'w netlib \<Rightarrow> uplink \<Rightarrow> byte list \<Rightarrow> 'w \<Rightarrow> unit out \<times> 'w" where
  "up_Send lib (MqttUplink None topic name) data w = (Panic NilDeref, w)"
| "up_Send lib (MqttUplink (Some opts) topic name) data w =
     (case nl_mqtt_publish lib opts topic 1 False data w of (e, w1) \<Rightarrow> (out_of_error e, w1))"
| "up_Send lib (HttpUplink url method headers) data w = http_send lib url method headers data w"
| "up_Send lib (KafkaUplink topic name) data w = (Ok (), w)"
| "up_Send lib NatsUplink data w = (Ok (), w)"
| "up_Send lib (RedisUplink conn topic name) data w =
     (if conn
      then (case nl_redis_publish lib topic data w of (e, w1) \<Rightarrow> (out_of_error e, w1))
      else (Panic NilDeref, w))"

fun up_Name :: "uplink \<Rightarrow> string" where
  "up_Name (MqttUplink c topic name) = name"
| "up_Name (HttpUplink url method headers) = ''http''"
| "up_Name (KafkaUplink topic name) = name"
| "up_Name NatsUplink = ''nats''"
| "up_Name (RedisUplink c topic name) = name"

fun up_Type :: "uplink \<Rightarrow> string" where
  "up_Type (MqttUplink c topic name) = ''mqtt''"
| "up_Type (HttpUplink url method headers) = ''POST''"
| "up_Type (KafkaUplink topic name) = ''kafka''"
| "up_Type NatsUplink = ''NATS''"
| "up_Type (RedisUplink c topic name) = ''redis''"

text \<open>The factory of \<open>uplink.go\<close>, with empty structs.\<close>

definition NewUplink :: "string \<Rightarrow> uplink option" where
  "NewUplink typ =
     (if typ = ''mqtt'' then Some (MqttUplink None [] [])
      else if typ = ''http'' then Some (HttpUplink [] [] [])
      else if typ = ''nats'' then Some NatsUplink
      else if typ = ''redis'' then Some (RedisUplink False [] [])
      else if typ = ''kafka'' then Some (KafkaUplink [] [])
      else None)"

text \<open>
  \<open>NewHttpUplink\<close>: the headers' values are printed with \<open>%v\<close>, here a parameter.
\<close>

definition NewHttpUplink :: "(goval \<Rightarrow> string) \<Rightarrow> gomap \<Rightarrow> gerr + uplink" where
  "NewHttpUplink fmt config =
     (case mget config ''url'' of
        VStr url \<Rightarrow>
          (let meth = (case mget config ''method'' of VStr m \<Rightarrow> m | _ \<Rightarrow> ''POST'');
               headers = (case mget config ''headers'' of
                   VMap h \<Rightarrow> map (\<lambda>(k, v). (k, fmt v)) h | _ \<Rightarrow> [])
           in Inr (HttpUplink url meth headers))
      | _ \<Rightarrow> Inl (ErrText ''missing or invalid url''))"

section \<open>The manager\<close>

record UplinkConfig =
  uc_Type :: string
  uc_Name :: string
  uc_Enable :: bool
  uc_Broker :: string
  uc_ClientID :: string
  uc_Username :: string
  uc_Password :: string
  uc_Topic :: string
  uc_URL :: string
  uc_Method :: string
  uc_Headers :: "(string \<times> string) list"
  uc_Brokers :: "string list"
  uc_Server :: string
  uc_Subject :: string

definition mqtt_options :: "UplinkConfig \<Rightarrow> MqttOptions" where
  "mqtt_options c =
     (let opts = \<lparr>mo_Broker = uc_Broker c, mo_ClientID = uc_ClientID c, mo_Username = [],
                  mo_Password = []\<rparr>
      in if uc_Username c \<noteq> [] \<and> uc_Password c \<noteq> []
         then opts\<lparr>mo_Username := uc_Username c, mo_Password := uc_Password c\<rparr> else opts)"

definition uplink_of :: "'w netlib \<Rightarrow> UplinkConfig \<Rightarrow> 'w \<Rightarrow> uplink list \<times> 'w" where
  \<comment> \<open>one round of the loop: the uplink it appends, if any\<close>
  "uplink_of lib c w =
     (if \<not> uc_Enable c then ([], w)
      else if uc_Type c = ''mqtt'' then
        (case nl_mqtt_connect lib (mqtt_options c) w of
           (Some e, w1) \<Rightarrow> ([], w1)
         | (None, w1) \<Rightarrow> ([MqttUplink (Some (mqtt_options c)) (uc_Topic c) (uc_Name c)], w1))
      else if uc_Type c = ''http'' then ([HttpUplink (uc_URL c) (uc_Method c) (uc_Headers c)], w)
      else if uc_Type c = ''kafka'' then ([KafkaUplink (uc_Topic c) (uc_Name c)], w)
      else if uc_Type c = ''nats'' then ([NatsUplink], w)
      else if uc_Type c = ''redis'' then ([RedisUplink False [] []], w)
      else ([], w))"

fun NewUplinkManagerFromConfig :: "'w netlib \<Rightarrow> UplinkConfig list \<Rightarrow> 'w \<Rightarrow> uplink list \<times> 'w" where
  "NewUplinkManagerFromConfig lib [] w = ([], w)"
| "NewUplinkManagerFromConfig lib (c # cs) w =
     (let (us, w1) = uplink_of lib c w;
          (vs, w2) = NewUplinkManagerFromConfig lib cs w1
      in (us @ vs, w2))"

text \<open>The error of an uplink is printed, never returned.\<close>

fun SendToAll :: "'w netlib \<Rightarrow> uplink list \<Rightarrow> byte list \<Rightarrow> 'w \<Rightarrow> unit out \<times> 'w" where
  "SendToAll lib [] payload w = (Ok (), w)"
| "SendToAll lib (up # ups) payload w =
     (case up_Send lib up payload w of
        (Panic p, w1) \<Rightarrow> (Panic p, w1)
      | (_, w1) \<Rightarrow> SendToAll lib ups payload w1)"

section \<open>Reports\<close>

text \<open>\<open>EncodeDataReport\<close>: the encoder's error is dropped, and its bytes are nil then.\<close>

definition EncodeDataReport ::
  "(DataReport \<Rightarrow> gerr + byte list) \<Rightarrow> i64 \<Rightarrow> string \<Rightarrow> gomap \<Rightarrow> AlarmInfo list \<Rightarrow> gomap
    \<Rightarrow> byte list" where
  "EncodeDataReport marshal now deviceID points alarms metrics =
     (case marshal \<lparr>dr_DeviceID = deviceID, dr_Timestamp = now, dr_Data = points,
                    dr_Alarm = alarms, dr_Metrics = metrics\<rparr> of
        Inl e \<Rightarrow> [] | Inr buf \<Rightarrow> buf)"

section \<open>Sparkplug B\<close>

record SparkplugBConfig =
  sb_ClientID :: string
  sb_GroupID :: string
  sb_NodeID :: string
  sb_GroupPath :: bool
  sb_OfflineCache :: bool
  sb_CacheMemMB :: i64
  sb_CacheDiskMB :: i64
  sb_CacheInterval :: i64
  sb_Host :: string
  sb_Port :: i64
  sb_Username :: string
  sb_Password :: string
  sb_SSL :: bool
  sb_CAFile :: string
  sb_CertFile :: string
  sb_KeyFile :: string
  sb_KeyPassword :: string

record 'w SparkplugBUplink =
  su_Config :: SparkplugBConfig
  su_Client :: MqttOptions
  su_NameV :: string
  su_Queue :: "'w OutboundQueue"

definition broker_url :: "SparkplugBConfig \<Rightarrow> string" where
  "broker_url cfg =
     (if sb_SSL cfg then ''ssl'' else ''tcp'') @ ''://'' @ sb_Host cfg @ '':'' @
       dec_of_int (sint (sb_Port cfg))"

definition NewSparkplugBUplink :: "SparkplugBConfig \<Rightarrow> 'w \<Rightarrow> 'w SparkplugBUplink out" where
  "NewSparkplugBUplink cfg w =
     (let opts = \<lparr>mo_Broker = broker_url cfg, mo_ClientID = sb_ClientID cfg,
                  mo_Username = sb_Username cfg, mo_Password = sb_Password cfg\<rparr>
      in bind_out (NewOutboundQueue None w) (\<lambda>queue.
           Ok \<lparr>su_Config = cfg, su_Client = opts, su_NameV = ''sparkplugb'', su_Queue = queue\<rparr>))"

record SimMetric =
  sm_Name :: string
  sm_Datatype :: "32 word"
  sm_DoubleValue :: f64
  sm_IntValue :: "32 word"
  sm_StringValue :: string
  sm_Timestamp :: i64

record SimPayload =
  sp_Timestamp :: i64
  sp_Metrics :: "SimMetric list"
  sp_Seq :: "32 word"

definition BuildSimMetricDouble :: "i64 \<Rightarrow> string \<Rightarrow> f64 \<Rightarrow> SimMetric" where
  "BuildSimMetricDouble now name value =
     \<lparr>sm_Name = name, sm_Datatype = 8, sm_DoubleValue = value, sm_IntValue = 0, sm_StringValue = [],
      sm_Timestamp = now\<rparr>"

definition BuildSimMetricInt :: "i64 \<Rightarrow> string \<Rightarrow> 32 word \<Rightarrow> SimMetric" where
  "BuildSimMetricInt now name value =
     \<lparr>sm_Name = name, sm_Datatype = 10, sm_DoubleValue = 0, sm_IntValue = value, sm_StringValue = [],
      sm_Timestamp = now\<rparr>"

definition BuildSimMetricString :: "i64 \<Rightarrow> string \<Rightarrow> string \<Rightarrow> SimMetric" where
  "BuildSimMetricString now name value =
     \<lparr>sm_Name = name, sm_Datatype = 12, sm_DoubleValue = 0, sm_IntValue = 0, sm_StringValue = value,
      sm_Timestamp = now\<rparr>"

text \<open>The five messages share their body: connect, encode, publish, and only their topic differs.\<close>

definition send_sim ::
  "'w netlib \<Rightarrow> (SimPayload \<Rightarrow> gerr + byte list) \<Rightarrow> i64 \<Rightarrow> 'w SparkplugBUplink \<Rightarrow> string
    \<Rightarrow> SimMetric list \<Rightarrow> 'w \<Rightarrow> gerr option \<times> 'w" where
  "send_sim lib marshal now s topic metrics w =
     (case nl_mqtt_connect lib (su_Client s) w of
        (Some e, w1) \<Rightarrow> (Some e, w1)
      | (None, w1) \<Rightarrow>
          (case marshal \<lparr>sp_Timestamp = now, sp_Metrics = metrics, sp_Seq = 0\<rparr> of
             Inl e \<Rightarrow> (Some e, w1)
           | Inr buf \<Rightarrow> nl_mqtt_publish lib (su_Client s) topic 1 False buf w1))"

definition sim_topic :: "'w SparkplugBUplink \<Rightarrow> string \<Rightarrow> string" where
  "sim_topic s kind = ''spBv1.0/'' @ sb_GroupID (su_Config s) @ ''/'' @ kind @ ''/'' @ sb_NodeID (su_Config s)"

definition SendSimNBIRTH where
  "SendSimNBIRTH lib marshal now s metrics w =
     send_sim lib marshal now s (sim_topic s ''NBIRTH'') metrics w"

definition SendSimNDATA where
  "SendSimNDATA lib marshal now s metrics w =
     send_sim lib marshal now s (sim_topic s ''NDATA'') metrics w"

definition SendSimDBIRTH where
  "SendSimDBIRTH lib marshal now s deviceID metrics w =
     send_sim lib marshal now s (sim_topic s ''DBIRTH'' @ ''/'' @ deviceID) metrics w"

definition SendSimNDEATH where
  "SendSimNDEATH lib marshal now s w = send_sim lib marshal now s (sim_topic s ''NDEATH'') [] w"

definition SendSimDDEATH where
  "SendSimDDEATH lib marshal now s deviceID w =
     send_sim lib marshal now s (sim_topic s ''DDEATH'' @ ''/'' @ deviceID) [] w"

text \<open>
  The south-bound mapping: \<open>order\<close> is the order in which the runtime iterates over the template,
  which Go leaves open.
\<close>

fun applyMapping_from :: "gomap \<Rightarrow> (string \<times> string) list \<Rightarrow> gomap \<Rightarrow> gomap" where
  "applyMapping_from payload [] res = res"
| "applyMapping_from payload ((k, v) # tpl) res =
     applyMapping_from payload tpl
       (case payload k of None \<Rightarrow> res | Some val \<Rightarrow> res(v \<mapsto> val))"

definition applyMapping :: "gomap \<Rightarrow> (string \<times> string) list \<Rightarrow> gomap" where
  "applyMapping payload tpl = applyMapping_from payload tpl Map.empty"

section \<open>Sending to all\<close>

text \<open>An uplink whose client is there.\<close>

fun up_ready :: "uplink \<Rightarrow> bool" where
  "up_ready (MqttUplink c topic name) = (c \<noteq> None)"
| "up_ready (RedisUplink conn topic name) = conn"
| "up_ready _ = True"

lemma up_Send_ready: "up_ready up \<Longrightarrow> \<not> is_panic (fst (up_Send lib up data w))"
  by (cases up) (auto simp: out_of_error_def http_send_def split: option.splits prod.splits sum.splits)

lemma up_Send_nil: "\<not> up_ready up \<Longrightarrow> up_Send lib up data w = (Panic NilDeref, w)"
  by (cases up) auto

lemma SendToAll_ok:
  "fst (SendToAll lib ups payload w) \<noteq> Err e \<and>
   ((\<forall>up \<in> set ups. up_ready up) \<longrightarrow>
     SendToAll lib ups payload w =
       (Ok (), foldl (\<lambda>w up. snd (up_Send lib up payload w)) w ups))"
proof (induction ups arbitrary: w)
  case (Cons up ups)
  obtain r w1 where r: "up_Send lib up payload w = (r, w1)" by (metis prod.exhaust)
  show ?case
  proof (cases "is_panic r")
    case True
    then have "\<not> up_ready up" using up_Send_ready [of up lib payload w] r by auto
    with True r show ?thesis by (cases r) auto
  next
    case False
    then have "SendToAll lib (up # ups) payload w = SendToAll lib ups payload w1"
      using r by (cases r) auto
    with Cons [of w1] r show ?thesis by simp
  qed
qed simp

lemma SendToAll_ready:
  "\<forall>up \<in> set ups. up_ready up \<Longrightarrow> SendToAll lib ups payload w =
     (Ok (), foldl (\<lambda>w up. snd (up_Send lib up payload w)) w ups)"
  by (rule SendToAll_ok [THEN conjunct2, THEN mp])

text \<open>Sending to all channels never returns an error, so the collector prints success
  whatever the channels answered: when every client is there, each channel gets the payload
  once, in order, a failure of one does not keep the next from sending, and the result is nil.\<close>

theorem SendToAll_delivers:
  "fst (SendToAll lib ups payload w) \<noteq> Err e \<and>
   ((\<forall>up \<in> set ups. up_ready up) \<longrightarrow>
     SendToAll lib ups payload w =
       (Ok (), foldl (\<lambda>w up. snd (up_Send lib up payload w)) w ups))"
  by (rule SendToAll_ok)

definition demo_net :: "(string \<times> byte list) list netlib" where
  "demo_net =
     \<lparr>nl_mqtt_connect = (\<lambda>opts w. (None, w)),
      nl_mqtt_publish = (\<lambda>opts topic qos retained data w. (Some EOF, w @ [(topic, data)])),
      nl_http_check = (\<lambda>m u. None),
      nl_http_do = (\<lambda>rq w. (Inr (500, ''busy''), w @ [(rq_URL rq, rq_Body rq)])),
      nl_redis_publish = (\<lambda>topic data w. (None, w @ [(topic, data)]))\<rparr>"

theorem SendToAll_delivers_witness:
  "SendToAll demo_net [HttpUplink ''u'' ''POST'' [], NatsUplink, RedisUplink True ''r'' ''n''] [1] [] =
     (Ok (), [(''u'', [1]), (''r'', [1])])"
  using SendToAll_delivers [of demo_net "[HttpUplink ''u'' ''POST'' [], NatsUplink, RedisUplink True ''r'' ''n'']" "[1]" "[]"]
  by (simp add: http_send_def demo_net_def)

lemma SendToAll_panics:
  "up \<in> set ups \<Longrightarrow> \<not> up_ready up \<Longrightarrow> is_panic (fst (SendToAll lib ups payload w))"
proof (induction ups arbitrary: w)
  case (Cons u ups)
  obtain r w1 where "up_Send lib u payload w = (r, w1)" by (metis prod.exhaust)
  with Cons show ?case by (cases r) (auto simp: up_Send_nil)
qed simp

lemma manager_uplinks:
  "c \<in> set cfgs \<Longrightarrow> uc_Enable c \<Longrightarrow> uc_Type c = ''redis'' \<Longrightarrow>
   NewUplinkManagerFromConfig lib cfgs w = (ups, w1) \<Longrightarrow> RedisUplink False [] [] \<in> set ups"
proof (induction cfgs arbitrary: ups w w1)
  case (Cons c1 cs)
  obtain us w2 where us: "uplink_of lib c1 w = (us, w2)" by (metis prod.exhaust)
  obtain vs w3 where vs: "NewUplinkManagerFromConfig lib cs w2 = (vs, w3)" by (metis prod.exhaust)
  have ups: "ups = us @ vs" using Cons.prems(4) us vs by simp
  show ?case
  proof (cases "c = c1")
    case True
    then have "us = [RedisUplink False [] []]" using us Cons.prems(2,3) by (auto simp: uplink_of_def)
    with ups show ?thesis by simp
  next
    case False
    with Cons.IH [OF _ Cons.prems(2,3) vs] Cons.prems(1) ups show ?thesis by simp
  qed
qed simp

text \<open>A channel of type redis that is enabled in the configuration is made without a client,
  so the first report panics and takes the whole process down.\<close>

theorem redis_uplink_panics:
  assumes "c \<in> set cfgs" "uc_Enable c" "uc_Type c = ''redis''"
    and "NewUplinkManagerFromConfig lib cfgs w0 = (ups, w1)"
  shows "is_panic (fst (SendToAll lib ups payload w))"
  using SendToAll_panics [OF manager_uplinks [OF assms]] by simp

definition demo_uplink :: "string \<Rightarrow> UplinkConfig" where
  "demo_uplink typ =
     \<lparr>uc_Type = typ, uc_Name = ''n'', uc_Enable = True, uc_Broker = [], uc_ClientID = [],
      uc_Username = [], uc_Password = [], uc_Topic = ''t'', uc_URL = ''u'', uc_Method = ''POST'',
      uc_Headers = [], uc_Brokers = [], uc_Server = [], uc_Subject = []\<rparr>"

theorem redis_uplink_panics_witness:
  "is_panic (fst (SendToAll demo_net [NatsUplink, RedisUplink False [] []] [1] []))"
proof -
  have "NewUplinkManagerFromConfig demo_net [demo_uplink ''nats'', demo_uplink ''redis''] [] =
      ([NatsUplink, RedisUplink False [] []], [])"
    by (simp add: uplink_of_def demo_uplink_def)
  from redis_uplink_panics [OF _ _ _ this, of "demo_uplink ''redis''"] show ?thesis
    by (simp add: demo_uplink_def)
qed

section \<open>Sparkplug B\<close>

text \<open>\<open>NewSparkplugBUplink\<close> never returns: it makes its queue with a nil storage, whose
  \<open>LoadAll\<close> is called at once.\<close>

theorem NewSparkplugBUplink_panics: "NewSparkplugBUplink cfg w = Panic NilDeref"
  by (simp add: NewSparkplugBUplink_def NewOutboundQueue_def Let_def)

section \<open>South-bound mapping\<close>

lemma applyMapping_other:
  "v \<notin> snd ` set tpl \<Longrightarrow> applyMapping_from payload tpl res v = res v"
  by (induction payload tpl res rule: applyMapping_from.induct) (auto split: option.splits)

lemma applyMapping_target:
  assumes "distinct (map snd tpl)" "(k, v) \<in> set tpl"
  shows "applyMapping_from payload tpl res v = (case payload k of None \<Rightarrow> res v | Some val \<Rightarrow> Some val)"
  using assms
proof (induction payload tpl res rule: applyMapping_from.induct)
  case (2 payload k1 v1 tpl res)
  show ?case
  proof (cases "(k, v) = (k1, v1)")
    case True
    then have "v \<notin> snd ` set tpl" using "2.prems"(1) by auto
    with True show ?thesis by (auto simp: applyMapping_other split: option.splits)
  next
    case False
    with "2.prems" have "(k, v) \<in> set tpl" "v1 \<noteq> v" by (auto simp: rev_image_eqI)
    with 2 show ?thesis by (auto split: option.splits)
  qed
qed simp

text \<open>With a template whose targets differ, the mapped message has, under each target, the
  value of its source key when the payload has one, and nothing else; so the order in which the
  runtime iterates over the template does not matter.\<close>

theorem applyMapping_spec:
  assumes "distinct (map fst tpl)" "distinct (map snd tpl)"
  shows "applyMapping payload tpl v =
      (case map_of (map (\<lambda>(k, v). (v, k)) tpl) v of None \<Rightarrow> None | Some k \<Rightarrow> payload k) \<and>
    (\<forall>tpl1. mset tpl1 = mset tpl \<longrightarrow> applyMapping payload tpl1 = applyMapping payload tpl)"
proof -
  have spec: "applyMapping payload t v = (case map_of (map (\<lambda>(k, v). (v, k)) t) v of
      None \<Rightarrow> None | Some k \<Rightarrow> payload k)" if "distinct (map snd t)" for t v
  proof (cases "map_of (map (\<lambda>(k, v). (v, k)) t) v")
    case None
    then have "v \<notin> snd ` set t" by (force simp: map_of_eq_None_iff)
    with None show ?thesis by (simp add: applyMapping_def applyMapping_other)
  next
    case (Some k)
    then have "(k, v) \<in> set t" by (auto dest!: map_of_SomeD)
    with Some that show ?thesis
      by (simp add: applyMapping_def applyMapping_target split: option.splits)
  qed
  have "applyMapping payload t = applyMapping payload tpl" if "mset t = mset tpl" for t
  proof
    fix v
    have d: "distinct (map snd t)"
      using that assms(2) by (metis mset_eq_imp_distinct_iff mset_map)
    have "mset (map (\<lambda>(k, v). (v, k)) t) = mset (map (\<lambda>(k, v). (v, k)) tpl)"
      using that by simp
    moreover have "distinct (map fst (map (\<lambda>(k, v). (v, k)) tpl))"
      using assms(2) by (simp add: comp_def case_prod_beta')
    ultimately have "map_of (map (\<lambda>(k, v). (v, k)) t) = map_of (map (\<lambda>(k, v). (v, k)) tpl)"
      by (metis map_of_eqI mset_eq_setD mset_eq_imp_distinct_iff mset_map set_map map_of_inject_set)
    then show "applyMapping payload t v = applyMapping payload tpl v"
      by (simp add: spec [OF d] spec [OF assms(2)])
  qed
  with spec [OF assms(2)] show ?thesis by blast
qed

theorem applyMapping_spec_witness:
  "applyMapping [''temp'' \<mapsto> VF64 1] [(''temp'', ''t''), (''hum'', ''h'')] ''t'' = Some (VF64 1) \<and>
   applyMapping [''temp'' \<mapsto> VF64 1] [(''temp'', ''t''), (''hum'', ''h'')] ''h'' = None"
proof -
  have d: "distinct (map fst [(''temp'', ''t''), (''hum'', ''h'')])"
    "distinct (map snd [(''temp'', ''t''), (''hum'', ''h'')])" by simp_all
  show ?thesis
    by (simp add: conjunct1 [OF applyMapping_spec [OF d]])
qed

end
