(* ===== verification/Collector.thy ===== *)
theory Collector
  imports Modbus_Coils Bacnet Bacnet_Discover Format_Parser Uplink
begin

text \<open>
  \<open>main.go\<close>: the registry of the protocols linked into the binary, the pool of clients, the merge
  of a device's configuration, reads with retries, the conversion of a value, and one round of
  a device's poller. A client is shared by pointer: a position in the list of clients.
\<close>

section \<open>Environment\<close>

text \<open>
  What a run takes from outside: the libraries, the sorts, \<open>strconv.ParseFloat\<close> and
  \<open>time.ParseDuration\<close> (\<open>None\<close>: an error), \<open>math.Log\<close>, the JSON encoder, the clock, and the two
  ways the code makes an expression of govaluate: without functions, and with a table of them. A
  function of the table may panic, and so may the evaluation that calls it.
\<close>

type_synonym transform_fn = "goval list \<Rightarrow> goval out"

record 'w env =
  en_mb :: "'w mblib"
  en_srtr :: "addrPoint list \<Rightarrow> addrPoint list"
  en_srtc :: "coilPoint list \<Rightarrow> coilPoint list"
  en_fmt :: fmtlib
  en_gov :: govaluate
  en_gov_fns :: "(string \<rightharpoonup> transform_fn) \<Rightarrow> string \<Rightarrow> gerr + (gomap \<Rightarrow> goval out)"
  en_log :: "f64 \<Rightarrow> f64"
  en_parse_float :: "string \<Rightarrow> f64 option"
  en_parse_duration :: "string \<Rightarrow> i64 option"
  en_marshal :: "DataReport \<Rightarrow> gerr + byte list"
  en_net :: "'w netlib"
  en_now :: "'w \<Rightarrow> i64"

section \<open>Protocols\<close>

text \<open>The two implementations of \<open>Protocol\<close> that the binary registers.\<close>

datatype pclient = CModbus modbusTCP | CBacnet BacnetClient

fun pc_Init :: "'w env \<Rightarrow> gomap \<Rightarrow> pclient \<Rightarrow> 'w \<Rightarrow> gerr option \<times> pclient \<times> 'w" where
  "pc_Init E config (CModbus m) w =
     (case mb_Init (en_mb E) config m w of (e, m1, w1) \<Rightarrow> (e, CModbus m1, w1))"
| "pc_Init E config (CBacnet c) w =
     (case bc_Init (en_fmt E) config c of (e, c1) \<Rightarrow> (e, CBacnet c1, w))"

fun pc_ReadBatch ::
  "'w env \<Rightarrow> pclient \<Rightarrow> string \<Rightarrow> string \<Rightarrow> string list \<Rightarrow> 'w \<Rightarrow> PointValue list out \<times> pclient \<times> 'w" where
  "pc_ReadBatch E (CModbus m) dev function addrs w =
     (case mb_ReadBatch (en_mb E) (en_srtr E) (en_srtc E) m dev function addrs w of
        (r, w1) \<Rightarrow> (r, CModbus m, w1))"
| "pc_ReadBatch E (CBacnet c) dev function addrs w =
     (case bc_ReadBatch (en_gov E) (en_now E w) c dev function addrs of
        Inl e \<Rightarrow> (Err e, CBacnet c, w)
      | Inr vs \<Rightarrow> (Ok vs, CBacnet c, w))"

fun pc_Reconnect :: "'w env \<Rightarrow> pclient \<Rightarrow> 'w \<Rightarrow> gerr option \<times> pclient \<times> 'w" where
  "pc_Reconnect E (CModbus m) w =
     (case mb_Reconnect (en_mb E) m w of (e, m1, w1) \<Rightarrow> (e, CModbus m1, w1))"
| "pc_Reconnect E (CBacnet c) w = (case bc_Reconnect c of (e, c1) \<Rightarrow> (e, CBacnet c1, w))"

text \<open>\<open>protocols.Create\<close> on the registry that the packages' \<open>init\<close> functions fill.\<close>

type_synonym 'c registry = "string \<rightharpoonup> 'c"

definition Register :: "string \<Rightarrow> 'c \<Rightarrow> 'c registry \<Rightarrow> 'c registry" where
  \<comment> \<open>a constructor is the value it makes\<close>
  "Register name constructor reg = reg(name \<mapsto> constructor)"

definition Create :: "'c registry \<Rightarrow> string \<Rightarrow> gerr + 'c" where
  "Create reg name =
     (case reg name of
        Some ctor \<Rightarrow> Inr ctor
      | None \<Rightarrow> Inl (ErrText (''unknown protocol: '' @ name)))"

definition main_registry :: "pclient registry" where
  "main_registry =
     Register ''modbus_tcp'' (CModbus NewModbusTCP) (Register ''bacnet'' (CBacnet NewBacnetClient) Map.empty)"

section \<open>The pool of clients\<close>

record ClientKey =
  ck_Protocol :: string
  ck_IP :: string
  ck_Port :: i64

record pool =
  po_clients :: "pclient list"
  po_cache :: "ClientKey \<rightharpoonup> nat"

definition empty_pool :: pool where
  "empty_pool = \<lparr>po_clients = [], po_cache = Map.empty\<rparr>"

definition client_key :: "string \<Rightarrow> gomap \<Rightarrow> ClientKey" where
  "client_key protocol config =
     \<lparr>ck_Protocol = protocol,
      ck_IP = (case mget config ''ip'' of VStr s \<Rightarrow> s | _ \<Rightarrow> []),
      ck_Port = (case mget config ''port'' of VInt v \<Rightarrow> v | VF64 v \<Rightarrow> f64_to_int v | _ \<Rightarrow> 0)\<rparr>"

definition getOrCreateClient ::
  "'w env \<Rightarrow> string \<Rightarrow> gomap \<Rightarrow> pool \<Rightarrow> 'w \<Rightarrow> (gerr + nat) \<times> pool \<times> 'w" where
  "getOrCreateClient E protocol config p w =
     (let key = client_key protocol config
      in case po_cache p key of
           Some i \<Rightarrow> (Inr i, p, w)
         | None \<Rightarrow>
             (case Create main_registry protocol of
                Inl e \<Rightarrow> (Inl e, p, w)
              | Inr c \<Rightarrow>
                  (case pc_Init E config c w of
                     (Some e, c1, w1) \<Rightarrow> (Inl e, p, w1)
                   | (None, c1, w1) \<Rightarrow>
                       (let i = length (po_clients p)
                        in (Inr i, p\<lparr>po_clients := po_clients p @ [c1],
                                     po_cache := (po_cache p)(key \<mapsto> i)\<rparr>, w1)))))"

section \<open>The configuration of a device\<close>

text \<open>The fields of \<open>DeviceMeta\<close> with their yaml tags, in order, as reflection lists them.\<close>

definition meta_fields :: "DeviceMeta \<Rightarrow> (string \<times> goval) list" where
  "meta_fields meta =
     [(''id'', VStr (dm_ID meta)), (''name'', VStr (dm_Name meta)),
      (''description'', VStr (dm_Description meta)), (''protocol'', VStr (dm_Protocol meta)),
      (''protocol_name'', VStr (dm_ProtocolName meta)), (''interval'', VStr (dm_Interval meta)),
      (''enable_ping'', VBool (dm_EnablePing meta)), (''ip'', VStr (dm_IP meta)),
      (''port'', VInt (dm_Port meta)), (''slave_id'', VInt (dm_SlaveID meta))]"

fun add_missing :: "(string \<times> goval) list \<Rightarrow> gomap \<Rightarrow> gomap" where
  \<comment> \<open>\<open>if _, exists := config[k]; !exists { config[k] = v }\<close> for each pair\<close>
  "add_missing [] config = config"
| "add_missing ((k, v) # kvs) config =
     add_missing kvs (if config k = None then config(k \<mapsto> v) else config)"

definition injectDeviceMeta :: "DeviceConfigWithMeta \<Rightarrow> DeviceMeta \<Rightarrow> DeviceConfigWithMeta" where
  "injectDeviceMeta dev meta =
     (let config = (case dc_Config dev of None \<Rightarrow> Map.empty | Some c \<Rightarrow> c)
      in dev\<lparr>dc_Config := Some (add_missing (meta_fields meta) config)\<rparr>)"

fun find_params :: "(string \<times> goval) list list \<Rightarrow> string \<Rightarrow> (string \<times> goval) list option" where
  \<comment> \<open>the first instance of the protocol with the name asked\<close>
  "find_params [] name = None"
| "find_params (p # ps) name =
     (if map_of p ''name'' = Some (VStr name) then Some p else find_params ps name)"

definition merged_config ::
  "DeviceConfigWithMeta \<Rightarrow> (string \<times> goval) list \<Rightarrow> gomap" where
  "merged_config dev protoParams =
     add_missing protoParams (the (dc_Config (injectDeviceMeta dev (dc_Meta dev))))"

text \<open>The slave set once at start (1 when the configuration has none), and before each round.\<close>

definition start_slave :: "gomap \<Rightarrow> byte" where
  "start_slave config =
     (case config ''slave_id'' of
        Some (VInt v) \<Rightarrow> ucast v | Some (VF64 v) \<Rightarrow> f64_to_byte v | _ \<Rightarrow> 1)"

definition round_slave :: "gomap \<Rightarrow> byte option" where
  "round_slave config =
     (case config ''slave_id'' of
        Some (VInt v) \<Rightarrow> Some (ucast v) | Some (VF64 v) \<Rightarrow> Some (f64_to_byte v) | _ \<Rightarrow> None)"

fun pc_SetSlave :: "byte \<Rightarrow> pclient \<Rightarrow> pclient" where
  "pc_SetSlave s (CModbus m) = CModbus (SetSlave s m)"
| "pc_SetSlave s (CBacnet c) = CBacnet c"

text \<open>The period in nanoseconds; a number is in seconds.\<close>

definition poll_interval :: "'w env \<Rightarrow> gomap \<Rightarrow> i64" where
  "poll_interval E config =
     (case config ''interval'' of
        Some (VInt v) \<Rightarrow> v * 1000000000
      | Some (VF64 v) \<Rightarrow> f64_to_int v * 1000000000
      | Some (VStr s) \<Rightarrow>
          (case en_parse_duration E s of Some d \<Rightarrow> d | None \<Rightarrow> 5000000000)
      | _ \<Rightarrow> 5000000000)"

record poller =
  pl_set :: DevicePointSetV2
  pl_config :: gomap
  pl_client :: nat
  pl_interval :: i64

text \<open>
  The body of the loop over the point sets, up to the goroutine; \<open>None\<close>: the set is skipped. A
  configuration that is not nil is one map, shared by every set of the device, so what is
  merged into it stays.
\<close>

definition start_poller ::
  "'w env \<Rightarrow> (string \<Rightarrow> (string \<times> goval) list list) \<Rightarrow> DevicePointSetV2
    \<Rightarrow> (string \<rightharpoonup> DeviceConfigWithMeta) \<Rightarrow> pool \<Rightarrow> 'w
    \<Rightarrow> poller option \<times> (string \<rightharpoonup> DeviceConfigWithMeta) \<times> pool \<times> 'w" where
  "start_poller E protoConf dset devMap p w =
     (case devMap (d2_DeviceID dset) of
        None \<Rightarrow> (None, devMap, p, w)
      | Some dev \<Rightarrow>
          (let protocol = (if d2_Protocol dset \<noteq> [] then d2_Protocol dset else dm_Protocol (dc_Meta dev));
               protocolName = (if d2_ProtocolName dset \<noteq> [] then d2_ProtocolName dset
                               else dm_ProtocolName (dc_Meta dev))
           in case find_params (protoConf protocol) protocolName of
                None \<Rightarrow> (None, devMap, p, w)
              | Some protoParams \<Rightarrow>
                  (let config = merged_config dev protoParams;
                       devMap1 = (if dc_Config dev = None then devMap
                                  else devMap(d2_DeviceID dset \<mapsto> dev\<lparr>dc_Config := Some config\<rparr>))
                   in case getOrCreateClient E protocol config p w of
                        (Inl e, p1, w1) \<Rightarrow> (None, devMap1, p1, w1)
                      | (Inr i, p1, w1) \<Rightarrow>
                          (let c = pc_SetSlave (start_slave config) (po_clients p1 ! i)
                           in (Some \<lparr>pl_set = dset, pl_config = config, pl_client = i,
                                     pl_interval = poll_interval E config\<rparr>,
                               devMap1, p1\<lparr>po_clients := (po_clients p1)[i := c]\<rparr>, w1)))))"

section \<open>Reading with retries\<close>

text \<open>
  The client is known here by its interface, the two operations of \<open>Protocol\<close> it calls.
  \<open>retry_loop\<close> has the reads that are left; the last one that fails is followed by a reconnection,
  whose result is only printed. The 2 seconds between the tries are left out.
\<close>

fun retry_loop ::
  "('c \<Rightarrow> string \<Rightarrow> string \<Rightarrow> string list \<Rightarrow> 'w \<Rightarrow> PointValue list out \<times> 'c \<times> 'w) \<Rightarrow>
   ('c \<Rightarrow> 'w \<Rightarrow> gerr option \<times> 'c \<times> 'w) \<Rightarrow>
   string \<Rightarrow> string \<Rightarrow> string list \<Rightarrow> nat \<Rightarrow> PointValue list out \<Rightarrow> 'c \<Rightarrow> 'w
    \<Rightarrow> PointValue list out \<times> 'c \<times> 'w" where
  "retry_loop rd rc devID function addrs 0 res c w = (res, c, w)"
| "retry_loop rd rc devID function addrs (Suc k) res c w =
     (case rd c devID function addrs w of
        (Err e, c1, w1) \<Rightarrow>
          (if k = 0
           then (case rc c1 w1 of (_, c2, w2) \<Rightarrow> (Err e, c2, w2))
           else retry_loop rd rc devID function addrs k (Err e) c1 w1)
      | (r, c1, w1) \<Rightarrow> (r, c1, w1))"

definition readWithRetry ::
  "('c \<Rightarrow> string \<Rightarrow> string \<Rightarrow> string list \<Rightarrow> 'w \<Rightarrow> PointValue list out \<times> 'c \<times> 'w) \<Rightarrow>
   ('c \<Rightarrow> 'w \<Rightarrow> gerr option \<times> 'c \<times> 'w) \<Rightarrow>
   'c \<Rightarrow> string \<Rightarrow> string \<Rightarrow> string list \<Rightarrow> nat \<Rightarrow> 'w \<Rightarrow> PointValue list out \<times> 'c \<times> 'w" where
  "readWithRetry rd rc c devID function addrs maxRetry w =
     retry_loop rd rc devID function addrs maxRetry (Ok []) c w"

section \<open>Conversion of a value\<close>

text \<open>\<open>reflect.ValueOf(v).Convert(float64)\<close> for the numeric types a switch lists.\<close>

fun to_float :: "goval \<Rightarrow> f64" where
  "to_float (VF32 v) = f64_of_f32 v"
| "to_float (VF64 v) = v"
| "to_float (VInt v) = f64_of_int (sint v)"
| "to_float (VInt32 v) = f64_of_int (sint v)"
| "to_float (VInt64 v) = f64_of_int (sint v)"
| "to_float (VUint16 v) = f64_of_int (uint v)"
| "to_float (VUint32 v) = f64_of_int (uint v)"
| "to_float (VUint64 v) = f64_of_int (uint v)"
| "to_float v = 0"

fun is_float :: "goval \<Rightarrow> bool" where
  "is_float (VF32 _) = True"
| "is_float (VF64 _) = True"
| "is_float _ = False"

fun is_integer :: "goval \<Rightarrow> bool" where  \<comment> \<open>those listed: neither \<open>int16\<close> nor \<open>uint\<close>\<close>
  "is_integer (VInt _) = True"
| "is_integer (VInt32 _) = True"
| "is_integer (VInt64 _) = True"
| "is_integer (VUint16 _) = True"
| "is_integer (VUint32 _) = True"
| "is_integer (VUint64 _) = True"
| "is_integer _ = False"

text \<open>
  The functions of \<open>parseTransform\<close>. \<open>args[i].(float64)\<close> panics when there is no such argument or
  it is not a \<open>float64\<close>.
\<close>

definition float_arg :: "goval list \<Rightarrow> nat \<Rightarrow> f64 out" where
  "float_arg args i =
     (if i < length args
      then (case args ! i of
          VF64 x \<Rightarrow> Ok x
        | v \<Rightarrow> Panic (BadAssertion (go_typename v)))
      else Panic IndexRange)"

definition math_fn1 :: "(f64 \<Rightarrow> f64) \<Rightarrow> transform_fn" where
  "math_fn1 f args = bind_out (float_arg args 0) (\<lambda>x. Ok (VF64 (f x)))"

definition math_fn2 :: "(f64 \<Rightarrow> f64 \<Rightarrow> f64) \<Rightarrow> transform_fn" where
  "math_fn2 f args =
     bind_out (float_arg args 0) (\<lambda>x. bind_out (float_arg args 1) (\<lambda>y. Ok (VF64 (f x y))))"

definition transform_functions :: "'w env \<Rightarrow> string \<rightharpoonup> transform_fn" where
  "transform_functions E =
     [''abs'' \<mapsto> math_fn1 f64_abs, ''sqrt'' \<mapsto> math_fn1 f64_sqrt, ''log'' \<mapsto> math_fn1 (en_log E),
      ''min'' \<mapsto> math_fn2 f64_min, ''max'' \<mapsto> math_fn2 f64_max]"

text \<open>\<open>parseTransform\<close>: a value and an error at once, unless the evaluation panics.\<close>

definition parseTransform :: "'w env \<Rightarrow> string \<Rightarrow> goval \<Rightarrow> (goval \<times> gerr option) out" where
  "parseTransform E expr val =
     (case (if is_float val \<or> is_integer val then Inr (to_float val)
            else case val of
              VStr s \<Rightarrow> (case en_parse_float E s of Some v \<Rightarrow> Inr v | None \<Rightarrow> Inl (ErrText ''ParseFloat''))
            | _ \<Rightarrow> Inl (ErrText (''unsupported value type: '' @ go_typename val))) of
        Inl e \<Rightarrow> Ok (val, Some e)
      | Inr v \<Rightarrow>
          (case en_gov_fns E (transform_functions E) expr of
             Inl e \<Rightarrow> Ok (val, Some e)
           | Inr ev \<Rightarrow>
               (case ev [''value'' \<mapsto> VF64 v] of
                  Ok result \<Rightarrow> Ok (result, None)
                | Err e \<Rightarrow> Ok (val, Some e)
                | Panic x \<Rightarrow> Panic x)))"

text \<open>The padding of words to the bytes of a float or double, in the order of the source.\<close>

definition is_format :: "string \<Rightarrow> PointMapping \<Rightarrow> bool" where
  "is_format kind p = prefix kind (go_upper (pm_Format p))"

definition pad_words :: "PointMapping \<Rightarrow> goval \<Rightarrow> goval" where
  "pad_words p v0 =
     (let v1 = (case v0 of
            VU16s arr \<Rightarrow> if length arr = 2 \<and> is_format ''FLOAT'' p then VBytes (regs_bytes arr) else v0
          | _ \<Rightarrow> v0);
          v2 = (case v1 of
            VU16s arr \<Rightarrow> if length arr = 4 \<and> is_format ''DOUBLE'' p then VBytes (regs_bytes arr) else v1
          | _ \<Rightarrow> v1);
          v3 = (case v2 of
            VUint32 u \<Rightarrow> if is_format ''FLOAT'' p then VBytes (put32 u) else v2
          | _ \<Rightarrow> v2)
      in if is_format ''FLOAT'' p
         then (case v3 of
            VUint16 u \<Rightarrow> VBytes (put16 u @ [0, 0])
          | VU16s arr \<Rightarrow> if length arr = 1 then VBytes (put16 (arr ! 0) @ [0, 0]) else v3
          | _ \<Rightarrow> v3)
         else v3)"

definition apply_format :: "PointMapping \<Rightarrow> goval \<Rightarrow> goval" where
  "apply_format p v =
     (if pm_Format p \<noteq> [] then
        case ParseAndCastFormat (pm_Format p) v of (v2, None) \<Rightarrow> v2 | (_, Some e) \<Rightarrow> v
      else v)"

text \<open>
  The transform: its result is a new variable \<open>val\<close> of the inner block, declared with \<open>:=\<close>, and
  the outer one keeps its value after the block.
\<close>

definition apply_transform :: "'w env \<Rightarrow> PointMapping \<Rightarrow> goval \<Rightarrow> goval out" where
  "apply_transform E p outer =
     (if pm_Transform p \<noteq> [] then
        bind_out (parseTransform E (pm_Transform p) outer) (\<lambda>(inner, err).
          let inner1 = (case err of
                Some e \<Rightarrow> inner
              | None \<Rightarrow>
                  (case inner of
                     VStr s \<Rightarrow> (case en_parse_float E s of Some f \<Rightarrow> VF64 f | None \<Rightarrow> inner)
                   | _ \<Rightarrow> inner))
          in Ok outer)
      else Ok outer)"

definition round2 :: "f64 \<Rightarrow> f64" where  \<comment> \<open>\<open>math.Round(f*100)/100\<close>\<close>
  "round2 f = f64_div (f64_math_round (f64_mul f (f64_of_int 100))) (f64_of_int 100)"

definition to_type :: "'w env \<Rightarrow> PointMapping \<Rightarrow> goval \<Rightarrow> goval" where
  "to_type E p v =
     (let v1 =
        (if go_lower (pm_Type p) = ''float'' then
           (if is_float v \<or> is_integer v then VF64 (round2 (to_float v))
            else case v of
              VStr s \<Rightarrow> (case en_parse_float E s of Some f \<Rightarrow> VF64 (round2 f) | None \<Rightarrow> v)
            | _ \<Rightarrow> v)
         else v)
      in if go_lower (pm_Type p) = ''int'' then
           (if is_float v1 then VInt (f64_to_int (f64_math_round (to_float v1)))
            else case v1 of
              VStr s \<Rightarrow>
                (case en_parse_float E s of
                   Some f \<Rightarrow> VInt (f64_to_int (f64_math_round f)) | None \<Rightarrow> v1)
            | _ \<Rightarrow> v1)
         else v1)"

definition convert_value :: "'w env \<Rightarrow> PointMapping \<Rightarrow> goval \<Rightarrow> goval out" where
  "convert_value E p v =
     bind_out (apply_transform E p (apply_format p (pad_words p v))) (\<lambda>v1. Ok (to_type E p v1))"

section \<open>A round of a poller\<close>

fun nil_points :: "PointMapping list \<Rightarrow> gomap \<Rightarrow> gomap" where
  "nil_points [] all = all"
| "nil_points (p # ps) all = nil_points ps (all(pm_Name p \<mapsto> VNil))"

fun store_value :: "'w env \<Rightarrow> PointMapping list \<Rightarrow> PointValue \<Rightarrow> gomap \<Rightarrow> gomap out" where
  \<comment> \<open>the first point whose address or name is the value's identifier takes it\<close>
  "store_value E [] v all = Ok all"
| "store_value E (p # ps) v all =
     (if pv_PointID v = pm_Address p \<or> pv_PointID v = pm_Name p
      then bind_out (convert_value E p (pv_Value v)) (\<lambda>x. Ok (all(pm_Name p \<mapsto> x)))
      else store_value E ps v all)"

fun store_values :: "'w env \<Rightarrow> PointMapping list \<Rightarrow> PointValue list \<Rightarrow> gomap \<Rightarrow> gomap out" where
  "store_values E ps [] all = Ok all"
| "store_values E ps (v # vs) all =
     bind_out (store_value E ps v all) (\<lambda>all1. store_values E ps vs all1)"

text \<open>The averages and alarms gathered after each group, in variables that end with the group.\<close>

fun group_metrics :: "string \<Rightarrow> RuleEngine \<Rightarrow> AggregateRule list \<Rightarrow> gomap \<Rightarrow> gomap" where
  "group_metrics dev re [] ms = ms"
| "group_metrics dev re (rule # rules) ms =
     group_metrics dev re rules
       (if ag_DeviceID rule = dev then
          (case re_Buffers re (buf_key dev (ag_Point rule)) of
             Some buf \<Rightarrow>
               if ag_Method rule = ''avg'' then ms(ag_Point rule @ ''_avg'' \<mapsto> VF64 (pb_Avg buf)) else ms
           | None \<Rightarrow> ms)
        else ms)"

fun poll_groups ::
  "'w env \<Rightarrow> string \<Rightarrow> FunctionPointGroup list \<Rightarrow> gomap \<Rightarrow> pclient \<Rightarrow> RuleEngine \<Rightarrow> 'w
    \<Rightarrow> gomap out \<times> pclient \<times> RuleEngine \<times> 'w" where
  "poll_groups E dev [] all c re w = (Ok all, c, re, w)"
| "poll_groups E dev (g # gs) all c re w =
     (let all1 = nil_points (fg_Points g) all
      in case readWithRetry (pc_ReadBatch E) (pc_Reconnect E) c dev (fg_Function g)
               (extractPointAddresses (fg_Points g)) 3 w of
           (Panic x, c1, w1) \<Rightarrow> (Panic x, c1, re, w1)
         | (r, c1, w1) \<Rightarrow>
             (case store_values E (fg_Points g) (case r of Ok vs \<Rightarrow> vs | _ \<Rightarrow> []) all1 of
                Ok all2 \<Rightarrow>
                  (let re1 = fst (ApplyRules (en_gov E) re dev all2);
                       alarms = re_LastAlarms re1;
                       metrics = group_metrics dev re1 (re_AggRules re1) Map.empty
                   in poll_groups E dev gs all2 c1 re1 w1)
              | Err e \<Rightarrow> (Err e, c1, re, w1)
              | Panic x \<Rightarrow> (Panic x, c1, re, w1)))"

definition poll_round ::
  "'w env \<Rightarrow> uplink list \<Rightarrow> poller \<Rightarrow> pclient \<Rightarrow> RuleEngine \<Rightarrow> 'w
    \<Rightarrow> unit out \<times> pclient \<times> RuleEngine \<times> 'w" where
  "poll_round E ups pol c re w =
     (let dev = d2_DeviceID (pl_set pol);
          c0 = (case round_slave (pl_config pol) of Some s \<Rightarrow> pc_SetSlave s c | None \<Rightarrow> c);
          allAlarms = [];
          metrics = Map.empty
      in case poll_groups E dev (d2_Functions (pl_set pol)) Map.empty c0 re w of
           (Ok all, c1, re1, w1) \<Rightarrow>
             (case SendToAll (en_net E) ups
                     (EncodeDataReport (en_marshal E) (en_now E w1) dev all allAlarms metrics) w1 of
                (r, w2) \<Rightarrow> (r, c1, re1, w2))
         | (Err e, c1, re1, w1) \<Rightarrow> (Err e, c1, re1, w1)
         | (Panic x, c1, re1, w1) \<Rightarrow> (Panic x, c1, re1, w1))"

end
