(* ===== verification/Collector_Laws.thy ===== *)
theory Collector_Laws
  imports Collector
begin

text \<open>
  What the collector of main.go keeps and what it loses: the contract of the protocols its retries
  rest on, a device that goes away, shared clients, the configuration, and what becomes of a
  value on its way from the device to the report and to the rules.
\<close>

section \<open>The contract of a protocol\<close>

locale protocol_contract =
  fixes rd :: "'c \<Rightarrow> string \<Rightarrow> string \<Rightarrow> string list \<Rightarrow> 'w \<Rightarrow> PointValue list out \<times> 'c \<times> 'w"
    and rc :: "'c \<Rightarrow> 'w \<Rightarrow> gerr option \<times> 'c \<times> 'w"
    and inv :: "'c \<Rightarrow> bool"
  assumes rd_inv: "inv c \<Longrightarrow> rd c dev fn addrs w = (r, c1, w1) \<Longrightarrow> inv c1"
    and rc_inv: "inv c \<Longrightarrow> rc c w = (e, c1, w1) \<Longrightarrow> inv c1"
    and rd_answers: "inv c \<Longrightarrow> rd c dev fn addrs w = (Ok vs, c1, w1) \<Longrightarrow> length vs = length addrs"
begin

lemma loop_contract:
  assumes "inv c" "retry_loop rd rc dev fn addrs k res c w = (r, c1, w1)"
  shows "inv c1 \<and> (0 < k \<longrightarrow> (\<forall>vs. r = Ok vs \<longrightarrow> length vs = length addrs))"
  using assms
proof (induction k arbitrary: res c w)
  case (Suc k)
  obtain r0 c0 w0 where rd: "rd c dev fn addrs w = (r0, c0, w0)" by (metis prod_cases3)
  note c0 = rd_inv [OF Suc.prems(1) rd]
  show ?case
  proof (cases r0)
    case (Ok vs)
    then show ?thesis
      using Suc.prems(2) rd c0 rd_answers [OF Suc.prems(1)] by auto
  next
    case (Err e)
    then show ?thesis
      using Suc.prems(2) rd c0 Suc.IH [OF c0] rc_inv [OF c0]
      by (auto split: if_splits prod.splits)
  next
    case (Panic x)
    then show ?thesis using Suc.prems(2) rd c0 by auto
  qed
qed simp

lemma retry_contract:
  assumes "inv c" "readWithRetry rd rc c dev fn addrs n w = (r, c1, w1)" "0 < n"
  shows "inv c1 \<and> (\<forall>vs. r = Ok vs \<longrightarrow> length vs = length addrs)"
  using loop_contract [OF assms(1) assms(2) [unfolded readWithRetry_def]] assms(3) by simp

lemma loop_fails:
  assumes "\<And>w. \<exists>e w1. rd c dev fn addrs w = (Err e, c, w1)" "0 < k"
  shows "\<exists>e w0 x c1 w1. retry_loop rd rc dev fn addrs k res c w = (Err e, c1, w1) \<and>
    rc c w0 = (x, c1, w1)"
  using assms(2)
proof (induction k arbitrary: res w)
  case (Suc k)
  obtain e w1 where rd: "rd c dev fn addrs w = (Err e, c, w1)"
    using assms(1) by blast
  show ?case
  proof (cases "k = 0")
    case True
    obtain x c2 w2 where "rc c w1 = (x, c2, w2)" by (metis prod_cases3)
    with rd True show ?thesis by (intro exI [of _ e] exI [of _ w1]) auto
  next
    case False
    with Suc.IH [of "Err e" w1] rd show ?thesis by simp
  qed
qed simp

end

section \<open>The two protocols keep it\<close>

definition mb_read_op ::
  "'w mblib \<Rightarrow> (addrPoint list \<Rightarrow> addrPoint list) \<Rightarrow> (coilPoint list \<Rightarrow> coilPoint list) \<Rightarrow>
   modbusTCP \<Rightarrow> string \<Rightarrow> string \<Rightarrow> string list \<Rightarrow> 'w \<Rightarrow> PointValue list out \<times> modbusTCP \<times> 'w" where
  "mb_read_op lib srtr srtc m dev fn addrs w =
     (case mb_ReadBatch lib srtr srtc m dev fn addrs w of (r, w1) \<Rightarrow> (r, m, w1))"

lemma mset_length_eq: "mset xs = mset ys \<Longrightarrow> length xs = length ys"
  by (metis size_mset)

lemma reg_batch_length:
  assumes "fc = FHolding \<or> fc = FInput" "slice_sort srt" "reg_batch fc lib srt m points w = (Ok vs, w1)"
  shows "length vs = length points"
proof (cases "points = []")
  case True
  with assms(3) show ?thesis by (simp add: reg_batch_Nil)
next
  case False
  then obtain aps where "parse_points points = Inr aps"
    "reg_loop lib m fc (reg_msg fc) (srt aps) [] w = (Ok vs, w1)"
    using assms(3) by (auto simp: reg_batch_eq [OF assms(1)] split: sum.splits)
  then show ?thesis
    using reg_loop_names [of lib m fc "reg_msg fc" "srt aps" "[]" w vs w1]
      parse_points_length mset_length_eq [OF slice_sort_mset [OF assms(2), of aps]]
    by (metis append_Nil length_map list.map(1))
qed

lemma coil_loop_length:
  "coil_loop lib m fc msg ps acc w = (Ok vs, w1) \<Longrightarrow> length vs = length acc + length ps"
proof (induction lib m fc msg ps acc w arbitrary: vs w1 rule: coil_loop.induct)
  case (1 lib m fc msg results w)
  then show ?case by simp
next
  case (2 lib m fc msg p ps results w)
  obtain g m1 rest where g: "scan_coils (cp_addr p) (cp_addr p) ps = (g, m1, rest)"
    by (metis prod_cases3)
  from "2.prems" obtain s w2 us where
    q: "lib_request lib m fc (cp_addr p) (m1 - cp_addr p + 1) w = (Ok s, w2)"
    and us: "map_out (coil_point (lib_now lib w2) (cp_addr p) s) (p # g) = Ok us"
    and r: "coil_loop lib m fc msg rest (results @ us) w2 = (Ok vs, w1)"
    by (auto simp: coil_loop.simps(2) Let_def g split: prod.splits out.splits simp del: map_out.simps)
  with "2.IH" [OF g [symmetric] refl refl refl refl q [symmetric] refl us r]
  show ?case using scan_coils_append [OF g] map_out_Ok_length [OF us] by simp
qed

lemma coil_batch_length:
  assumes "fc = FCoils \<or> fc = FDiscrete" "slice_sort srt" "coil_batch fc lib srt m points w = (Ok vs, w1)"
  shows "length vs = length points"
proof (cases "points = []")
  case True
  with assms(3) show ?thesis by (simp add: coil_batch_Nil)
next
  case False
  then obtain cps where "parse_coils points = Inr cps"
    "coil_loop lib m fc (coil_msg fc) (srt cps) [] w = (Ok vs, w1)"
    using assms(3) by (auto simp: coil_batch_eq [OF assms(1)] split: sum.splits)
  then show ?thesis
    using coil_loop_length [of lib m fc "coil_msg fc" "srt cps" "[]" w vs w1]
      parse_coils_length mset_length_eq [OF slice_sort_mset [OF assms(2), of cps]]
    by (metis add_0 list.size(3))
qed

lemma mb_ReadBatch_cases:
  obtains fc where "fc = FHolding \<or> fc = FInput"
    "mb_ReadBatch lib srtr srtc m dev fn addrs w = reg_batch fc lib srtr m (map batch_config addrs) w"
  | fc where "fc = FCoils \<or> fc = FDiscrete"
    "mb_ReadBatch lib srtr srtc m dev fn addrs w = coil_batch fc lib srtc m (map batch_config addrs) w"
proof (cases "fn = ''01'' \<or> fn = ''02''")
  case True
  then show thesis
    using that(2) [of FCoils] that(2) [of FDiscrete]
    by (auto simp: mb_ReadBatch_def coil_batch_def Let_def)
next
  case False
  then show thesis
    using that(1) [of FHolding] that(1) [of FInput]
    by (cases "fn = ''04''") (auto simp: mb_ReadBatch_def reg_batch_def Let_def)
qed

lemma mb_ReadBatch_length:
  assumes "slice_sort srtr" "slice_sort srtc"
    "mb_ReadBatch lib srtr srtc m dev fn addrs w = (Ok vs, w1)"
  shows "length vs = length addrs"
proof (rule mb_ReadBatch_cases [of lib srtr srtc m dev fn addrs w])
  fix fc
  assume fc: "fc = FHolding \<or> fc = FInput"
    and "mb_ReadBatch lib srtr srtc m dev fn addrs w = reg_batch fc lib srtr m (map batch_config addrs) w"
  with assms(3) have "reg_batch fc lib srtr m (map batch_config addrs) w = (Ok vs, w1)" by simp
  from reg_batch_length [OF fc assms(1) this] show ?thesis by simp
next
  fix fc
  assume fc: "fc = FCoils \<or> fc = FDiscrete"
    and "mb_ReadBatch lib srtr srtc m dev fn addrs w = coil_batch fc lib srtc m (map batch_config addrs) w"
  with assms(3) have "coil_batch fc lib srtc m (map batch_config addrs) w = (Ok vs, w1)" by simp
  from coil_batch_length [OF fc assms(2) this] show ?thesis by simp
qed

interpretation mbp: protocol_contract
  "mb_read_op lib srtr srtc" "mb_Reconnect lib" "\<lambda>m. mb_wf m \<and> slice_sort srtr \<and> slice_sort srtc"
proof
  fix m dev fn addrs w r m1 w1
  assume i: "mb_wf m \<and> slice_sort srtr \<and> slice_sort srtc"
  assume "mb_read_op lib srtr srtc m dev fn addrs w = (r, m1, w1)"
  with i show "mb_wf m1 \<and> slice_sort srtr \<and> slice_sort srtc"
    by (auto simp: mb_read_op_def split: prod.splits)
next
  fix m w e m1 w1
  assume "mb_wf m \<and> slice_sort srtr \<and> slice_sort srtc" "mb_Reconnect lib m w = (e, m1, w1)"
  then show "mb_wf m1 \<and> slice_sort srtr \<and> slice_sort srtc"
    by (auto simp: mb_Reconnect_def dest: mb_wf_ForceReconnect)
next
  fix m dev fn addrs w vs m1 w1
  assume "mb_wf m \<and> slice_sort srtr \<and> slice_sort srtc"
    "mb_read_op lib srtr srtc m dev fn addrs w = (Ok vs, m1, w1)"
  then show "length vs = length addrs"
    by (auto simp: mb_read_op_def mb_ReadBatch_length split: prod.splits)
qed

definition pc_wf :: "'w env \<Rightarrow> pclient \<Rightarrow> bool" where
  "pc_wf E c = (case c of
      CModbus m \<Rightarrow> mb_wf m \<and> slice_sort (en_srtr E) \<and> slice_sort (en_srtc E)
    | CBacnet b \<Rightarrow> bac_wf b)"

lemma pc_ReadBatch_Modbus:
  "pc_ReadBatch E (CModbus m) dev fn addrs w =
     (case mb_read_op (en_mb E) (en_srtr E) (en_srtc E) m dev fn addrs w of (r, m1, w1) \<Rightarrow> (r, CModbus m1, w1))"
  by (simp add: mb_read_op_def split: prod.splits)

interpretation pcp: protocol_contract "pc_ReadBatch E" "pc_Reconnect E" "pc_wf E"
proof
  fix c dev fn addrs w r c1 w1
  assume "pc_wf E c" "pc_ReadBatch E c dev fn addrs w = (r, c1, w1)"
  then show "pc_wf E c1"
    by (cases c) (auto simp: pc_wf_def split: prod.splits sum.splits)
next
  fix c w e c1 w1
  assume "pc_wf E c" "pc_Reconnect E c w = (e, c1, w1)"
  then show "pc_wf E c1"
    by (cases c) (auto simp: pc_wf_def bc_Reconnect_def bac_wf_def mb_Reconnect_def
        dest: mb_wf_ForceReconnect split: prod.splits)
next
  fix c dev fn addrs w vs c1 w1
  assume wf: "pc_wf E c" and rd: "pc_ReadBatch E c dev fn addrs w = (Ok vs, c1, w1)"
  show "length vs = length addrs"
  proof (cases c)
    case (CModbus m)
    then show ?thesis
      using wf rd mbp.rd_answers [of m "en_srtr E" "en_srtc E" "en_mb E" dev fn addrs w vs]
      by (auto simp: pc_ReadBatch_Modbus pc_wf_def simp del: pc_ReadBatch.simps split: prod.splits)
  next
    case (CBacnet b)
    then show ?thesis
      using rd by (auto simp: bc_ReadBatch_def split: prod.splits sum.splits if_splits)
  qed
qed

text \<open>A read of the collector that succeeds has one value for each address asked, whichever
  protocol and however many tries it took, and leaves the client well-formed.\<close>

theorem collector_read_contract:
  assumes "pc_wf E c"
    and "readWithRetry (pc_ReadBatch E) (pc_Reconnect E) c dev fn addrs 3 w = (r, c1, w1)"
  shows "pc_wf E c1 \<and> (\<forall>vs. r = Ok vs \<longrightarrow> length vs = length addrs)"
  by (rule pcp.retry_contract [OF assms]) simp

definition demo_env :: "unit env" where
  "demo_env =
     \<lparr>en_mb = plain_device (\<lambda>s a. a), en_srtr = sort_key ap_addr, en_srtc = sort_key cp_addr,
      en_fmt = demo_fmt, en_gov = (\<lambda>e. Inl EOF), en_gov_fns = (\<lambda>fns e. Inl EOF), en_log = (\<lambda>x. x),
      en_parse_float = (\<lambda>s. None), en_parse_duration = (\<lambda>s. None), en_marshal = (\<lambda>r. Inl EOF),
      en_net = \<lparr>nl_mqtt_connect = (\<lambda>opts w. (None, w)),
        nl_mqtt_publish = (\<lambda>opts topic qos retained data w. (None, w)), nl_http_check = (\<lambda>m u. None),
        nl_http_do = (\<lambda>rq w. (Inr (200, []), w)), nl_redis_publish = (\<lambda>topic data w. (None, w))\<rparr>,
      en_now = (\<lambda>w. 0)\<rparr>"

lemma demo_pc_wf: "pc_wf demo_env (CModbus demo_client)"
  by (simp add: pc_wf_def demo_env_def slice_sort_sort_key slice_sort_coils mb_wf_def demo_client_def)

theorem collector_read_contract_witness:
  "\<exists>r c1 w1. readWithRetry (pc_ReadBatch demo_env) (pc_Reconnect demo_env) (CModbus demo_client) ''d''
     ''03'' [''10''] 3 () = (r, c1, w1) \<and> pc_wf demo_env c1"
proof -
  obtain r c1 w1 where r: "readWithRetry (pc_ReadBatch demo_env) (pc_Reconnect demo_env)
      (CModbus demo_client) ''d'' ''03'' [''10''] 3 () = (r, c1, w1)"
    by (metis prod_cases3)
  from collector_read_contract [OF demo_pc_wf r] r show ?thesis by blast
qed

section \<open>A device that goes away\<close>

text \<open>A network on which every read fails and no connection succeeds.\<close>

definition unreachable :: "'w mblib \<Rightarrow> bool" where
  "unreachable lib \<longleftrightarrow>
     (\<forall>r h w. (\<exists>e w1. lib_connect lib r h w = (Some e, w1)) \<and>
        (\<forall>fc a q. \<exists>e w1. lib_read lib r h fc a q w = (Inl e, w1)))"

lemma unreachable_connect: "unreachable lib \<Longrightarrow> lib_connect lib r h w \<noteq> (None, w1)"
  unfolding unreachable_def by (metis option.distinct(1) prod.inject)

lemma unreachable_read: "unreachable lib \<Longrightarrow> \<exists>e w1. lib_read lib r h fc a q w = (Inl e, w1)"
  by (simp add: unreachable_def)

lemma unreachable_request:
  assumes "unreachable lib" "client m \<noteq> None"
  shows "\<exists>e w1. lib_request lib m fc a q w = (Err e, w1)"
proof -
  obtain r where r: "client m = Some r" using assms(2) by blast
  obtain e w1 where "lib_read lib r (heap m ! r) fc a q w = (Inl e, w1)"
    using unreachable_read [OF assms(1)] by blast
  with r show ?thesis by (simp add: lib_request_def)
qed

lemma unreachable_Reconnect:
  "unreachable lib \<Longrightarrow> mb_Reconnect lib m w = (e, m1, w1) \<Longrightarrow> client m1 = None"
  unfolding mb_Reconnect_def ForceReconnect_def Let_def
  by (auto simp: unreachable_connect split: option.splits prod.splits)

definition addresses_ok :: "string list \<Rightarrow> bool" where
  "addresses_ok addrs \<longleftrightarrow> (\<forall>a \<in> set addrs. \<exists>x. parseAddress a = Inr x)"

lemma parse_ok:
  "addresses_ok addrs \<Longrightarrow> \<exists>aps. parse_points (map batch_config addrs) = Inr aps"
  "addresses_ok addrs \<Longrightarrow> \<exists>cps. parse_coils (map batch_config addrs) = Inr cps"
  by (induction addrs) (fastforce simp: addresses_ok_def batch_config_def)+

lemma reg_loop_unreachable:
  assumes "unreachable lib" "client m \<noteq> None" "ps \<noteq> []"
  shows "\<exists>e w1. reg_loop lib m fc msg ps acc w = (Err e, w1)"
proof -
  obtain p qs where ps: "ps = p # qs" using assms(3) by (cases ps) auto
  obtain g m1 rest where g: "scan_group (ap_addr p) (first_max p) qs = (g, m1, rest)"
    by (metis prod_cases3)
  obtain e w1 where "lib_request lib m fc (ap_addr p) (m1 - ap_addr p + 1) w = (Err e, w1)"
    using unreachable_request [OF assms(1,2)] by blast
  then show ?thesis by (simp add: ps reg_loop.simps(2) Let_def g)
qed

lemma coil_loop_unreachable:
  assumes "unreachable lib" "client m \<noteq> None" "ps \<noteq> []"
  shows "\<exists>e w1. coil_loop lib m fc msg ps acc w = (Err e, w1)"
proof -
  obtain p qs where ps: "ps = p # qs" using assms(3) by (cases ps) auto
  obtain g m1 rest where g: "scan_coils (cp_addr p) (cp_addr p) qs = (g, m1, rest)"
    by (metis prod_cases3)
  obtain e w1 where "lib_request lib m fc (cp_addr p) (m1 - cp_addr p + 1) w = (Err e, w1)"
    using unreachable_request [OF assms(1,2)] by blast
  then show ?thesis by (simp add: ps coil_loop.simps(2) Let_def g)
qed

lemma coil_loop_nil:
  "client m = None \<Longrightarrow> ps \<noteq> [] \<Longrightarrow> coil_loop lib m fc msg ps acc w = (Panic NilDeref, w)"
  by (cases ps) (auto simp: coil_loop.simps(2) Let_def lib_request_def split: prod.splits)

text \<open>The batch read of a Modbus client, up to its first request.\<close>

lemma mb_ReadBatch_first:
  assumes "slice_sort srtr" "slice_sort srtc" "addrs \<noteq> []" "addresses_ok addrs"
  obtains (regs) fc msg ps where "ps \<noteq> []"
    "\<And>m w. mb_ReadBatch lib srtr srtc m dev fn addrs w = reg_loop lib m fc msg ps [] w"
  | (coils) fc msg cs where "cs \<noteq> []"
    "\<And>m w. mb_ReadBatch lib srtr srtc m dev fn addrs w = coil_loop lib m fc msg cs [] w"
proof -
  obtain aps where aps: "parse_points (map batch_config addrs) = Inr aps"
    using parse_ok(1) [OF assms(4)] by blast
  obtain cps where cps: "parse_coils (map batch_config addrs) = Inr cps"
    using parse_ok(2) [OF assms(4)] by blast
  have "aps \<noteq> []" "cps \<noteq> []"
    using parse_points_length [OF aps] parse_coils_length [OF cps] assms(3) by auto
  then have ne: "srtr aps \<noteq> []" "srtc cps \<noteq> []"
    using slice_sort_Nil [OF assms(1)] slice_sort_Nil [OF assms(2)] by simp_all
  show thesis
  proof (cases "fn = ''01'' \<or> fn = ''02''")
    case True
    then have "mb_ReadBatch lib srtr srtc m dev fn addrs w =
        coil_loop lib m (if fn = ''01'' then FCoils else FDiscrete)
          (coil_msg (if fn = ''01'' then FCoils else FDiscrete)) (srtc cps) [] w" for m w
      using assms(3) by (auto simp: mb_ReadBatch_def readCoilsBatch_def readDiscreteInputsBatch_def
          cps Let_def coil_msg_def)
    with coils [OF ne(2)] show thesis by blast
  next
    case False
    then have "mb_ReadBatch lib srtr srtc m dev fn addrs w =
        reg_loop lib m (if fn = ''04'' then FInput else FHolding)
          (reg_msg (if fn = ''04'' then FInput else FHolding)) (srtr aps) [] w" for m w
      using assms(3) by (cases "fn = ''04''")
        (auto simp: mb_ReadBatch_def ReadBatchWithFormat_def readInputRegistersBatch_def
          aps Let_def reg_msg_def)
    with regs [OF ne(1)] show thesis by blast
  qed
qed

lemma lost_read:
  assumes "pc_wf E (CModbus m)" "client m \<noteq> None" "unreachable (en_mb E)"
    and "addrs \<noteq> []" "addresses_ok addrs"
    and "readWithRetry (pc_ReadBatch E) (pc_Reconnect E) (CModbus m) dev fn addrs 3 w = (r, c1, w1)"
  shows "(\<exists>e. r = Err e) \<and> (\<exists>n. c1 = CModbus n \<and> client n = None)"
proof -
  have srt: "slice_sort (en_srtr E)" "slice_sort (en_srtc E)"
    using assms(1) by (simp_all add: pc_wf_def)
  have fails: "\<exists>e w1. mb_ReadBatch (en_mb E) (en_srtr E) (en_srtc E) m dev fn addrs w = (Err e, w1)" for w
    by (rule mb_ReadBatch_first [OF srt assms(4,5), of "en_mb E" dev fn])
      (simp_all add: reg_loop_unreachable coil_loop_unreachable assms(2,3))
  have "\<exists>e w1. pc_ReadBatch E (CModbus m) dev fn addrs w = (Err e, CModbus m, w1)" for w
    using fails [of w] by auto
  from pcp.loop_fails [OF this, of 3 "Ok []" w] obtain e w0 x
    where "r = Err e" and rc: "pc_Reconnect E (CModbus m) w0 = (x, c1, w1)"
    using assms(6) by (auto simp: readWithRetry_def)
  moreover from rc obtain n where "c1 = CModbus n" "client n = None"
    using unreachable_Reconnect [OF assms(3)] by (auto split: prod.splits)
  ultimately show ?thesis by blast
qed

lemma nil_read:
  assumes "slice_sort (en_srtr E)" "slice_sort (en_srtc E)" "client n = None"
    and "addrs \<noteq> []" "addresses_ok addrs"
  shows "readWithRetry (pc_ReadBatch E) (pc_Reconnect E) (CModbus n) dev fn addrs 3 w =
    (Panic NilDeref, CModbus n, w)"
proof -
  have "mb_ReadBatch (en_mb E) (en_srtr E) (en_srtc E) n dev fn addrs w = (Panic NilDeref, w)"
    by (rule mb_ReadBatch_first [OF assms(1,2,4,5), of "en_mb E" dev fn])
      (simp_all add: reg_loop_nil coil_loop_nil assms(3))
  then show ?thesis by (simp add: readWithRetry_def numeral_3_eq_3)
qed

text \<open>A Modbus device that cannot be reached: the first read of the collector fails after its
  three tries and the failed reconnection leaves the client nil, so the next read panics.\<close>

theorem lost_device_crashes:
  assumes "pc_wf E (CModbus m)" "client m \<noteq> None" "unreachable (en_mb E)"
    and "addrs \<noteq> []" "addresses_ok addrs"
    and "readWithRetry (pc_ReadBatch E) (pc_Reconnect E) (CModbus m) dev fn addrs 3 w = (r, c1, w1)"
  shows "(\<exists>e. r = Err e) \<and>
    fst (readWithRetry (pc_ReadBatch E) (pc_Reconnect E) c1 dev fn addrs 3 w2) = Panic NilDeref"
proof -
  have "slice_sort (en_srtr E)" "slice_sort (en_srtc E)"
    using assms(1) by (simp_all add: pc_wf_def)
  with lost_read [OF assms] nil_read [OF _ _ _ assms(4,5), of E] show ?thesis by auto
qed

definition dead_env :: "unit env" where
  "dead_env = demo_env\<lparr>en_mb := (plain_device (\<lambda>s a. a))
     \<lparr>lib_connect := \<lambda>r h w. (Some EOF, w), lib_read := \<lambda>r h fc a q w. (Inl EOF, w)\<rparr>\<rparr>"

theorem lost_device_crashes_witness:
  "\<exists>c1 e. readWithRetry (pc_ReadBatch dead_env) (pc_Reconnect dead_env) (CModbus demo_client) ''d''
     ''03'' [''10''] 3 () = (Err e, c1, ()) \<and>
   fst (readWithRetry (pc_ReadBatch dead_env) (pc_Reconnect dead_env) c1 ''d'' ''03'' [''10''] 3 ()) =
     Panic NilDeref"
proof -
  have wf: "pc_wf dead_env (CModbus demo_client)"
    using demo_pc_wf by (simp add: pc_wf_def dead_env_def)
  have un: "unreachable (en_mb dead_env)"
    by (simp add: unreachable_def dead_env_def plain_device_def)
  have "parseAddress ''10'' = Inr 9" by code_simp
  then have ok: "addresses_ok [''10'']" by (simp add: addresses_ok_def)
  obtain r c1 w1 where r: "readWithRetry (pc_ReadBatch dead_env) (pc_Reconnect dead_env)
      (CModbus demo_client) ''d'' ''03'' [''10''] 3 () = (r, c1, w1)"
    by (metis prod_cases3)
  from lost_device_crashes [OF wf _ un _ ok r, of "()"] r show ?thesis
    by (auto simp: demo_client_def)
qed

end
