(* ===== verification/Collector_Values.thy ===== *)
theory Collector_Values
  imports Collector_Laws
begin

text \<open>
  What becomes of a device's configuration, of the client it shares, and of a value on its way to
  the report and to the rules.
\<close>

section \<open>Configuration\<close>

lemma add_missing_lookup:
  "add_missing kvs config k = (case config k of Some v \<Rightarrow> Some v | None \<Rightarrow> map_of kvs k)"
  by (induction kvs config rule: add_missing.induct) (auto split: option.splits)

definition meta_tags :: "string list" where
  "meta_tags = [''id'', ''name'', ''description'', ''protocol'', ''protocol_name'', ''interval'',
     ''enable_ping'', ''ip'', ''port'', ''slave_id'']"

lemma meta_fields_tags: "map fst (meta_fields meta) = meta_tags"
  by (simp add: meta_fields_def meta_tags_def)

lemma meta_fields_lookup:
  assumes "k \<in> set meta_tags"
  shows "map_of (meta_fields meta) k \<noteq> None"
proof -
  have "k \<in> set (map fst (meta_fields meta))" using assms by (simp only: meta_fields_tags)
  then show ?thesis by (simp add: map_of_eq_None_iff)
qed

text \<open>C30: the address, port, slave and interval of a protocol instance are never used: each field
  of a device's entry is put into its configuration first, empty text and zero included, and
  keeps the protocol's parameter of that name out. Other parameters are taken as they are.\<close>

theorem meta_shadows_protocol:
  "merged_config dev protoParams k =
     (case (case dc_Config dev of Some c \<Rightarrow> c k | None \<Rightarrow> None) of
        Some v \<Rightarrow> Some v
      | None \<Rightarrow>
          if k \<in> set meta_tags then map_of (meta_fields (dc_Meta dev)) k else map_of protoParams k)"
proof (cases "k \<in> set meta_tags")
  case True
  then show ?thesis
    using meta_fields_lookup [OF True, of "dc_Meta dev"]
    by (auto simp: merged_config_def injectDeviceMeta_def add_missing_lookup Let_def
        split: option.splits)
next
  case False
  then have "k \<notin> set (map fst (meta_fields (dc_Meta dev)))" unfolding meta_fields_tags .
  then have "map_of (meta_fields (dc_Meta dev)) k = None"
    by (simp add: map_of_eq_None_iff)
  with False show ?thesis
    by (auto simp: merged_config_def injectDeviceMeta_def add_missing_lookup Let_def
        split: option.splits)
qed

section \<open>Shared clients\<close>

text \<open>Two devices with the same protocol, address and port share one client whatever their
  slaves: the second one gets the first one's, and nothing is initialised for it.\<close>

theorem clients_shared:
  assumes "getOrCreateClient E protocol config1 p w = (Inr i, p1, w1)"
    and "mget config2 ''ip'' = mget config1 ''ip''" "mget config2 ''port'' = mget config1 ''port''"
  shows "getOrCreateClient E protocol config2 p1 w2 = (Inr i, p1, w2)"
proof -
  have k: "client_key protocol config2 = client_key protocol config1"
    using assms(2,3) by (simp add: client_key_def)
  have "po_cache p1 (client_key protocol config1) = Some i"
    using assms(1) by (auto simp: getOrCreateClient_def Let_def split: option.splits sum.splits prod.splits)
  then show ?thesis by (simp add: getOrCreateClient_def k)
qed

lemma demo_get:
  "getOrCreateClient demo_env ''modbus_tcp'' demo_config empty_pool () =
     (Inr 0, \<lparr>po_clients = [CModbus demo_client],
              po_cache = [client_key ''modbus_tcp'' demo_config \<mapsto> 0]\<rparr>, ())"
  by (simp add: getOrCreateClient_def Create_def main_registry_def Register_def empty_pool_def
      demo_env_def demo_config_def mb_Init_def mget_def NewModbusTCP_def plain_device_def
      demo_client_def demo_addr Let_def)

theorem clients_shared_witness:
  "\<exists>p1. getOrCreateClient demo_env ''modbus_tcp'' demo_config empty_pool () = (Inr 0, p1, ()) \<and>
     getOrCreateClient demo_env ''modbus_tcp'' (demo_config(''slave_id'' \<mapsto> VInt 2)) p1 () = (Inr 0, p1, ())"
  using demo_get clients_shared [OF demo_get, of "demo_config(''slave_id'' \<mapsto> VInt 2)" "()"]
  by simp

lemma SetSlave_connected:
  assumes "mb_wf m" "client m = Some r"
  shows "client (SetSlave s m) = Some r" "hSlaveId (heap (SetSlave s m) ! r) = s" "mb_wf (SetSlave s m)"
  using assms by (auto simp: SetSlave_def mb_wf_def split: option.splits)

text \<open>Setting the slave before each round does not keep devices apart: when two pollers share a
  client and the second sets its slave between the first one's setting and its read, the first
  reads the second's registers, with quality good.\<close>

theorem slave_race:
  assumes "mb_wf m" "client m = Some r" "serves_regs lib fc regs" "fc = FHolding \<or> fc = FInput"
    and "slice_sort srt" "parse_points points = Inr aps" "\<forall>p \<in> set aps. fits p"
  shows "\<exists>vs w1. reg_batch fc lib srt (SetSlave s2 (SetSlave s1 m)) points w = (Ok vs, w1) \<and>
    mset (map reading vs) = mset (map (reg_ref (regs s2)) aps)"
proof -
  note c1 = SetSlave_connected [OF assms(1,2), of s1]
  note c2 = SetSlave_connected [OF c1(3,1), of s2]
  show ?thesis using batch_served [OF assms(4,5) c2(1) assms(3,6,7)] unfolding c2(2) .
qed

theorem slave_race_witness:
  "\<exists>vs w1. reg_batch FHolding (plain_device (\<lambda>s a. ucast s)) (sort_key ap_addr)
       (SetSlave 2 (SetSlave 1 demo_client)) [batch_config ''10''] () = (Ok vs, w1) \<and>
     mset (map reading vs) = {#(''10'', VUint16 2, ''good'')#}"
proof -
  have m: "mb_wf demo_client" "client demo_client = Some 0"
    by (simp_all add: mb_wf_def demo_client_def)
  have aps: "parse_points [batch_config ''10''] = Inr [AddrPoint 9 ''10'' []]" by code_simp
  have "\<forall>p \<in> set [AddrPoint 9 ''10'' []]. fits p" by (simp add: fits_def demo_counts)
  from slave_race [OF m plain_serves [OF disjI1 [OF refl], of "\<lambda>s a. ucast s"] disjI1 [OF refl]
      slice_sort_sort_key aps this, of 2 1 "()"]
  show ?thesis by (simp add: reg_ref_def demo_counts)
qed

section \<open>Conversion\<close>

lemma apply_transform_outer: "apply_transform E p v = Ok u \<Longrightarrow> u = v"
  by (auto simp: apply_transform_def Let_def split: if_splits prod.splits)

lemma apply_transform_no_err: "apply_transform E p v \<noteq> Err e"
  by (auto simp: apply_transform_def parseTransform_def bind_out_Err_iff Let_def
      split: if_splits sum.splits out.splits prod.splits)

text \<open>What a value becomes when its transform does not panic.\<close>

definition untransformed :: "'w env \<Rightarrow> PointMapping \<Rightarrow> goval \<Rightarrow> goval" where
  "untransformed E p v = to_type E p (apply_format p (pad_words p v))"

lemma convert_value_Ok: "convert_value E p v = Ok u \<Longrightarrow> u = untransformed E p v"
  by (auto simp: convert_value_def untransformed_def dest: apply_transform_outer)

lemma convert_value_no_transform:
  "pm_Transform p = [] \<Longrightarrow> convert_value E p v = Ok (untransformed E p v)"
  by (simp add: convert_value_def untransformed_def apply_transform_def)

lemma convert_value_no_err: "convert_value E p v \<noteq> Err e"
  by (auto simp: convert_value_def bind_out_Err_iff apply_transform_no_err)

text \<open>C32: A point's \<open>transform\<close> decides nothing of what is reported or given to the rules: the
  result is assigned to a variable of the inner block, which ends there. All it can do is panic.\<close>

theorem transform_ignored:
  "is_panic (convert_value E p v) \<or> convert_value E p v = convert_value E (p\<lparr>pm_Transform := []\<rparr>) v"
proof -
  let ?q = "p\<lparr>pm_Transform := []\<rparr>"
  have f: "is_format k ?q = is_format k p" for k
    by (simp add: is_format_def)
  have "pad_words ?q v = pad_words p v"
    by (simp only: pad_words_def f)
  moreover have "apply_format ?q u = apply_format p u" "to_type E ?q u = to_type E p u" for u
    by (simp_all add: apply_format_def to_type_def)
  ultimately have q: "convert_value E ?q v = Ok (untransformed E p v)"
    by (simp add: convert_value_no_transform untransformed_def)
  show ?thesis
  proof (cases "convert_value E p v")
    case (Ok u)
    with q show ?thesis using convert_value_Ok [OF Ok] by simp
  next
    case (Err e)
    then show ?thesis using convert_value_no_err by blast
  qed simp
qed

lemma to_type_int:
  assumes "go_lower (pm_Type p) = ''int''"
  shows "\<not> is_float (to_type E p v)"
  using assms by (cases v) (auto simp: to_type_def Let_def split: option.splits)

lemma to_type_float_or_same:
  "go_lower (pm_Type p) = ''float'' \<Longrightarrow>
   (\<exists>x. to_type E p v = VF64 x) \<or> to_type E p v = v \<and> \<not> is_float v \<and> \<not> is_integer v"
  by (cases v) (auto simp: to_type_def Let_def split: option.splits)

text \<open>A single register after the format: the layouts of a float are the only known ones of that prefix.\<close>

lemma float_formats:
  "f \<in> set float_layouts \<Longrightarrow> prefix ''FLOAT'' (go_upper f)"
  "prefix ''FLOAT'' (go_upper f) \<Longrightarrow> format_size f \<noteq> None \<Longrightarrow> f \<in> set float_layouts"
proof -
  have "\<forall>f \<in> set float_layouts. prefix ''FLOAT'' (go_upper f)" by code_simp
  then show "f \<in> set float_layouts \<Longrightarrow> prefix ''FLOAT'' (go_upper f)" by blast
  have "\<forall>f \<in> {''INT'', ''UINT''} \<union> set (''Long CD AB'' # long_layouts @ double_layouts).
    \<not> prefix ''FLOAT'' (go_upper f)" by code_simp
  then show "prefix ''FLOAT'' (go_upper f) \<Longrightarrow> format_size f \<noteq> None \<Longrightarrow> f \<in> set float_layouts"
    by (auto simp: format_size_def split: if_splits)
qed

lemma ParseFormat_float_word:
  "f \<in> set float_layouts \<Longrightarrow> \<exists>y. ParseFormat f (put16 x @ [0, 0]) = Inr (VF32 y)"
  unfolding float_layouts_def set_simps
  by (elim insertE emptyE) (simp_all add: ParseFormat_float need_def put16_def)

lemma register_float:
  assumes "is_format ''FLOAT'' p"
  shows "apply_format p (pad_words p (VUint16 x)) =
    (if pm_Format p \<in> set float_layouts
     then (case ParseFormat (pm_Format p) (put16 x @ [0, 0]) of Inr v \<Rightarrow> v | Inl e \<Rightarrow> VNil)
     else VBytes (put16 x @ [0, 0]))"
proof -
  have u: "prefix ''FLOAT'' (go_upper (pm_Format p))" using assms by (simp add: is_format_def)
  then have n: "go_upper (pm_Format p) \<noteq> ''INT''" "go_upper (pm_Format p) \<noteq> ''UINT''" "pm_Format p \<noteq> []"
    by (auto simp: go_upper.simps)
  have pad: "pad_words p (VUint16 x) = VBytes (put16 x @ [0, 0])"
    using assms by (simp add: pad_words_def)
  show ?thesis
  proof (cases "pm_Format p \<in> set float_layouts")
    case True
    then show ?thesis
      using n ParseFormat_float_word [OF True, of x]
      by (auto simp: pad apply_format_def ParseAndCastFormat_def Let_def)
  next
    case False
    with float_formats(2) [OF u] have "format_size (pm_Format p) = None" by blast
    with ParseFormat_error_iff [of "pm_Format p" "put16 x @ [0, 0]"] obtain e
      where "ParseFormat (pm_Format p) (put16 x @ [0, 0]) = Inl e" by auto
    with False n show ?thesis by (simp add: pad apply_format_def ParseAndCastFormat_def Let_def)
  qed
qed

lemma register_plain:
  assumes "\<not> is_format ''FLOAT'' p"
  shows "apply_format p (pad_words p (VUint16 x)) =
    (if go_upper (pm_Format p) = ''INT'' then VInt (scast x)
     else if go_upper (pm_Format p) = ''UINT'' then VUint (ucast x) else VUint16 x)"
  using assms by (auto simp: pad_words_def apply_format_def ParseAndCastFormat_def Let_def go_upper.simps)

lemma register_is_float64:
  assumes "go_lower (pm_Type p) = ''float''"
  shows "(\<exists>f. untransformed E p (VUint16 x) = VF64 f) \<longleftrightarrow>
    go_upper (pm_Format p) \<noteq> ''UINT'' \<and> (is_format ''FLOAT'' p \<longrightarrow> pm_Format p \<in> set float_layouts)"
proof (cases "is_format ''FLOAT'' p")
  case True
  then have "go_upper (pm_Format p) \<noteq> ''UINT''" by (auto simp: is_format_def)
  then show ?thesis
    using assms True ParseFormat_float_word [of "pm_Format p" x]
    by (auto simp: untransformed_def register_float to_type_def Let_def)
next
  case False
  then show ?thesis
    using assms by (simp add: untransformed_def register_plain to_type_def Let_def)
qed

text \<open>C33: the types of what is reported and given to the rules: a point of type float is a \<open>float64\<close>, or
  keeps its value as the format left it when that is no float and none of the integers the code
  lists, among which \<open>int16\<close> and \<open>uint\<close> are missing; of one Modbus register it is a \<open>float64\<close>
  exactly when its format is not \<open>UINT\<close> and not an unknown name that begins with \<open>Float\<close>; a point
  of type int is never a float.\<close>

theorem reported_types:
  assumes "convert_value E p v = Ok u"
  shows "(go_lower (pm_Type p) = ''float'' \<longrightarrow>
      (\<exists>f. u = VF64 f) \<or> u = apply_format p (pad_words p v) \<and> \<not> is_float u \<and> \<not> is_integer u) \<and>
    (go_lower (pm_Type p) = ''float'' \<longrightarrow> v = VUint16 x \<longrightarrow>
      (\<exists>f. u = VF64 f) \<longleftrightarrow>
        go_upper (pm_Format p) \<noteq> ''UINT'' \<and> (is_format ''FLOAT'' p \<longrightarrow> pm_Format p \<in> set float_layouts)) \<and>
    (go_lower (pm_Type p) = ''int'' \<longrightarrow> \<not> is_float u)"
proof -
  have u: "u = untransformed E p v" using convert_value_Ok [OF assms] .
  show ?thesis
    using to_type_float_or_same [of p E "apply_format p (pad_words p v)"] to_type_int [of p]
      register_is_float64 [of p E x] unfolding u
    by (auto simp: untransformed_def)
qed

lemma float_prefix: "prefix ''FLOAT'' (go_upper ''Float AB CD'')"
  by code_simp

lemma be32_low_zero: "be32 a b 0 0 = push_bit 16 (ucast (be16 a b))"
proof (rule bit_word_eqI)
  fix n assume "n < LENGTH(32)"
  then have n: "n < 32" by simp
  show "bit (be32 a b 0 0) n = bit (push_bit 16 (ucast (be16 a b)) :: u32) n"
  proof (cases "n < 16")
    case True
    then show ?thesis by (simp add: be32_def bit_simps)
  next
    case False
    then obtain k where k: "n = 16 + k" using le_Suc_ex not_less by blast
    show ?thesis
      using n unfolding k by (cases "k < 8") (auto simp: be32_def be16_def bit_simps)
  qed
qed

lemma be32_high: "be32 (ucast (drop_bit 8 v)) (ucast v) 0 0 = push_bit 16 (ucast (v :: u16))"
  by (simp add: be32_low_zero)

lemma convert_float_word:
  assumes "pm_Format p = ''Float AB CD''"
  shows "untransformed E p (VUint16 v) = to_type E p (VF32 (push_bit 16 (ucast v)))"
proof -
  have "pad_words p (VUint16 v) = VBytes (put16 v @ [0, 0])"
    using float_prefix assms by (simp add: pad_words_def is_format_def)
  moreover have "ParseAndCastFormat ''Float AB CD'' (VBytes (put16 v @ [0, 0])) =
      (VF32 (push_bit 16 (ucast v)), None)"
    by (simp add: ParseAndCastFormat_def ParseFormat_float need_def put16_def be32_high
        go_upper.simps ch_upper_def)
  ultimately show ?thesis by (simp add: untransformed_def apply_format_def assms)
qed

lemma parse_batch_member:
  "parse_points (map batch_config addrs) = Inr aps \<Longrightarrow> ap \<in> set aps \<Longrightarrow>
   parseAddress (ap_name ap) = Inr (ap_addr ap) \<and> ap_format ap = []"
  by (induction addrs arbitrary: aps) (auto simp: batch_config_def split: sum.splits)

lemma reg_ref_batch:
  "ap_format ap = [] \<Longrightarrow> reg_ref f ap = (ap_name ap, VUint16 (f (ap_addr ap)), ''good'')"
  by (simp add: reg_ref_def getRegCount_def)

lemma mb_ReadBatch_regs:
  "fn = ''03'' \<and> fc = FHolding \<or> fn = ''04'' \<and> fc = FInput \<Longrightarrow>
   mb_ReadBatch lib srtr srtc m dev fn addrs w = reg_batch fc lib srtr m (map batch_config addrs) w"
  by (auto simp: mb_ReadBatch_def reg_batch_def Let_def)

text \<open>What a batch of the collector reads from a device that answers: each address its own register.\<close>

lemma mb_ReadBatch_served:
  assumes "fn = ''03'' \<and> fc = FHolding \<or> fn = ''04'' \<and> fc = FInput"
    and "client m = Some r" "serves_regs lib fc regs" "slice_sort srtr" "addresses_ok addrs"
  shows "\<exists>vs w1. mb_ReadBatch lib srtr srtc m dev fn addrs w = (Ok vs, w1) \<and>
    pv_PointID ` set vs = set addrs \<and>
    (\<forall>v \<in> set vs. \<exists>a. parseAddress (pv_PointID v) = Inr a \<and>
       pv_Value v = VUint16 (regs (hSlaveId (heap m ! r)) a))"
proof -
  have fc: "fc = FHolding \<or> fc = FInput" using assms(1) by blast
  obtain aps where aps: "parse_points (map batch_config addrs) = Inr aps"
    using parse_ok(1) [OF assms(5)] by blast
  note mem = parse_batch_member [OF aps]
  have "unat (ap_addr p) < 2 ^ 16" for p by (rule order_less_le_trans [OF unsigned_less]) simp
  then have "\<forall>p \<in> set aps. fits p" using mem by (simp add: fits_def getRegCount_def Suc_le_eq)
  from batch_served [OF fc assms(4,2,3) aps this]
  obtain vs w1 where rd: "reg_batch fc lib srtr m (map batch_config addrs) w = (Ok vs, w1)"
    and vs: "mset (map reading vs) = mset (map (reg_ref (regs (hSlaveId (heap m ! r)))) aps)" by blast
  have set_eq: "reading ` set vs = reg_ref (regs (hSlaveId (heap m ! r))) ` set aps"
    using arg_cong [OF vs, of set_mset] by simp
  have "\<exists>a. parseAddress (pv_PointID v) = Inr a \<and> pv_Value v = VUint16 (regs (hSlaveId (heap m ! r)) a)"
    if "v \<in> set vs" for v
  proof -
    from that set_eq obtain ap where ap: "ap \<in> set aps"
      "reading v = reg_ref (regs (hSlaveId (heap m ! r))) ap" by blast
    then show ?thesis using mem [OF ap(1)] by (auto simp: reg_ref_batch reading_def)
  qed
  moreover have "pv_PointID ` set vs = set addrs"
  proof -
    have "pv_PointID ` set vs = fst ` reading ` set vs" by (simp add: image_image reading_def)
    also have "\<dots> = ap_name ` set aps" unfolding set_eq by (simp add: image_image reg_ref_def Let_def)
    also have "\<dots> = set (map ap_name aps)" by simp
    also have "\<dots> = set addrs" unfolding parse_points_names [OF aps] by (simp add: batch_config_def)
    finally show ?thesis .
  qed
  ultimately show ?thesis using rd unfolding mb_ReadBatch_regs [OF assms(1)] by blast
qed

text \<open>C13: a \<open>Float AB CD\<close> point of a Modbus device never has its second register: of a device that
  answers, the batch of the collector has for the point's address the one register there, and
  the collector takes it as the high half of the number and fills the low half with zeroes,
  whatever the next register holds.\<close>

theorem float_point_truncated:
  assumes "fn = ''03'' \<and> fc = FHolding \<or> fn = ''04'' \<and> fc = FInput"
    and "client m = Some r" "serves_regs lib fc regs" "slice_sort srtr" "addresses_ok addrs"
    and "pm_Address p \<in> set addrs" "parseAddress (pm_Address p) = Inr a" "pm_Format p = ''Float AB CD''"
  shows "\<exists>vs w1. mb_ReadBatch lib srtr srtc m dev fn addrs w = (Ok vs, w1) \<and>
    (\<exists>v \<in> set vs. pv_PointID v = pm_Address p) \<and>
    (\<forall>v \<in> set vs. pv_PointID v = pm_Address p \<longrightarrow>
       pv_Value v = VUint16 (regs (hSlaveId (heap m ! r)) a) \<and>
       (is_panic (convert_value E p (pv_Value v)) \<or>
        convert_value E p (pv_Value v) =
          Ok (to_type E p (VF32 (push_bit 16 (ucast (regs (hSlaveId (heap m ! r)) a)))))))"
proof -
  obtain vs w1 where rd: "mb_ReadBatch lib srtr srtc m dev fn addrs w = (Ok vs, w1)"
    and ids: "pv_PointID ` set vs = set addrs"
    and vals: "\<forall>v \<in> set vs. \<exists>a. parseAddress (pv_PointID v) = Inr a \<and>
       pv_Value v = VUint16 (regs (hSlaveId (heap m ! r)) a)"
    using mb_ReadBatch_served [OF assms(1-5)] by blast
  have "is_panic (convert_value E p (VUint16 x)) \<or>
      convert_value E p (VUint16 x) = Ok (to_type E p (VF32 (push_bit 16 (ucast x))))" for x
    using convert_float_word [OF assms(8), of E x] convert_value_Ok [of E p "VUint16 x"]
      convert_value_no_err [of E p "VUint16 x"]
    by (cases "convert_value E p (VUint16 x)") auto
  moreover have "\<exists>v \<in> set vs. pv_PointID v = pm_Address p" using ids assms(6) by force
  ultimately show ?thesis using rd vals assms(7) by (intro exI [of _ vs] exI [of _ w1]) force
qed

definition demo_point :: "string \<Rightarrow> string \<Rightarrow> PointMapping" where
  "demo_point fmt typ =
     \<lparr>pm_Address = ''10'', pm_Name = ''t'', pm_Type = typ, pm_Unit = [], pm_Transform = ''value*10'',
      pm_Format = fmt, pm_Alarm = \<lparr>ar_Enable = False, ar_Condition = [], ar_Level = [], ar_Message = []\<rparr>\<rparr>"

lemma demo_convert_point: "convert_value demo_env (demo_point f t) v = Ok (untransformed demo_env (demo_point f t) v)"
proof (cases "convert_value demo_env (demo_point f t) v")
  case (Panic x)
  then show ?thesis
    by (auto simp: convert_value_def bind_out_Panic_iff apply_transform_def parseTransform_def
        demo_env_def demo_point_def Let_def split: if_splits sum.splits)
qed (simp_all add: convert_value_no_err convert_value_Ok)

theorem reported_types_witness:
  "\<exists>f. convert_value demo_env (demo_point [] ''Float'') (VUint16 7) = Ok (VF64 f)"
proof -
  have "go_lower (pm_Type (demo_point [] ''Float'')) = ''float''"
    "go_upper (pm_Format (demo_point [] ''Float'')) \<noteq> ''UINT''" "\<not> is_format ''FLOAT'' (demo_point [] ''Float'')"
    by code_simp+
  with reported_types [OF demo_convert_point, of "[]" "''Float''" "VUint16 7" 7] show ?thesis
    by (auto simp: demo_convert_point)
qed

theorem float_point_truncated_witness:
  "\<exists>vs w1. mb_ReadBatch (plain_device (\<lambda>s a. a)) (sort_key ap_addr) (\<lambda>ps. ps) demo_client ''d'' ''03'' [''10'', ''11''] () =
     (Ok vs, w1) \<and> (\<exists>v \<in> set vs. pv_PointID v = ''10'' \<and>
       convert_value demo_env (demo_point ''Float AB CD'' ''f32'') (pv_Value v) =
         Ok (VF32 (push_bit 16 9)))"
proof -
  let ?p = "demo_point ''Float AB CD'' ''f32''"
  have c: "client demo_client = Some 0" by (simp add: demo_client_def)
  have a: "parseAddress ''10'' = Inr 9" "parseAddress ''11'' = Inr 10" by code_simp+
  then have ok: "addresses_ok [''10'', ''11'']" by (simp add: addresses_ok_def)
  have "pm_Address (demo_point ''Float AB CD'' ''f32'') \<in> set [''10'', ''11'']"
    "parseAddress (pm_Address (demo_point ''Float AB CD'' ''f32'')) = Inr 9"
    "pm_Format (demo_point ''Float AB CD'' ''f32'') = ''Float AB CD''"
    using a by (simp_all add: demo_point_def)
  from float_point_truncated [OF disjI1 [OF conjI [OF refl refl]] c plain_serves [OF disjI1 [OF refl], of "\<lambda>s a. a"]
      slice_sort_sort_key ok this, of "\<lambda>ps. ps" "''d''" "()" demo_env]
  obtain vs w1 where rd: "mb_ReadBatch (plain_device (\<lambda>s a. a)) (sort_key ap_addr) (\<lambda>ps. ps) demo_client
      ''d'' ''03'' [''10'', ''11''] () = (Ok vs, w1)"
    and ex: "\<exists>v \<in> set vs. pv_PointID v = pm_Address ?p"
    and all: "\<forall>v \<in> set vs. pv_PointID v = pm_Address ?p \<longrightarrow> pv_Value v = VUint16 9 \<and>
      (is_panic (convert_value demo_env ?p (pv_Value v)) \<or>
       convert_value demo_env ?p (pv_Value v) = Ok (to_type demo_env ?p (VF32 (push_bit 16 (ucast (9 :: u16))))))"
    by blast
  obtain v where v: "v \<in> set vs" "pv_PointID v = pm_Address ?p" using ex by blast
  have "go_lower ''f32'' = ''f32''" by code_simp
  then have t: "to_type demo_env ?p (VF32 y) = VF32 y" for y
    by (simp add: to_type_def demo_point_def)
  have "\<not> is_panic (convert_value demo_env ?p (pv_Value v))" by (simp add: demo_convert_point)
  with all v have "convert_value demo_env ?p (pv_Value v) = Ok (VF32 (push_bit 16 (ucast (9 :: u16))))"
    unfolding t by blast
  moreover have "pv_PointID v = ''10''" using v(2) by (simp add: demo_point_def)
  ultimately show ?thesis using rd v(1) by auto
qed

text \<open>A point with format \<open>UINT\<close>, in any capitals, is a Go \<open>uint\<close> after conversion whatever its
  type says, and no rule converts that: aggregate rules never see it as a sample, and alarm
  conditions get it as it is.\<close>

lemma apply_transform_uint: "apply_transform E p (VUint x) = Ok (VUint x)"
  by (simp add: apply_transform_def parseTransform_def)

theorem uint_point_not_aggregated:
  assumes "go_upper (pm_Format p) = ''UINT''" "pm_Format p \<noteq> []"
  shows "convert_value E p (VUint16 x) = Ok (VUint (ucast x)) \<and>
    agg_rule dev (pm(ag_Point rule \<mapsto> VUint (ucast x))) rule bufs = bufs \<and>
    alarm_value (VUint (ucast x)) = VUint (ucast x)"
proof -
  have "convert_value E p (VUint16 x) = Ok (VUint (ucast x))"
    using assms by (simp add: convert_value_def pad_words_def is_format_def apply_format_def
        ParseAndCastFormat_def apply_transform_uint to_type_def Let_def)
  then show ?thesis by (simp add: agg_rule_def Let_def)
qed

theorem uint_point_not_aggregated_witness:
  "convert_value demo_env (demo_point ''Uint'' ''float'') (VUint16 7) = Ok (VUint 7)"
proof -
  have f: "go_upper (pm_Format (demo_point ''Uint'' ''float'')) = ''UINT''"
    by (simp add: demo_point_def) code_simp
  have "pm_Format (demo_point ''Uint'' ''float'') \<noteq> []" by (simp add: demo_point_def)
  from uint_point_not_aggregated [OF f this, of demo_env 7] show ?thesis by simp
qed

end
