(* ===== verification/Collector_Rounds.thy ===== *)
theory Collector_Rounds
  imports Collector_Values
begin

text \<open>
  Whole rounds of a poller: what the rules see, and what the report carries.
\<close>

section \<open>The rules and the report\<close>

text \<open>One group, apart from the rules: its values stored over those before, or the panic that ends it.\<close>

definition read_group ::
  "'w env \<Rightarrow> string \<Rightarrow> FunctionPointGroup \<Rightarrow> gomap \<Rightarrow> pclient \<Rightarrow> 'w \<Rightarrow> gomap out \<times> pclient \<times> 'w" where
  "read_group E dev g all c w =
     (case readWithRetry (pc_ReadBatch E) (pc_Reconnect E) c dev (fg_Function g)
             (map pm_Address (fg_Points g)) 3 w of
        (Panic x, c1, w1) \<Rightarrow> (Panic x, c1, w1)
      | (r, c1, w1) \<Rightarrow>
          (store_values E (fg_Points g) (case r of Ok vs \<Rightarrow> vs | _ \<Rightarrow> []) (nil_points (fg_Points g) all),
           c1, w1))"

lemma poll_groups_Cons:
  "poll_groups E dev (g # gs) all c re w =
     (case read_group E dev g all c w of
        (Ok all1, c1, w1) \<Rightarrow> poll_groups E dev gs all1 c1 (fst (ApplyRules (en_gov E) re dev all1)) w1
      | (Err e, c1, w1) \<Rightarrow> (Err e, c1, re, w1)
      | (Panic x, c1, w1) \<Rightarrow> (Panic x, c1, re, w1))"
  by (simp add: read_group_def Let_def split: prod.splits out.splits)

declare poll_groups.simps(2) [simp del]

lemma poll_groups_rules:
  "poll_groups E dev gs all c re w = (r, c1, re1, w1) \<Longrightarrow>
   \<exists>re2. poll_groups E dev gs all c re' w = (r, c1, re2, w1)"
proof (induction gs arbitrary: all c re re' w)
  case (Cons g gs)
  obtain r0 c0 w0 where rd: "read_group E dev g all c w = (r0, c0, w0)" by (metis prod_cases3)
  show ?case
  proof (cases r0)
    case (Ok all1)
    with Cons.prems rd
    have "poll_groups E dev gs all1 c0 (fst (ApplyRules (en_gov E) re dev all1)) w0 = (r, c1, re1, w1)"
      by (simp add: poll_groups_Cons)
    from Cons.IH [OF this, of "fst (ApplyRules (en_gov E) re' dev all1)"] Ok rd
    show ?thesis by (simp add: poll_groups_Cons)
  qed (use Cons.prems rd in \<open>auto simp: poll_groups_Cons\<close>)
qed simp

text \<open>C5: no report carries an alarm or an average: what a round sends, and everything else it does
  outside the engine, is the same whatever rules are loaded, whatever their buffers hold and
  whatever alarms they raise, since the alarms and averages gathered after each group are
  assigned to variables of the group's block.\<close>

theorem reports_ignore_rules:
  "\<exists>re2. poll_round E ups pol c re' w =
     (fst (poll_round E ups pol c re w), fst (snd (poll_round E ups pol c re w)), re2,
      snd (snd (snd (poll_round E ups pol c re w))))"
proof -
  let ?c = "case round_slave (pl_config pol) of Some s \<Rightarrow> pc_SetSlave s c | None \<Rightarrow> c"
  let ?dev = "d2_DeviceID (pl_set pol)" and ?gs = "d2_Functions (pl_set pol)"
  obtain r c1 re1 w1 where p: "poll_groups E ?dev ?gs Map.empty ?c re w = (r, c1, re1, w1)"
    by (metis prod_cases4)
  obtain re2 where q: "poll_groups E ?dev ?gs Map.empty ?c re' w = (r, c1, re2, w1)"
    using poll_groups_rules [OF p] by blast
  show ?thesis
    by (cases r) (simp_all add: poll_round_def Let_def p q split: prod.splits)
qed

section \<open>Samples per round\<close>

lemma nil_points_other: "n \<notin> pm_Name ` set ps \<Longrightarrow> nil_points ps all n = all n"
  by (induction ps all rule: nil_points.induct) auto

lemma store_value_other:
  "store_value E ps v all = Ok all1 \<Longrightarrow> n \<notin> pm_Name ` set ps \<Longrightarrow> all1 n = all n"
  by (induction ps) (auto split: if_splits)

lemma store_values_other:
  "store_values E ps vs all = Ok all1 \<Longrightarrow> n \<notin> pm_Name ` set ps \<Longrightarrow> all1 n = all n"
  by (induction vs arbitrary: all) (auto simp: store_value_other)

lemma read_group_other:
  "read_group E dev g all c w = (Ok all1, c1, w1) \<Longrightarrow> n \<notin> pm_Name ` set (fg_Points g) \<Longrightarrow> all1 n = all n"
  by (auto simp: read_group_def nil_points_other split: prod.splits out.splits dest: store_values_other)

definition group_names :: "FunctionPointGroup list \<Rightarrow> string set" where
  "group_names gs = (\<Union>g \<in> set gs. pm_Name ` set (fg_Points g))"

lemma poll_groups_reports:
  "poll_groups E dev gs all c re w = (Ok all1, c1, re1, w1) \<Longrightarrow>
   \<exists>ms. length ms = length gs \<and> re1 = run_reports (en_gov E) re (map (Pair dev) ms) \<and>
     (\<forall>n. n \<notin> group_names gs \<longrightarrow> all1 n = all n \<and> (\<forall>m \<in> set ms. m n = all n))"
proof (induction gs arbitrary: all c re w)
  case Nil
  then show ?case by (auto simp: run_reports_def)
next
  case (Cons g gs)
  obtain all0 c0 w0 where rd: "read_group E dev g all c w = (Ok all0, c0, w0)"
    and rest: "poll_groups E dev gs all0 c0 (fst (ApplyRules (en_gov E) re dev all0)) w0 = (Ok all1, c1, re1, w1)"
    using Cons.prems by (auto simp: poll_groups_Cons split: prod.splits out.splits)
  from Cons.IH [OF rest] obtain ms where ms: "length ms = length gs"
    "re1 = run_reports (en_gov E) (fst (ApplyRules (en_gov E) re dev all0)) (map (Pair dev) ms)"
    "\<forall>n. n \<notin> group_names gs \<longrightarrow> all1 n = all0 n \<and> (\<forall>m \<in> set ms. m n = all0 n)" by blast
  have "all0 n = all n" if "n \<notin> group_names (g # gs)" for n
    using that by (intro read_group_other [OF rd]) (simp add: group_names_def)
  moreover have "group_names gs \<subseteq> group_names (g # gs)"
    by (auto simp: group_names_def)
  ultimately show ?case
    using ms by (intro exI [of _ "all0 # ms"]) (auto simp: run_reports_def)
qed

lemma samples_const:
  assumes "ag_DeviceID rule = dev" "\<forall>m \<in> set ms. m (ag_Point rule) = Some (VF64 x)"
  shows "samples [rule] (buf_key dev (ag_Point rule)) (map (Pair dev) ms) = replicate (length ms) x"
  using assms(2) by (induction ms) (auto simp: samples_def rule_samples_def assms(1))

text \<open>A BACnet point and the group that reads it.\<close>

definition demo_pm :: PointMapping where
  "demo_pm =
     \<lparr>pm_Address = ''analogInput:3'', pm_Name = ''temp'', pm_Type = ''real'', pm_Unit = [],
      pm_Transform = [], pm_Format = [],
      pm_Alarm = \<lparr>ar_Enable = False, ar_Condition = [], ar_Level = [], ar_Message = []\<rparr>\<rparr>"

lemma demo_pm_fields: "pm_Address demo_pm = ''analogInput:3''" "pm_Name demo_pm = ''temp''"
  by (simp_all add: demo_pm_def)

definition demo_group :: FunctionPointGroup where
  "demo_group = \<lparr>fg_Function = ''read'', fg_Points = [demo_pm]\<rparr>"

definition holding :: "goval \<Rightarrow> BacnetClient" where
  "holding v = snd (bc_Write demo_bacnet ''analogInput:3'' v)"

lemma holding_connected: "bc_connected (holding (VF64 x))"
  by (simp add: holding_def bc_Write_def demo_bacnet_lookup expect_kind_def empty_point_def)

lemma holding_read:
  "read_key gov 0 (holding (VF64 x)) ''analogInput:3'' = good_value 0 ''temp'' (VF64 x)"
proof -
  obtain c1 where w: "bc_Write demo_bacnet ''analogInput:3'' (VF64 x) = (Ok (), c1)"
    using demo_bacnet_lookup by (simp add: bc_Write_def expect_kind_def empty_point_def)
  have h: "holding (VF64 x) = c1" by (simp add: holding_def w)
  have "bc_points c1 = (bc_points demo_bacnet)(''temp'' \<mapsto>
      empty_point\<lparr>bp_ID := ''d1.temp'', bp_Name := ''temp'', bp_Address := ''analogInput:3'',
        bp_PropertyValueType := TypeReal, bp_Writable := True, bp_Value := VF64 x\<rparr>)"
    "bc_addressToName c1 = bc_addressToName demo_bacnet"
    using w by (auto simp: bc_Write_def demo_bacnet_lookup expect_kind_def empty_point_def)
  moreover have "bc_points demo_bacnet ''analogInput:3'' = None"
    "bc_addressToName demo_bacnet ''analogInput:3'' = Some ''temp''"
    by (simp_all add: demo_bacnet_def bc_Init_def demo_bacnet_config_def mget_def NewBacnetClient_def
      point_of_def text_field_def empty_point_def demo_fmt_def add_point_def Let_def pvt_of_def)
  ultimately show ?thesis
    unfolding h by (simp add: read_key_def bc_lookup_def Let_def transformed_def default_value_def
        empty_point_def)
qed

lemma demo_convert: "convert_value E demo_pm (VF64 x) = Ok (VF64 x)"
proof -
  have l: "go_lower ''real'' = ''real''" by code_simp
  have u: "\<not> is_format ''FLOAT'' demo_pm" by (simp add: is_format_def demo_pm_def)
  have "pad_words demo_pm (VF64 x) = VF64 x" by (simp add: pad_words_def u)
  then show ?thesis
    by (simp add: convert_value_def apply_transform_def apply_format_def to_type_def demo_pm_def l)
qed

lemma holding_group:
  "en_now E () = 0 \<Longrightarrow> poll_groups E ''d'' (demo_group # gs) all (CBacnet (holding (VF64 x))) re () =
     (let all1 = all(''temp'' \<mapsto> VF64 x)
      in poll_groups E ''d'' gs all1 (CBacnet (holding (VF64 x)))
           (fst (ApplyRules (en_gov E) re ''d'' all1)) ())"
  by (simp add: poll_groups_Cons read_group_def demo_group_def demo_pm_fields readWithRetry_def numeral_3_eq_3 bc_ReadBatch_def
      holding_connected holding_read good_value_def demo_convert Let_def)

lemma demo_env_now: "en_now demo_env () = 0"
  by (simp add: demo_env_def)

text \<open>C6: the rules run after every function group, on all the values so far: in one round, a
  point of the first group is pushed into its window once per group of the device, so a device
  with three groups fills a window of three with three copies of one measurement.\<close>

theorem sample_pushed_per_group:
  assumes "ag_DeviceID rule = dev" "ag_Point rule \<notin> group_names gs"
    and "poll_groups E dev (g # gs) Map.empty c (NewRuleEngine [rule] alarm linkage) w =
      (Ok all, c1, re1, w1)"
    and "all (ag_Point rule) = Some (VF64 x)"
  shows "re_Buffers re1 (buf_key dev (ag_Point rule)) =
    Some \<lparr>pb_Values = last_n (nat (sint (ag_Window rule))) (replicate (Suc (length gs)) x),
          pb_Size = ag_Window rule\<rparr>"
proof -
  let ?re = "NewRuleEngine [rule] alarm linkage" and ?key = "buf_key dev (ag_Point rule)"
  obtain all0 c0 w0 where
    rest: "poll_groups E dev gs all0 c0 (fst (ApplyRules (en_gov E) ?re dev all0)) w0 = (Ok all, c1, re1, w1)"
    using assms(3) by (auto simp: poll_groups_Cons split: prod.splits out.splits)
  from poll_groups_reports [OF rest] obtain ms where ms: "length ms = length gs"
    "re1 = run_reports (en_gov E) (fst (ApplyRules (en_gov E) ?re dev all0)) (map (Pair dev) ms)"
    "\<forall>m \<in> set ms. m (ag_Point rule) = all0 (ag_Point rule)"
    "all (ag_Point rule) = all0 (ag_Point rule)"
    using assms(2) by blast
  have re1: "re1 = run_reports (en_gov E) ?re (map (Pair dev) (all0 # ms))"
    using ms(2) by (simp add: run_reports_def)
  have "\<forall>m \<in> set (all0 # ms). m (ag_Point rule) = Some (VF64 x)"
    using ms(3,4) assms(4) by auto
  from samples_const [OF assms(1) this] ms(1)
  have xs: "samples [rule] ?key (map (Pair dev) (all0 # ms)) = replicate (Suc (length gs)) x"
    by simp
  have sw: "same_window [rule] ?key (ag_Window rule)" by (simp add: same_window_def)
  have "re_Buffers re1 ?key = feed (ag_Window rule) None (replicate (Suc (length gs)) x)"
    unfolding re1 using run_reports_feed [of ?re ?key "ag_Window rule"] sw xs
    by (simp add: NewRuleEngine_def)
  moreover have "pb_Values (foldl pb_Add \<lparr>pb_Values = [], pb_Size = ag_Window rule\<rparr>
      (replicate (Suc (length gs)) x)) = last_n (nat (sint (ag_Window rule))) (replicate (Suc (length gs)) x)"
    by (subst pb.fold_empty) (simp_all add: pb_cap_def)
  ultimately show ?thesis
    by (simp add: feed_def PointBuffer.equality del: replicate.simps foldl_Cons)
qed

theorem sample_pushed_per_group_witness:
  "\<exists>all c1 re1. poll_groups demo_env ''d'' (demo_group # [\<lparr>fg_Function = ''x'', fg_Points = []\<rparr>]) Map.empty
      (CBacnet (holding (VF64 7))) (NewRuleEngine [demo_agg ''d'' ''temp'' 3] [] []) () =
      (Ok all, c1, re1, ()) \<and>
    re_Buffers re1 ''d.temp'' = Some \<lparr>pb_Values = [7, 7], pb_Size = 3\<rparr>"
proof -
  let ?all = "[''temp'' \<mapsto> VF64 7]"
  obtain re1 where g: "poll_groups demo_env ''d'' (demo_group # [\<lparr>fg_Function = ''x'', fg_Points = []\<rparr>])
      Map.empty (CBacnet (holding (VF64 7))) (NewRuleEngine [demo_agg ''d'' ''temp'' 3] [] []) () =
      (Ok ?all, CBacnet (holding (VF64 7)), re1, ())"
    unfolding holding_group [OF demo_env_now] Let_def
    by (simp add: poll_groups_Cons read_group_def readWithRetry_def numeral_3_eq_3 bc_ReadBatch_def holding_connected Let_def)
  have "ag_Point (demo_agg ''d'' ''temp'' 3) \<notin> group_names [\<lparr>fg_Function = ''x'', fg_Points = []\<rparr>]"
    by (simp add: group_names_def)
  from sample_pushed_per_group [OF _ this g] show ?thesis
    using g by (simp add: demo_agg_def buf_key_def last_n_def)
qed

section \<open>Reports that are lost\<close>

text \<open>JSON has no number for NaN and the infinities: the encoder fails on them.\<close>

definition json_rejects_nonfinite :: "(DataReport \<Rightarrow> gerr + byte list) \<Rightarrow> bool" where
  "json_rejects_nonfinite marshal \<longleftrightarrow>
     (\<forall>r k x. dr_Data r k = Some (VF64 x) \<and> (f64_val x = FNaN \<or> (\<exists>s. f64_val x = FInf s)) \<longrightarrow>
        (\<exists>e. marshal r = Inl e))"

text \<open>C31: one NaN or infinite value costs the whole report of its device: the encoder's error is
  dropped and an empty payload goes to every channel, all points of the device with it, and the
  round still ends with success.\<close>

theorem nonfinite_loses_report:
  assumes "json_rejects_nonfinite (en_marshal E)" "\<forall>up \<in> set ups. up_ready up"
    and "poll_groups E (d2_DeviceID (pl_set pol)) (d2_Functions (pl_set pol)) Map.empty
      (case round_slave (pl_config pol) of Some s \<Rightarrow> pc_SetSlave s c | None \<Rightarrow> c) re w =
      (Ok all, c1, re1, w1)"
    and "all k = Some (VF64 x)" "f64_val x = FNaN \<or> (\<exists>s. f64_val x = FInf s)"
  shows "poll_round E ups pol c re w =
    (Ok (), c1, re1, foldl (\<lambda>w up. snd (up_Send (en_net E) up [] w)) w1 ups)"
proof -
  let ?r = "\<lparr>dr_DeviceID = d2_DeviceID (pl_set pol), dr_Timestamp = en_now E w1, dr_Data = all,
    dr_Alarm = [], dr_Metrics = Map.empty\<rparr>"
  have "dr_Data ?r k = Some (VF64 x)" using assms(4) by simp
  with assms(1,5) obtain e where "en_marshal E ?r = Inl e"
    unfolding json_rejects_nonfinite_def by blast
  then have "EncodeDataReport (en_marshal E) (en_now E w1) (d2_DeviceID (pl_set pol)) all [] Map.empty = []"
    by (simp add: EncodeDataReport_def)
  then show ?thesis
    using assms(3) SendToAll_ready [OF assms(2), of "en_net E" "[]" w1]
    by (simp add: poll_round_def Let_def)
qed

theorem nonfinite_loses_report_witness:
  "\<exists>c1 re1. poll_round demo_env [NatsUplink]
     \<lparr>pl_set = \<lparr>d2_DeviceID = ''d'', d2_Protocol = [], d2_ProtocolName = [], d2_Functions = [demo_group]\<rparr>,
      pl_config = Map.empty, pl_client = 0, pl_interval = 1\<rparr>
     (CBacnet (holding (VF64 f64_nan))) (NewRuleEngine [] [] []) () = (Ok (), c1, re1, ())"
proof -
  let ?pol = "\<lparr>pl_set = \<lparr>d2_DeviceID = ''d'', d2_Protocol = [], d2_ProtocolName = [],
      d2_Functions = [demo_group]\<rparr>, pl_config = Map.empty, pl_client = 0, pl_interval = 1\<rparr>"
  have j: "json_rejects_nonfinite (en_marshal demo_env)"
    by (simp add: json_rejects_nonfinite_def demo_env_def)
  have n: "f64_val f64_nan = FNaN" by (simp add: f64_val_def f64_nan_def Let_def)
  obtain re1 where g: "poll_groups demo_env (d2_DeviceID (pl_set ?pol)) (d2_Functions (pl_set ?pol)) Map.empty
      (case round_slave (pl_config ?pol) of Some s \<Rightarrow> pc_SetSlave s (CBacnet (holding (VF64 f64_nan)))
       | None \<Rightarrow> CBacnet (holding (VF64 f64_nan))) (NewRuleEngine [] [] []) () =
      (Ok [''temp'' \<mapsto> VF64 f64_nan], CBacnet (holding (VF64 f64_nan)), re1, ())"
    using holding_group [OF demo_env_now, of "[]" Map.empty f64_nan "NewRuleEngine [] [] []"]
    by (simp add: round_slave_def Let_def)
  have "\<forall>up \<in> set [NatsUplink]. up_ready up" by simp
  from nonfinite_loses_report [OF j this g, of "''temp''" f64_nan] n show ?thesis by simp
qed

end
