(* ===== verification/Config_Loaders.thy ===== *)
theory Config_Loaders
  imports Uplink
begin

text \<open>
  The loaders of \<open>config/\<close>: each reads a file and decodes it into a slice of structs. Reading and
  the decoders of the YAML and JSON libraries are parameters; a decoder returns what it has
  filled in together with its error, and a file that cannot be read gives nil.
\<close>

record Config =
  cg_Devices :: "DeviceConfig list"

type_synonym 'a decoder = "byte list \<Rightarrow> 'a \<times> gerr option"

record configfs =
  fs_read :: "string \<Rightarrow> gerr + byte list"
  ym_config :: "Config decoder"
  ym_devices :: "DeviceConfigWithMeta list decoder"
  js_devices :: "DeviceConfigWithMeta list decoder"
  ym_points :: "DevicePointSet list decoder"
  ym_points2 :: "DevicePointSetV2 list decoder"
  ym_agg :: "AggregateRule list decoder"
  ym_alarm :: "AlarmRuleEdge list decoder"
  ym_linkage :: "LinkageRule list decoder"
  ym_rules :: "DeviceEdgeRules list decoder"
  ym_uplinks :: "UplinkConfig list decoder"
  ym_protocols :: "(string \<Rightarrow> (string \<times> goval) list list) decoder"

definition LoadConfig :: "configfs \<Rightarrow> string \<Rightarrow> Config option \<times> gerr option" where
  "LoadConfig F filePath =
     (case fs_read F filePath of
        Inl e \<Rightarrow> (None, Some e)
      | Inr data \<Rightarrow>
          (case ym_config F data of (cfg, Some e) \<Rightarrow> (None, Some e) | (cfg, None) \<Rightarrow> (Some cfg, None)))"

definition LoadDevicesFromYAML :: "configfs \<Rightarrow> string \<Rightarrow> DeviceConfigWithMeta list \<times> gerr option" where
  "LoadDevicesFromYAML F file =
     (case fs_read F file of Inl e \<Rightarrow> ([], Some e) | Inr data \<Rightarrow> ym_devices F data)"

definition LoadDevicesFromJSON :: "configfs \<Rightarrow> string \<Rightarrow> DeviceConfigWithMeta list \<times> gerr option" where
  "LoadDevicesFromJSON F file =
     (case fs_read F file of Inl e \<Rightarrow> ([], Some e) | Inr data \<Rightarrow> js_devices F data)"

definition LoadPointMappings :: "configfs \<Rightarrow> string \<Rightarrow> DevicePointSet list \<times> gerr option" where
  "LoadPointMappings F file =
     (case fs_read F file of Inl e \<Rightarrow> ([], Some e) | Inr data \<Rightarrow> ym_points F data)"

definition LoadPointMappingsV2 :: "configfs \<Rightarrow> string \<Rightarrow> DevicePointSetV2 list \<times> gerr option" where
  "LoadPointMappingsV2 F file =
     (case fs_read F file of Inl e \<Rightarrow> ([], Some e) | Inr data \<Rightarrow> ym_points2 F data)"

definition LoadAggregateRules :: "configfs \<Rightarrow> string \<Rightarrow> AggregateRule list \<times> gerr option" where
  "LoadAggregateRules F file =
     (case fs_read F file of Inl e \<Rightarrow> ([], Some e) | Inr data \<Rightarrow> ym_agg F data)"

definition LoadAlarmRulesEdge :: "configfs \<Rightarrow> string \<Rightarrow> AlarmRuleEdge list \<times> gerr option" where
  "LoadAlarmRulesEdge F file =
     (case fs_read F file of Inl e \<Rightarrow> ([], Some e) | Inr data \<Rightarrow> ym_alarm F data)"

definition LoadLinkageRules :: "configfs \<Rightarrow> string \<Rightarrow> LinkageRule list \<times> gerr option" where
  "LoadLinkageRules F file =
     (case fs_read F file of Inl e \<Rightarrow> ([], Some e) | Inr data \<Rightarrow> ym_linkage F data)"

definition LoadDeviceEdgeRules :: "configfs \<Rightarrow> string \<Rightarrow> DeviceEdgeRules list \<times> gerr option" where
  "LoadDeviceEdgeRules F file =
     (case fs_read F file of Inl e \<Rightarrow> ([], Some e) | Inr data \<Rightarrow> ym_rules F data)"

definition LoadUplinkConfigs :: "configfs \<Rightarrow> string \<Rightarrow> UplinkConfig list \<times> gerr option" where
  "LoadUplinkConfigs F file =
     (case fs_read F file of Inl e \<Rightarrow> ([], Some e) | Inr data \<Rightarrow> ym_uplinks F data)"

text \<open>A loader of a file that cannot be read gives nothing.\<close>

lemmas loader_defs = LoadDevicesFromYAML_def LoadDevicesFromJSON_def LoadPointMappings_def
  LoadPointMappingsV2_def LoadAggregateRules_def LoadAlarmRulesEdge_def LoadLinkageRules_def
  LoadDeviceEdgeRules_def LoadUplinkConfigs_def

end
