(* ===== verification/Collector_System.thy ===== *)
theory Collector_System
  imports Collector_Values Config_Loaders
begin

text \<open>
  The whole of \<open>main\<close>: what it loads and starts, and its pollers as goroutines that share the
  clients, the rule engine and the world. A step is one call of a poller: setting the slave, one
  read, a reconnection, storing what was read and applying the rules, or sending the report. A
  panic in any of them ends the process. A reload of the rules and changes outside the process
  may come between any two steps.
\<close>

section \<open>Start\<close>

fun dev_map :: "DeviceConfigWithMeta list \<Rightarrow> (string \<rightharpoonup> DeviceConfigWithMeta)
    \<Rightarrow> (string \<rightharpoonup> DeviceConfigWithMeta)" where
  "dev_map [] devMap = devMap"
| "dev_map (d # devs) devMap = dev_map devs (devMap(dm_ID (dc_Meta d) \<mapsto> d))"

definition discovered_device :: "BACnetDeviceInfo \<Rightarrow> DeviceConfigWithMeta" where
  "discovered_device dev =
     \<lparr>dc_Meta = \<lparr>dm_ID = bd_DeviceID dev, dm_Name = bd_Model dev, dm_Description = [],
        dm_Protocol = ''bacnet'', dm_ProtocolName = ''auto_discovered'', dm_Interval = [],
        dm_EnablePing = False, dm_IP = bd_Address dev, dm_Port = 0, dm_SlaveID = 0\<rparr>,
      dc_Config = Some [''object_device'' \<mapsto> VStr (bd_DeviceID dev), ''ip'' \<mapsto> VStr (bd_Address dev)]\<rparr>"

fun add_discovered :: "BACnetDeviceInfo list \<Rightarrow> (string \<rightharpoonup> DeviceConfigWithMeta)
    \<Rightarrow> (string \<rightharpoonup> DeviceConfigWithMeta)" where
  "add_discovered [] devMap = devMap"
| "add_discovered (dev # devs) devMap =
     add_discovered devs
       (if devMap (bd_DeviceID dev) = None
        then devMap(bd_DeviceID dev \<mapsto> discovered_device dev) else devMap)"

section \<open>A poller's goroutine\<close>

text \<open>
  Where a goroutine is: before it makes its ticker, between two rounds, before the next of its
  groups with the values so far, reading a group with the tries left, reconnecting after the
  last one, and about to store what the reads gave.
\<close>

datatype phase =
    Starting
  | Idle
  | Groups gomap "FunctionPointGroup list"
  | Reading gomap FunctionPointGroup "FunctionPointGroup list" nat
  | Reconnecting gomap FunctionPointGroup "FunctionPointGroup list"
  | Storing gomap FunctionPointGroup "FunctionPointGroup list" "PointValue list"

definition no_ticker :: panic where
  "no_ticker = Raised (ErrText ''non-positive interval for NewTicker'')"

text \<open>One call, on the poller's own client: its result is the next phase or a panic.\<close>

fun pstep ::
  "'w env \<Rightarrow> uplink list \<Rightarrow> poller \<Rightarrow> phase \<Rightarrow> pclient \<Rightarrow> RuleEngine \<Rightarrow> 'w
    \<Rightarrow> phase out \<times> pclient \<times> RuleEngine \<times> 'w" where
  "pstep E ups pol Starting c re w =
     ((if pl_interval pol \<le>s 0 then Panic no_ticker else Ok Idle), c, re, w)"
| "pstep E ups pol Idle c re w =
     (Ok (Groups Map.empty (d2_Functions (pl_set pol))),
      (case round_slave (pl_config pol) of Some s \<Rightarrow> pc_SetSlave s c | None \<Rightarrow> c), re, w)"
| "pstep E ups pol (Groups all []) c re w =
     (case SendToAll (en_net E) ups
             (EncodeDataReport (en_marshal E) (en_now E w) (d2_DeviceID (pl_set pol)) all [] Map.empty) w of
        (Panic x, w1) \<Rightarrow> (Panic x, c, re, w1)
      | (r, w1) \<Rightarrow> (Ok Idle, c, re, w1))"
| "pstep E ups pol (Groups all (g # gs)) c re w =
     (Ok (Reading (nil_points (fg_Points g) all) g gs 3), c, re, w)"
| "pstep E ups pol (Reading all g gs 0) c re w = (Ok (Storing all g gs []), c, re, w)"
| "pstep E ups pol (Reading all g gs (Suc k)) c re w =
     (case pc_ReadBatch E c (d2_DeviceID (pl_set pol)) (fg_Function g)
             (extractPointAddresses (fg_Points g)) w of
        (Panic x, c1, w1) \<Rightarrow> (Panic x, c1, re, w1)
      | (Err e, c1, w1) \<Rightarrow>
          (Ok (if k = 0 then Reconnecting all g gs else Reading all g gs k), c1, re, w1)
      | (Ok vs, c1, w1) \<Rightarrow> (Ok (Storing all g gs vs), c1, re, w1))"
| "pstep E ups pol (Reconnecting all g gs) c re w =
     (case pc_Reconnect E c w of (e, c1, w1) \<Rightarrow> (Ok (Storing all g gs []), c1, re, w1))"
| "pstep E ups pol (Storing all g gs vs) c re w =
     (case store_values E (fg_Points g) vs all of
        Ok all2 \<Rightarrow> (Ok (Groups all2 gs), c, fst (ApplyRules (en_gov E) re (d2_DeviceID (pl_set pol)) all2), w)
      | Err e \<Rightarrow> (Err e, c, re, w)
      | Panic x \<Rightarrow> (Panic x, c, re, w))"

section \<open>The process\<close>

text \<open>
  The point sets whose goroutines are still to be started, the devices and clients that the loop
  over them uses, and the pollers that run, in the order they were started.
\<close>

record 'w sys =
  sy_sets :: "DevicePointSetV2 list"
  sy_devMap :: "string \<rightharpoonup> DeviceConfigWithMeta"
  sy_pool :: pool
  sy_running :: "(poller \<times> phase) list"
  sy_engine :: RuleEngine
  sy_world :: 'w
  sy_crashed :: "panic option"

definition next_set :: "'w env \<Rightarrow> (string \<Rightarrow> (string \<times> goval) list list) \<Rightarrow> 'w sys \<Rightarrow> 'w sys" where
  "next_set E protoConf s =
     (case sy_sets s of
        [] \<Rightarrow> s
      | dset # dsets \<Rightarrow>
          (case start_poller E protoConf dset (sy_devMap s) (sy_pool s) (sy_world s) of
             (opol, devMap, p, w) \<Rightarrow>
               s\<lparr>sy_sets := dsets, sy_devMap := devMap, sy_pool := p, sy_world := w,
                 sy_running := sy_running s @
                   (case opol of None \<Rightarrow> [] | Some pol \<Rightarrow> [(pol, Starting)])\<rparr>))"

definition poller_moves :: "'w env \<Rightarrow> uplink list \<Rightarrow> nat \<Rightarrow> 'w sys \<Rightarrow> 'w sys" where
  "poller_moves E ups i s =
     (case sy_running s ! i of (pol, ph) \<Rightarrow>
       (case pstep E ups pol ph (po_clients (sy_pool s) ! pl_client pol) (sy_engine s) (sy_world s) of
          (r, c, re, w) \<Rightarrow>
            s\<lparr>sy_pool := (sy_pool s)\<lparr>po_clients := (po_clients (sy_pool s))[pl_client pol := c]\<rparr>,
              sy_engine := re, sy_world := w,
              sy_running := (case r of Ok ph1 \<Rightarrow> (sy_running s)[i := (pol, ph1)] | _ \<Rightarrow> sy_running s),
              sy_crashed := panic_of r\<rparr>))"

definition rules_file :: string where
  "rules_file = ''configs/edge_rules.yaml''"

text \<open>
  The signal handler is installed after the last set; the file it loads may have any content
  by then, and the error of the loader is dropped.
\<close>

inductive sstep ::
  "'w env \<Rightarrow> (string \<Rightarrow> (string \<times> goval) list list) \<Rightarrow> uplink list \<Rightarrow> 'w sys \<Rightarrow> 'w sys \<Rightarrow> bool"
  for E :: "'w env" and protoConf :: "string \<Rightarrow> (string \<times> goval) list list" and ups :: "uplink list" where
  starts: "sy_crashed s = None \<Longrightarrow> sstep E protoConf ups s (next_set E protoConf s)"
| moves: "sy_crashed s = None \<Longrightarrow> i < length (sy_running s) \<Longrightarrow>
    sstep E protoConf ups s (poller_moves E ups i s)"
| reload: "sy_crashed s = None \<Longrightarrow> sy_sets s = [] \<Longrightarrow>
    sstep E protoConf ups s
      (s\<lparr>sy_engine := reload_rules (fst (LoadDeviceEdgeRules F rules_file)) (sy_engine s)\<rparr>)"
| outside: "sy_crashed s = None \<Longrightarrow> sstep E protoConf ups s (s\<lparr>sy_world := w\<rparr>)"

inductive_cases sstepE: "sstep E protoConf ups s s1"

text \<open>
  The start, up to that loop: the two files without which it panics, those whose errors are
  dropped, and the BACnet discovery, whose datagrams are an argument.
\<close>

definition start_main ::
  "'w env \<Rightarrow> configfs \<Rightarrow> (byte list \<times> string) list \<Rightarrow> 'w
    \<Rightarrow> ((string \<Rightarrow> (string \<times> goval) list list) \<times> uplink list \<times> 'w sys) out" where
  "start_main E F packets w =
     (case fs_read F ''configs/protocols.yaml'' of
        Inl e \<Rightarrow> Panic (Raised e)
      | Inr data \<Rightarrow>
          (case ym_protocols F data of
             (protoConf, Some e) \<Rightarrow> Panic (Raised e)
           | (protoConf, None) \<Rightarrow>
               (case LoadDevicesFromYAML F ''configs/devices.yaml'' of
                  (devs, Some e) \<Rightarrow> Panic (Raised e)
                | (devs, None) \<Rightarrow>
                    (let devMap = dev_map devs Map.empty;
                         pointSets = fst (LoadPointMappingsV2 F ''configs/points.yaml'');
                         devRules = fst (LoadDeviceEdgeRules F rules_file);
                         re = NewRuleEngine (ExtractAggregateRules devRules)
                                (ExtractAlarmRules devRules) (ExtractLinkageRules devRules);
                         (ups, w1) = NewUplinkManagerFromConfig (en_net E)
                                (fst (LoadUplinkConfigs F ''configs/uplinks.yaml'')) w
                     in Ok (protoConf, ups,
                            \<lparr>sy_sets = pointSets,
                             sy_devMap = add_discovered (DiscoverDevicesReal packets) devMap,
                             sy_pool = empty_pool, sy_running = [], sy_engine = re,
                             sy_world = w1, sy_crashed = None\<rparr>)))))"

text \<open>The states the process can be in, when it got so far.\<close>

inductive reachable :: "'w env \<Rightarrow> uplink list \<Rightarrow> 'w sys \<Rightarrow> bool" for E and ups where
  started: "start_main E F packets w = Ok (protoConf, ups, s) \<Longrightarrow>
    (sstep E protoConf ups)\<^sup>*\<^sup>* s s1 \<Longrightarrow> reachable E ups s1"

end
