(* ===== verification/System_Properties.thy ===== *)
theory System_Properties
  imports Collector_System Collector_Values
begin

text \<open>
  What holds of the whole process: its invariant, a round as the run of one poller that nobody
  interrupts, the mixing of slaves between the steps of two pollers, and what ends the process.
\<close>

section \<open>The invariant\<close>

definition pool_ok :: "'w env \<Rightarrow> pool \<Rightarrow> bool" where
  "pool_ok E p \<longleftrightarrow>
     (\<forall>c \<in> set (po_clients p). pc_wf E c) \<and>
     (\<forall>key i. po_cache p key = Some i \<longrightarrow> i < length (po_clients p))"

definition phase_ok :: "phase \<Rightarrow> bool" where
  "phase_ok ph = (case ph of
      Reading all g gs k \<Rightarrow> k \<le> 3
    | Storing all g gs vs \<Rightarrow> vs = [] \<or> length vs = length (fg_Points g)
    | _ \<Rightarrow> True)"

definition sys_ok :: "'w env \<Rightarrow> 'w sys \<Rightarrow> bool" where
  "sys_ok E s \<longleftrightarrow>
     pool_ok E (sy_pool s) \<and> bounded_bufs (re_Buffers (sy_engine s)) \<and>
     (\<forall>(pol, ph) \<in> set (sy_running s). pl_client pol < length (po_clients (sy_pool s)) \<and> phase_ok ph)"

lemma pc_wf_SetSlave: "pc_wf E c \<Longrightarrow> pc_wf E (pc_SetSlave s c)"
  by (cases c) (auto simp: pc_wf_def mb_wf_SetSlave)

lemma pc_wf_Init:
  "pc_wf E c \<Longrightarrow> pc_Init E config c w = (e, c1, w1) \<Longrightarrow> pc_wf E c1"
  by (cases c) (auto simp: pc_wf_def split: prod.splits dest: mb_wf_Init intro: bac_wf_Init
      simp: bac_wf_Init prod_eq_iff)

lemma pc_wf_Create:
  assumes "slice_sort (en_srtr E)" "slice_sort (en_srtc E)" "Create main_registry protocol = Inr c"
  shows "pc_wf E c"
  using assms by (auto simp: Create_def main_registry_def Register_def pc_wf_def bac_wf_new
      split: option.splits if_splits)

lemma getOrCreateClient_ok:
  assumes "slice_sort (en_srtr E)" "slice_sort (en_srtc E)" "pool_ok E p"
    and "getOrCreateClient E protocol config p w = (r, p1, w1)"
  shows "pool_ok E p1 \<and> length (po_clients p) \<le> length (po_clients p1) \<and>
    (\<forall>i. r = Inr i \<longrightarrow> i < length (po_clients p1))"
proof (cases "po_cache p (client_key protocol config)")
  case (Some i)
  with assms(3,4) show ?thesis by (auto simp: getOrCreateClient_def pool_ok_def)
next
  case None
  show ?thesis
  proof (cases "Create main_registry protocol")
    case (Inl e)
    with None assms(3,4) show ?thesis by (auto simp: getOrCreateClient_def)
  next
    case (Inr c)
    note wf = pc_wf_Create [OF assms(1,2) Inr]
    obtain e c1 w2 where "pc_Init E config c w = (e, c1, w2)" by (metis prod_cases3)
    with pc_wf_Init [OF wf this] None Inr assms(3,4) show ?thesis
      by (cases e) (auto simp: getOrCreateClient_def pool_ok_def Let_def less_Suc_eq split: if_splits)
  qed
qed

lemma pool_ok_update:
  "pool_ok E p \<Longrightarrow> pc_wf E c \<Longrightarrow> pool_ok E (p\<lparr>po_clients := (po_clients p)[i := c]\<rparr>)"
  by (auto simp: pool_ok_def dest!: set_update_subset_insert [THEN subsetD])

lemma pool_ok_nth: "pool_ok E p \<Longrightarrow> i < length (po_clients p) \<Longrightarrow> pc_wf E (po_clients p ! i)"
  by (simp add: pool_ok_def)

lemma start_poller_ok:
  assumes "slice_sort (en_srtr E)" "slice_sort (en_srtc E)" "pool_ok E p"
    and "start_poller E protoConf dset devMap p w = (opol, devMap1, p1, w1)"
  shows "pool_ok E p1 \<and> length (po_clients p) \<le> length (po_clients p1) \<and>
    (\<forall>pol. opol = Some pol \<longrightarrow> pl_client pol < length (po_clients p1))"
  using assms(4) getOrCreateClient_ok [OF assms(1-3)] assms(3)
  by (fastforce simp: start_poller_def Let_def split: option.splits sum.splits prod.splits
      intro!: pool_ok_update pc_wf_SetSlave pool_ok_nth)

lemma store_values_no_Err: "store_values E ps vs all \<noteq> Err e"
proof -
  have "store_value E ps v all \<noteq> Err e" for v all
    by (induction ps) (auto simp: convert_value_def bind_out_Err_iff apply_transform_no_err)
  then show ?thesis by (induction vs arbitrary: all) (auto simp: bind_out_Err_iff)
qed

lemma pstep_no_Err: "fst (pstep E ups pol ph c re w) \<noteq> Err e"
  by (cases "(E, ups, pol, ph, c, re, w)" rule: pstep.cases)
    (auto split: prod.splits out.splits simp: store_values_no_Err)

lemma pstep_ok:
  assumes "pc_wf E c" "phase_ok ph" "bounded_bufs (re_Buffers re)"
    and "pstep E ups pol ph c re w = (r, c1, re1, w1)"
  shows "pc_wf E c1 \<and> bounded_bufs (re_Buffers re1) \<and> (\<forall>ph1. r = Ok ph1 \<longrightarrow> phase_ok ph1)"
proof (cases ph)
  case (Groups all gs)
  with assms show ?thesis by (cases gs) (auto simp: phase_ok_def split: prod.splits out.splits)
next
  case (Reading all g gs k)
  show ?thesis
  proof (cases k)
    case (Suc j)
    obtain r0 c0 w0 where rd: "pc_ReadBatch E c (d2_DeviceID (pl_set pol)) (fg_Function g)
        (extractPointAddresses (fg_Points g)) w = (r0, c0, w0)" by (metis prod_cases3)
    from pcp.rd_inv [OF assms(1) rd] have "pc_wf E c0" .
    moreover have "length vs = length (fg_Points g)" if "r0 = Ok vs" for vs
      using pcp.rd_answers [OF assms(1) rd [unfolded that]] by simp
    ultimately show ?thesis
      using assms Reading Suc rd by (cases r0) (auto simp: phase_ok_def)
  qed (use assms Reading in \<open>auto simp: phase_ok_def\<close>)
next
  case (Reconnecting all g gs)
  with assms show ?thesis
    by (auto simp: phase_ok_def split: prod.splits dest: pcp.rc_inv)
next
  case (Storing all g gs vs)
  with assms show ?thesis
    by (auto simp: phase_ok_def bounded_agg_loop split: out.splits)
qed (use assms in \<open>auto simp: phase_ok_def intro: pc_wf_SetSlave split: if_splits option.splits\<close>)

lemma next_set_ok:
  assumes "slice_sort (en_srtr E)" "slice_sort (en_srtc E)" "sys_ok E s"
  shows "sys_ok E (next_set E protoConf s)"
proof (cases "sy_sets s")
  case (Cons dset dsets)
  obtain opol dm p w where st: "start_poller E protoConf dset (sy_devMap s) (sy_pool s) (sy_world s) =
      (opol, dm, p, w)" by (metis prod_cases4)
  have "pool_ok E (sy_pool s)" using assms(3) by (simp add: sys_ok_def)
  from start_poller_ok [OF assms(1,2) this st] assms(3) show ?thesis
    by (cases opol) (fastforce simp: next_set_def Cons st sys_ok_def phase_ok_def)+
qed (use assms(3) in \<open>simp add: next_set_def\<close>)

lemma poller_moves_ok:
  assumes "sys_ok E s" "i < length (sy_running s)"
  shows "sys_ok E (poller_moves E ups i s)"
proof -
  obtain pol ph where i: "sy_running s ! i = (pol, ph)" by (metis prod.exhaust)
  then have "(pol, ph) \<in> set (sy_running s)" using assms(2) by (metis nth_mem)
  with assms(1) have k: "pl_client pol < length (po_clients (sy_pool s))" and ph: "phase_ok ph"
    and p: "pool_ok E (sy_pool s)" and b: "bounded_bufs (re_Buffers (sy_engine s))"
    by (auto simp: sys_ok_def)
  obtain r c re w where st: "pstep E ups pol ph (po_clients (sy_pool s) ! pl_client pol) (sy_engine s)
      (sy_world s) = (r, c, re, w)" by (metis prod_cases4)
  note ok = pstep_ok [OF pool_ok_nth [OF p k] ph b st]
  show ?thesis
  proof (cases r)
    case (Ok ph1)
    with ok assms(1) k show ?thesis
      by (auto simp: poller_moves_def i st sys_ok_def pool_ok_update
          dest!: set_update_subset_insert [THEN subsetD])
  qed (use ok assms(1) in \<open>auto simp: poller_moves_def i st sys_ok_def pool_ok_update\<close>)
qed

lemma sstep_ok:
  assumes "slice_sort (en_srtr E)" "slice_sort (en_srtc E)" "sstep E protoConf ups s s1" "sys_ok E s"
  shows "sys_ok E s1"
  using assms(3)
proof cases
  case starts
  then show ?thesis using next_set_ok [OF assms(1,2,4)] by simp
next
  case (moves i)
  then show ?thesis using poller_moves_ok [OF assms(4)] by simp
next
  case (reload F)
  then show ?thesis using assms(4) by (simp add: sys_ok_def reload_rules_def)
next
  case (outside w)
  then show ?thesis using assms(4) by (simp add: sys_ok_def)
qed

lemma start_main_ok: "start_main E F packets w = Ok (protoConf, ups, s) \<Longrightarrow> sys_ok E s"
  by (auto simp: start_main_def Let_def sys_ok_def pool_ok_def empty_pool_def NewRuleEngine_def
      bounded_bufs_def split: sum.splits prod.splits option.splits)

text \<open>C7: whatever the files hold, however the pollers' calls, the reloads and the changes outside
  interleave: every running poller has a client in the pool, every client is well-formed, a group
  is stored with no values or with one for each of its points, no window is longer than its
  size, and a key of the cache leads to a client.\<close>

theorem system_invariant:
  assumes "reachable E ups s" "slice_sort (en_srtr E)" "slice_sort (en_srtc E)"
  shows "sys_ok E s"
  using assms(1)
proof cases
  case (started F packets w protoConf s0)
  from started(2) show ?thesis
  proof (induction rule: rtranclp_induct)
    case base
    from start_main_ok [OF started(1)] show ?case .
  next
    case (step s s1)
    from sstep_ok [OF assms(2,3) step.hyps(2) step.IH] show ?case .
  qed
qed

text \<open>Two devices behind one address, with the slaves 1 and 2; the gateway's registers hold their slave.\<close>

definition gateway_env :: "unit env" where
  "gateway_env = demo_env\<lparr>en_mb := plain_device (\<lambda>s a. ucast s)\<rparr>"

definition slave_device :: "string \<Rightarrow> i64 \<Rightarrow> DeviceConfigWithMeta" where
  "slave_device i n =
     \<lparr>dc_Meta = \<lparr>dm_ID = i, dm_Name = [], dm_Description = [], dm_Protocol = ''modbus_tcp'',
        dm_ProtocolName = ''m1'', dm_Interval = [], dm_EnablePing = False, dm_IP = ''10.0.0.1'',
        dm_Port = 502, dm_SlaveID = n\<rparr>, dc_Config = None\<rparr>"

definition slave_group :: FunctionPointGroup where
  "slave_group = \<lparr>fg_Function = ''03'', fg_Points = [demo_point [] []]\<rparr>"

definition slave_set :: "string \<Rightarrow> DevicePointSetV2" where
  "slave_set i = \<lparr>d2_DeviceID = i, d2_Protocol = [], d2_ProtocolName = [], d2_Functions = [slave_group]\<rparr>"

definition slave_protocols :: "string \<Rightarrow> (string \<times> goval) list list" where
  "slave_protocols p = (if p = ''modbus_tcp'' then [[(''name'', VStr ''m1'')]] else [])"

definition gateway_files :: configfs where
  "gateway_files =
     \<lparr>fs_read = (\<lambda>f. Inr []), ym_config = (\<lambda>d. (\<lparr>cg_Devices = []\<rparr>, None)),
      ym_devices = (\<lambda>d. ([slave_device ''a'' 1, slave_device ''b'' 2], None)),
      js_devices = (\<lambda>d. ([], None)), ym_points = (\<lambda>d. ([], None)),
      ym_points2 = (\<lambda>d. ([slave_set ''a'', slave_set ''b''], None)),
      ym_agg = (\<lambda>d. ([], None)), ym_alarm = (\<lambda>d. ([], None)), ym_linkage = (\<lambda>d. ([], None)),
      ym_rules = (\<lambda>d. ([], None)), ym_uplinks = (\<lambda>d. ([], None)),
      ym_protocols = (\<lambda>d. (slave_protocols, None))\<rparr>"

definition slave_poller :: "string \<Rightarrow> i64 \<Rightarrow> poller" where
  "slave_poller i n =
     \<lparr>pl_set = slave_set i, pl_config = merged_config (slave_device i n) [(''name'', VStr ''m1'')],
      pl_client = 0, pl_interval = 5000000000\<rparr>"

definition gateway_devices :: "string \<rightharpoonup> DeviceConfigWithMeta" where
  "gateway_devices = [''a'' \<mapsto> slave_device ''a'' 1, ''b'' \<mapsto> slave_device ''b'' 2]"

definition gateway_pool :: "modbusTCP \<Rightarrow> pool" where
  "gateway_pool m =
     \<lparr>po_clients = [CModbus m],
      po_cache = [\<lparr>ck_Protocol = ''modbus_tcp'', ck_IP = ''10.0.0.1'', ck_Port = 502\<rparr> \<mapsto> 0]\<rparr>"

definition gateway_sys :: "DevicePointSetV2 list \<Rightarrow> pool \<Rightarrow> (poller \<times> phase) list \<Rightarrow> unit sys" where
  "gateway_sys dsets p running =
     \<lparr>sy_sets = dsets, sy_devMap = gateway_devices, sy_pool = p, sy_running = running,
      sy_engine = NewRuleEngine [] [] [], sy_world = (), sy_crashed = None\<rparr>"

lemma slave_config:
  "merged_config (slave_device i n) ps ''ip'' = Some (VStr ''10.0.0.1'')"
  "merged_config (slave_device i n) ps ''port'' = Some (VInt 502)"
  "merged_config (slave_device i n) ps ''slave_id'' = Some (VInt n)"
  "merged_config (slave_device i n) ps ''interval'' = Some (VStr [])"
  by (simp_all add: merged_config_def injectDeviceMeta_def add_missing_lookup meta_fields_def
      slave_device_def Let_def)

lemma gateway_start:
  "start_main gateway_env gateway_files [] () =
     Ok (slave_protocols, [], gateway_sys [slave_set ''a'', slave_set ''b''] empty_pool [])"
proof -
  have "dev_map [slave_device ''a'' 1, slave_device ''b'' 2] Map.empty = gateway_devices"
    by (simp add: gateway_devices_def slave_device_def)
  then show ?thesis
    by (simp add: start_main_def gateway_files_def loader_defs Let_def gateway_sys_def
        ExtractAggregateRules_def ExtractAlarmRules_def ExtractLinkageRules_def)
qed

lemma gateway_mb: "en_mb gateway_env = plain_device (\<lambda>s a. ucast s)"
  by (simp add: gateway_env_def)

lemma gateway_client:
  "en_mb E = plain_device (\<lambda>s a. ucast s) \<Longrightarrow>
   getOrCreateClient E ''modbus_tcp'' (merged_config (slave_device i 1) ps) empty_pool () =
     (Inr 0, gateway_pool demo_client, ())"
  by (simp add: getOrCreateClient_def client_key_def mget_def slave_config Create_def main_registry_def
      Register_def mb_Init_def NewModbusTCP_def plain_device_def Let_def demo_addr
      demo_client_def gateway_pool_def empty_pool_def)

lemma gateway_client_again:
  "getOrCreateClient gateway_env ''modbus_tcp'' (merged_config (slave_device i n) ps) (gateway_pool m) () =
     (Inr 0, gateway_pool m, ())"
  by (simp add: getOrCreateClient_def client_key_def mget_def slave_config gateway_pool_def)

lemma slave_interval: "poll_interval gateway_env (merged_config (slave_device i n) ps) = 5000000000"
  by (simp add: poll_interval_def slave_config gateway_env_def demo_env_def)

lemma slave_device_fields:
  "dm_Protocol (dc_Meta (slave_device i n)) = ''modbus_tcp''" "dc_Config (slave_device i n) = None"
  "dm_ProtocolName (dc_Meta (slave_device i n)) = ''m1''"
  by (simp_all add: slave_device_def)

lemma gateway_next:
  "next_set gateway_env slave_protocols (gateway_sys [slave_set ''a'', slave_set ''b''] empty_pool []) =
     gateway_sys [slave_set ''b''] (gateway_pool (SetSlave 1 demo_client)) [(slave_poller ''a'' 1, Starting)]"
  "next_set gateway_env slave_protocols (gateway_sys [slave_set ''b''] (gateway_pool m) running) =
     gateway_sys [] (gateway_pool (SetSlave 2 m)) (running @ [(slave_poller ''b'' 2, Starting)])"
  by (simp_all add: next_set_def gateway_sys_def start_poller_def gateway_devices_def slave_set_def
      slave_device_fields slave_protocols_def gateway_client [OF gateway_mb] gateway_client_again Let_def start_slave_def
      slave_config slave_interval slave_poller_def) (simp_all add: gateway_pool_def)

definition gateway_started :: "phase \<Rightarrow> phase \<Rightarrow> unit sys" where
  "gateway_started ph1 ph2 =
     gateway_sys [] (gateway_pool (SetSlave 2 (SetSlave 1 demo_client)))
       [(slave_poller ''a'' 1, ph1), (slave_poller ''b'' 2, ph2)]"

lemma gateway_steps:
  "(sstep gateway_env slave_protocols [])\<^sup>*\<^sup>*
     (gateway_sys [slave_set ''a'', slave_set ''b''] empty_pool []) (gateway_started Starting Starting)"
proof -
  let ?s0 = "gateway_sys [slave_set ''a'', slave_set ''b''] empty_pool []"
  have "sy_crashed (gateway_sys d p r) = None" for d p r by (simp add: gateway_sys_def)
  note st = sstep.starts [OF this, of gateway_env slave_protocols "[]"]
  have "sstep gateway_env slave_protocols [] ?s0
      (gateway_sys [slave_set ''b''] (gateway_pool (SetSlave 1 demo_client)) [(slave_poller ''a'' 1, Starting)])"
    using st [of "[slave_set ''a'', slave_set ''b'']"] by (metis gateway_next(1))
  moreover have "sstep gateway_env slave_protocols []
      (gateway_sys [slave_set ''b''] (gateway_pool (SetSlave 1 demo_client)) [(slave_poller ''a'' 1, Starting)])
      (gateway_started Starting Starting)"
    using st [of "[slave_set ''b'']" "gateway_pool (SetSlave 1 demo_client)" "[(slave_poller ''a'' 1, Starting)]"]
    by (simp add: gateway_next(2) gateway_started_def)
  ultimately show ?thesis by (meson rtranclp.rtrancl_into_rtrancl rtranclp.rtrancl_refl)
qed

theorem system_invariant_witness:
  "reachable gateway_env [] (gateway_started Starting Starting) \<and>
   sys_ok gateway_env (gateway_started Starting Starting) \<and>
   length (sy_running (gateway_started Starting Starting)) = 2"
proof -
  have r: "reachable gateway_env [] (gateway_started Starting Starting)"
    by (rule reachable.started [OF gateway_start gateway_steps])
  have "slice_sort (en_srtr gateway_env)" "slice_sort (en_srtc gateway_env)"
    by (simp_all add: gateway_env_def demo_env_def slice_sort_sort_key slice_sort_coils)
  from system_invariant [OF r this] r show ?thesis
    by (simp add: gateway_started_def gateway_sys_def)
qed

section \<open>A round that nobody interrupts\<close>

text \<open>
  The calls of one poller, one after the other, until it panics or is between two rounds; and the
  same in the process, where nobody else moves. Both are functions of the state.
\<close>

inductive pmove :: "'w env \<Rightarrow> uplink list \<Rightarrow> poller \<Rightarrow> phase out \<times> pclient \<times> RuleEngine \<times> 'w
    \<Rightarrow> phase out \<times> pclient \<times> RuleEngine \<times> 'w \<Rightarrow> bool" for E ups pol where
  pmove: "pstep E ups pol ph c re w = y \<Longrightarrow> ph \<noteq> Idle \<Longrightarrow> pmove E ups pol (Ok ph, c, re, w) y"

inductive_cases pmoveE: "pmove E ups pol x y"

definition alone :: "'w env \<Rightarrow> uplink list \<Rightarrow> nat \<Rightarrow> 'w sys \<Rightarrow> 'w sys \<Rightarrow> bool" where
  "alone E ups i s s1 \<longleftrightarrow>
     sy_crashed s = None \<and> i < length (sy_running s) \<and> snd (sy_running s ! i) \<noteq> Idle \<and>
     s1 = poller_moves E ups i s"

lemma alone_sstep: "alone E ups i s s1 \<Longrightarrow> sstep E protoConf ups s s1"
  by (auto simp: alone_def intro: sstep.moves)

lemma alone_ssteps:
  assumes "(alone E ups i)\<^sup>*\<^sup>* s s1"
  shows "(sstep E protoConf ups)\<^sup>*\<^sup>* s s1"
  using assms by (induction rule: rtranclp_induct) (auto intro: rtranclp.rtrancl_into_rtrancl alone_sstep)

lemma pmove_step:
  "pstep E ups pol ph c re w = y \<Longrightarrow> (pmove E ups pol)\<^sup>*\<^sup>* y z \<Longrightarrow> ph \<noteq> Idle \<Longrightarrow>
   (pmove E ups pol)\<^sup>*\<^sup>* (Ok ph, c, re, w) z"
  by (blast intro: converse_rtranclp_into_rtranclp pmove.intros)

lemma pmove_last: "pstep E ups pol ph c re w = y \<Longrightarrow> ph \<noteq> Idle \<Longrightarrow> (pmove E ups pol)\<^sup>*\<^sup>* (Ok ph, c, re, w) y"
  by (blast intro: pmove_step)

fun read_ends :: "gomap \<Rightarrow> FunctionPointGroup \<Rightarrow> FunctionPointGroup list \<Rightarrow> PointValue list out \<Rightarrow> phase out" where
  "read_ends all g gs (Ok vs) = Ok (Storing all g gs vs)"
| "read_ends all g gs (Err e) = Ok (Storing all g gs [])"
| "read_ends all g gs (Panic x) = Panic x"

lemma reading_runs:
  "retry_loop (pc_ReadBatch E) (pc_Reconnect E) (d2_DeviceID (pl_set pol)) (fg_Function g)
     (extractPointAddresses (fg_Points g)) (Suc k) res c w = (r, c1, w1) \<Longrightarrow>
   (pmove E ups pol)\<^sup>*\<^sup>* (Ok (Reading all g gs (Suc k)), c, re, w) (read_ends all g gs r, c1, re, w1)"
proof (induction k arbitrary: res c w)
  case 0
  obtain r0 c0 w0 where rd: "pc_ReadBatch E c (d2_DeviceID (pl_set pol)) (fg_Function g)
      (extractPointAddresses (fg_Points g)) w = (r0, c0, w0)" by (metis prod_cases3)
  show ?case
  proof (cases r0)
    case (Err e)
    obtain x c2 w2 where "pc_Reconnect E c0 w0 = (x, c2, w2)" by (metis prod_cases3)
    with Err rd 0 show ?thesis
      by (intro pmove_step [OF refl]) (auto intro!: pmove_last)
  qed (use 0 rd in \<open>auto intro!: pmove_last\<close>)
next
  case (Suc k)
  obtain r0 c0 w0 where rd: "pc_ReadBatch E c (d2_DeviceID (pl_set pol)) (fg_Function g)
      (extractPointAddresses (fg_Points g)) w = (r0, c0, w0)" by (metis prod_cases3)
  show ?case
  proof (cases r0)
    case (Err e)
    with Suc.prems rd have "retry_loop (pc_ReadBatch E) (pc_Reconnect E) (d2_DeviceID (pl_set pol))
        (fg_Function g) (extractPointAddresses (fg_Points g)) (Suc k) (Err e) c0 w0 = (r, c1, w1)" by simp
    from Suc.IH [OF this] Err rd show ?thesis by (intro pmove_step [OF refl]) simp_all
  qed (use Suc.prems rd in \<open>auto intro!: pmove_last\<close>)
qed

fun groups_end :: "gomap out \<Rightarrow> phase out" where
  "groups_end (Ok all) = Ok (Groups all [])"
| "groups_end (Err e) = Err e"
| "groups_end (Panic x) = Panic x"

lemma retry_runs:
  assumes "readWithRetry (pc_ReadBatch E) (pc_Reconnect E) c (d2_DeviceID (pl_set pol)) (fg_Function g)
     (extractPointAddresses (fg_Points g)) n w = (r, c1, w1)" "0 < n"
  shows "(pmove E ups pol)\<^sup>*\<^sup>* (Ok (Reading all g gs n), c, re, w) (read_ends all g gs r, c1, re, w1)"
  using assms reading_runs [of E pol g "n - 1" "Ok []" c w r c1 w1] by (simp add: readWithRetry_def)

lemma stored_run:
  assumes "(case store_values E (fg_Points g) vs all of
      Ok all2 \<Rightarrow> poll_groups E (d2_DeviceID (pl_set pol)) gs all2 c
        (fst (ApplyRules (en_gov E) re (d2_DeviceID (pl_set pol)) all2)) w
    | Err e \<Rightarrow> (Err e, c, re, w) | Panic x \<Rightarrow> (Panic x, c, re, w)) = (r, c1, re1, w1)"
    and "\<And>all c re w. poll_groups E (d2_DeviceID (pl_set pol)) gs all c re w = (r, c1, re1, w1) \<Longrightarrow>
      (pmove E ups pol)\<^sup>*\<^sup>* (Ok (Groups all gs), c, re, w) (groups_end r, c1, re1, w1)"
  shows "(pmove E ups pol)\<^sup>*\<^sup>* (Ok (Storing all g gs vs), c, re, w) (groups_end r, c1, re1, w1)"
proof (cases "store_values E (fg_Points g) vs all")
  case (Ok all2)
  with assms(1) have "poll_groups E (d2_DeviceID (pl_set pol)) gs all2 c
      (fst (ApplyRules (en_gov E) re (d2_DeviceID (pl_set pol)) all2)) w = (r, c1, re1, w1)" by simp
  from assms(2) [OF this] Ok show ?thesis by (intro pmove_step [OF refl]) simp_all
next
  case (Err e)
  then show ?thesis using store_values_no_Err by blast
next
  case (Panic x)
  with assms(1) have "r = Panic x" "c1 = c" "re1 = re" "w1 = w" by simp_all
  then show ?thesis using Panic by (auto intro!: pmove_last)
qed

lemma groups_run:
  "poll_groups E (d2_DeviceID (pl_set pol)) gs all c re w = (r, c1, re1, w1) \<Longrightarrow>
   (pmove E ups pol)\<^sup>*\<^sup>* (Ok (Groups all gs), c, re, w) (groups_end r, c1, re1, w1)"
proof (induction gs arbitrary: all c re w)
  case (Cons g gs)
  let ?all = "nil_points (fg_Points g) all"
  obtain r0 c0 w0 where rd: "readWithRetry (pc_ReadBatch E) (pc_Reconnect E) c (d2_DeviceID (pl_set pol))
      (fg_Function g) (extractPointAddresses (fg_Points g)) 3 w = (r0, c0, w0)" by (metis prod_cases3)
  have "(pmove E ups pol)\<^sup>*\<^sup>* (Ok (Groups all (g # gs)), c, re, w) (read_ends ?all g gs r0, c0, re, w0)"
    using retry_runs [OF rd] by (intro pmove_step [OF refl]) simp_all
  moreover have "(pmove E ups pol)\<^sup>*\<^sup>* (read_ends ?all g gs r0, c0, re, w0) (groups_end r, c1, re1, w1)"
  proof (cases r0)
    case (Ok vs)
    have "(pmove E ups pol)\<^sup>*\<^sup>* (Ok (Storing ?all g gs vs), c0, re, w0) (groups_end r, c1, re1, w1)"
      by (rule stored_run [OF _ Cons.IH])
        (use Cons.prems [unfolded poll_groups.simps Let_def] rd Ok in simp_all)
    with Ok show ?thesis by simp
  next
    case (Err e)
    have "(pmove E ups pol)\<^sup>*\<^sup>* (Ok (Storing ?all g gs []), c0, re, w0) (groups_end r, c1, re1, w1)"
      by (rule stored_run [OF _ Cons.IH])
        (use Cons.prems [unfolded poll_groups.simps Let_def] rd Err in simp_all)
    with Err show ?thesis by simp
  next
    case (Panic x)
    with Cons.prems rd show ?thesis by auto
  qed
  ultimately show ?case by simp
qed auto

fun round_ends :: "unit out \<Rightarrow> phase out" where
  "round_ends (Panic x) = Panic x"
| "round_ends r = Ok Idle"

lemma poll_groups_no_Err: "fst (poll_groups E dev gs all c re w) \<noteq> Err e"
  by (induction gs arbitrary: all c re w)
    (auto simp: Let_def store_values_no_Err split: prod.splits out.splits)

lemma round_runs:
  assumes "poll_round E ups pol c re w = (r, c1, re1, w1)"
  shows "(pmove E ups pol)\<^sup>*\<^sup>* (pstep E ups pol Idle c re w) (round_ends r, c1, re1, w1)"
proof -
  let ?c = "case round_slave (pl_config pol) of Some s \<Rightarrow> pc_SetSlave s c | None \<Rightarrow> c"
  obtain r0 c0 re0 w0 where g: "poll_groups E (d2_DeviceID (pl_set pol)) (d2_Functions (pl_set pol))
      Map.empty ?c re w = (r0, c0, re0, w0)" by (metis prod_cases4)
  have "(pmove E ups pol)\<^sup>*\<^sup>* (pstep E ups pol Idle c re w) (groups_end r0, c0, re0, w0)"
    using groups_run [OF g] by simp
  moreover have "(pmove E ups pol)\<^sup>*\<^sup>* (groups_end r0, c0, re0, w0) (round_ends r, c1, re1, w1)"
  proof (cases r0)
    case (Ok all)
    obtain r2 w2 where "SendToAll (en_net E) ups (EncodeDataReport (en_marshal E) (en_now E w0)
        (d2_DeviceID (pl_set pol)) all [] Map.empty) w0 = (r2, w2)" by (metis prod.exhaust)
    with assms g Ok show ?thesis
      by (cases r2) (auto simp: poll_round_def Let_def intro!: pmove_last)
  next
    case (Err e)
    then show ?thesis using poll_groups_no_Err [of E] g by (metis fst_conv)
  next
    case (Panic x)
    with assms g show ?thesis by (auto simp: poll_round_def Let_def)
  qed
  ultimately show ?thesis by simp
qed

text \<open>The state after some moves of poller \<open>i\<close> alone.\<close>

definition moved :: "'w sys \<Rightarrow> nat \<Rightarrow> poller \<Rightarrow> phase out \<times> pclient \<times> RuleEngine \<times> 'w \<Rightarrow> 'w sys \<Rightarrow> bool" where
  "moved s i pol x s1 \<longleftrightarrow>
     (case x of (r, c, re, w) \<Rightarrow>
        \<exists>ph. s1 = s\<lparr>sy_pool := (sy_pool s)\<lparr>po_clients := (po_clients (sy_pool s))[pl_client pol := c]\<rparr>,
                    sy_engine := re, sy_world := w, sy_running := (sy_running s)[i := (pol, ph)],
                    sy_crashed := panic_of r\<rparr> \<and>
          (\<forall>ph1. r = Ok ph1 \<longrightarrow> ph1 = ph))"

lemma moved_step:
  assumes "i < length (sy_running s)" "pl_client pol < length (po_clients (sy_pool s))"
    and "moved s i pol (Ok ph, c, re, w) s1"
  shows "moved s i pol (pstep E ups pol ph c re w) (poller_moves E ups i s1)"
proof -
  obtain r c1 re1 w1 where y: "pstep E ups pol ph c re w = (r, c1, re1, w1)" by (metis prod_cases4)
  have s1: "s1 = s\<lparr>sy_pool := (sy_pool s)\<lparr>po_clients := (po_clients (sy_pool s))[pl_client pol := c]\<rparr>,
      sy_engine := re, sy_world := w, sy_running := (sy_running s)[i := (pol, ph)], sy_crashed := None\<rparr>"
    using assms(3) by (simp add: moved_def)
  show ?thesis
    using assms(1,2) y pstep_no_Err [of E ups pol ph c re w]
    by (cases r) (auto simp: s1 poller_moves_def moved_def)
qed

lemma moved_steps:
  assumes "i < length (sy_running s)" "pl_client pol < length (po_clients (sy_pool s))"
    and "(pmove E ups pol)\<^sup>*\<^sup>* x y" "moved s i pol x s0"
  shows "\<exists>s1. (alone E ups i)\<^sup>*\<^sup>* s0 s1 \<and> moved s i pol y s1"
  using assms(3)
proof (induction rule: rtranclp_induct)
  case base
  with assms(4) show ?case by blast
next
  case (step y z)
  then obtain s1 where s1: "(alone E ups i)\<^sup>*\<^sup>* s0 s1" "moved s i pol y s1" by blast
  from step.hyps(2) obtain ph c re w where y: "y = (Ok ph, c, re, w)" and z: "pstep E ups pol ph c re w = z"
    and ph: "ph \<noteq> Idle" by (auto elim: pmoveE)
  have "alone E ups i s1 (poller_moves E ups i s1)"
    using s1(2) assms(1) ph by (auto simp: alone_def moved_def y)
  moreover have "moved s i pol z (poller_moves E ups i s1)"
    using moved_step [OF assms(1,2) s1(2) [unfolded y], of E ups] z by simp
  ultimately show ?case using s1(1) by (meson rtranclp.rtrancl_into_rtrancl)
qed

lemma moved_refl:
  assumes "i < length (sy_running s)" "sy_running s ! i = (pol, ph)" "sy_crashed s = None"
  shows "moved s i pol (Ok ph, po_clients (sy_pool s) ! pl_client pol, sy_engine s, sy_world s) s"
proof -
  have "(sy_running s)[i := (pol, ph)] = sy_running s" using assms(2) by (metis list_update_id)
  then show ?thesis using assms(3) by (auto simp: moved_def intro!: exI [of _ ph] sys.equality pool.equality)
qed

lemma round_alone:
  assumes "sy_crashed s = None" "i < length (sy_running s)" "sy_running s ! i = (pol, Idle)"
    and "pl_client pol < length (po_clients (sy_pool s))"
    and "poll_round E ups pol (po_clients (sy_pool s) ! pl_client pol) (sy_engine s) (sy_world s) =
      (r, c1, re1, w1)"
  shows "\<exists>s1. (alone E ups i)\<^sup>*\<^sup>* (poller_moves E ups i s) s1 \<and> moved s i pol (round_ends r, c1, re1, w1) s1"
  by (rule moved_steps [OF assms(2,4) round_runs [OF assms(5)]
        moved_step [OF assms(2,4) moved_refl [OF assms(2,3,1)]]])

lemma round_ends_panic: "panic_of (round_ends r) = panic_of r"
  by (cases r) simp_all

text \<open>C8: a round in one piece is what the calls of a poller make up that nobody interrupts: from
  between two rounds, taking its steps and nobody else's, neither another poller's nor a change
  outside, the poller gets to its next stop, between two rounds again or crashed, in exactly
  the state that the round computes: its client, the rules and the world replaced by the round's,
  every other client, poller and field as it was. The steps are steps of the process.\<close>

theorem uninterrupted_round:
  assumes "i < length (sy_running s)" "sy_running s ! i = (pol, Idle)" "sy_crashed s = None"
    and "k < length (po_clients (sy_pool s))" "pl_client pol = k"
    and "poll_round E ups pol (po_clients (sy_pool s) ! k) (sy_engine s) (sy_world s) = (r, c1, re1, w1)"
  shows "\<exists>s1 ph. (alone E ups i)\<^sup>*\<^sup>* (poller_moves E ups i s) s1 \<and> (\<forall>s2. \<not> alone E ups i s1 s2) \<and>
    s1 = s\<lparr>sy_pool := (sy_pool s)\<lparr>po_clients := (po_clients (sy_pool s))[k := c1]\<rparr>, sy_engine := re1,
           sy_world := w1, sy_running := (sy_running s)[i := (pol, ph)], sy_crashed := panic_of r\<rparr> \<and>
    (\<not> is_panic r \<longrightarrow> ph = Idle) \<and> (sstep E protoConf ups)\<^sup>*\<^sup>* s s1"
proof -
  have k: "pl_client pol < length (po_clients (sy_pool s))" using assms(4,5) by simp
  obtain s1 where s1: "(alone E ups i)\<^sup>*\<^sup>* (poller_moves E ups i s) s1"
    "moved s i pol (round_ends r, c1, re1, w1) s1"
    using round_alone [OF assms(3,1,2) k] assms(5,6) by blast
  from s1(2) obtain ph where e: "s1 = s\<lparr>sy_pool := (sy_pool s)\<lparr>po_clients := (po_clients (sy_pool s))[k := c1]\<rparr>,
      sy_engine := re1, sy_world := w1, sy_running := (sy_running s)[i := (pol, ph)], sy_crashed := panic_of r\<rparr>"
    and ph: "\<forall>ph1. round_ends r = Ok ph1 \<longrightarrow> ph1 = ph"
    using assms(5) round_ends_panic [of r] by (auto simp: moved_def)
  have idle: "\<not> is_panic r \<Longrightarrow> ph = Idle" using ph by (cases r) simp_all
  have "\<not> alone E ups i s1 s2" for s2
    using idle assms(1) by (cases r) (auto simp: alone_def e)
  moreover have "(sstep E protoConf ups)\<^sup>*\<^sup>* s s1"
    using sstep.moves [OF assms(3,1)] alone_ssteps [OF s1(1)] by (rule converse_rtranclp_into_rtranclp)
  ultimately show ?thesis using s1(1) e idle by blast
qed

section \<open>Two pollers on one client\<close>

text \<open>The state after a move that does not panic.\<close>

definition after_move :: "nat \<Rightarrow> poller \<Rightarrow> phase \<Rightarrow> pclient \<Rightarrow> RuleEngine \<Rightarrow> 'w \<Rightarrow> 'w sys \<Rightarrow> 'w sys" where
  "after_move i pol ph c re w s =
     s\<lparr>sy_pool := (sy_pool s)\<lparr>po_clients := (po_clients (sy_pool s))[pl_client pol := c]\<rparr>,
       sy_engine := re, sy_world := w, sy_running := (sy_running s)[i := (pol, ph)], sy_crashed := None\<rparr>"

lemma after_move_fields [simp]:
  "po_clients (sy_pool (after_move i pol ph c re w s)) = (po_clients (sy_pool s))[pl_client pol := c]"
  "sy_engine (after_move i pol ph c re w s) = re" "sy_world (after_move i pol ph c re w s) = w"
  "sy_running (after_move i pol ph c re w s) = (sy_running s)[i := (pol, ph)]"
  "sy_crashed (after_move i pol ph c re w s) = None"
  by (simp_all add: after_move_def)

lemma moves_after:
  assumes "sy_crashed s = None" "i < length (sy_running s)" "sy_running s ! i = (pol, ph)"
    and "pstep E ups pol ph (po_clients (sy_pool s) ! pl_client pol) (sy_engine s) (sy_world s) =
      (Ok ph1, c, re, w)"
  shows "sstep E protoConf ups s (after_move i pol ph1 c re w s)"
proof -
  have "poller_moves E ups i s = after_move i pol ph1 c re w s"
    using assms(3,4) by (simp add: poller_moves_def after_move_def)
  with sstep.moves [OF assms(1,2)] show ?thesis by metis
qed

lemma mb_ReadBatch_holding:
  "fn = ''03'' \<Longrightarrow> mb_ReadBatch lib srtr srtc m dev fn addrs w =
     reg_batch FHolding lib srtr m (map batch_config addrs) w"
  by (simp add: mb_ReadBatch_def reg_batch_def Let_def)

text \<open>C9: setting the slave before each round does not keep the devices behind one address apart: while
  one poller is between its \<open>SetSlave\<close> and its read, another on the same client can set its own,
  and the first one stores the other device's registers as its own points.\<close>

theorem slaves_mix:
  assumes "sy_crashed s = None" "i \<noteq> j" "i < length (sy_running s)" "j < length (sy_running s)"
    and "sy_running s ! i = (p1, Idle)" "sy_running s ! j = (p2, Idle)"
    and "pl_client p1 = k" "pl_client p2 = k" "k < length (po_clients (sy_pool s))"
    and "po_clients (sy_pool s) ! k = CModbus m" "mb_wf m" "client m = Some r"
    and "round_slave (pl_config p1) = Some s1" "round_slave (pl_config p2) = Some s2"
    and "d2_Functions (pl_set p1) = g # gs" "fg_Function g = ''03''"
    and "serves_regs (en_mb E) FHolding regs" "slice_sort (en_srtr E)"
    and "parse_points (map batch_config (extractPointAddresses (fg_Points g))) = Inr aps"
    and "\<forall>p \<in> set aps. fits p"
  shows "\<exists>s' all vs. (sstep E protoConf ups)\<^sup>*\<^sup>* s s' \<and> sy_running s' ! i = (p1, Storing all g gs vs) \<and>
    mset (map reading vs) = mset (map (reg_ref (regs s2)) aps)"
proof -
  let ?c1 = "CModbus (SetSlave s1 m)" and ?c2 = "CModbus (SetSlave s2 (SetSlave s1 m))"
  let ?all = "nil_points (fg_Points g) Map.empty" and ?re = "sy_engine s"
  let ?sa = "after_move i p1 (Groups Map.empty (g # gs)) ?c1 ?re (sy_world s) s"
  let ?sb = "after_move i p1 (Reading ?all g gs 3) ?c1 ?re (sy_world s) ?sa"
  let ?sc = "after_move j p2 (Groups Map.empty (d2_Functions (pl_set p2))) ?c2 ?re (sy_world s) ?sb"
  obtain vs w1 where rd: "reg_batch FHolding (en_mb E) (en_srtr E) (SetSlave s2 (SetSlave s1 m))
      (map batch_config (extractPointAddresses (fg_Points g))) (sy_world s) = (Ok vs, w1)"
    and vs: "mset (map reading vs) = mset (map (reg_ref (regs s2)) aps)"
    using slave_race [OF assms(11,12,17) _ assms(18-20), of s2 s1 "sy_world s"] by blast
  let ?sd = "after_move i p1 (Storing ?all g gs vs) ?c2 ?re w1 ?sc"
  have a0: "pstep E ups p1 Idle (CModbus m) ?re (sy_world s) =
      (Ok (Groups Map.empty (g # gs)), ?c1, ?re, sy_world s)"
    by (simp add: assms(13,15))
  have b0: "pstep E ups p1 (Reading ?all g gs 3) ?c2 ?re (sy_world s) = (Ok (Storing ?all g gs vs), ?c2, ?re, w1)"
    using rd by (simp add: eval_nat_numeral mb_ReadBatch_holding [OF assms(16)])
  have c0: "pstep E ups p2 Idle ?c1 ?re (sy_world s) =
      (Ok (Groups Map.empty (d2_Functions (pl_set p2))), ?c2, ?re, sy_world s)"
    by (simp add: assms(14))
  note st = assms(1-10) assms(2) [symmetric]
  have a: "sstep E protoConf ups s ?sa"
    by (rule moves_after [where ph = Idle]) (simp_all add: st a0 del: pstep.simps)
  have b: "sstep E protoConf ups ?sa ?sb"
    by (rule moves_after [where ph = "Groups Map.empty (g # gs)"]) (simp_all add: st)
  have c: "sstep E protoConf ups ?sb ?sc"
    by (rule moves_after [where ph = Idle]) (simp_all add: st c0 del: pstep.simps)
  have d: "sstep E protoConf ups ?sc ?sd"
    by (rule moves_after [where ph = "Reading ?all g gs 3"]) (simp_all add: st b0 del: pstep.simps)
  have "(sstep E protoConf ups)\<^sup>*\<^sup>* s ?sd"
    using a b c d by (meson rtranclp.rtrancl_into_rtrancl rtranclp.rtrancl_refl)
  then show ?thesis using vs assms(3) by (intro exI [of _ ?sd]) auto
qed

lemma gateway_idle:
  "(sstep gateway_env slave_protocols [])\<^sup>*\<^sup>* (gateway_started Starting Starting) (gateway_started Idle Idle)"
proof -
  have p: "pstep gateway_env [] (slave_poller i n) Starting c re w = (Ok Idle, c, re, w)" for i n c re w
    by (simp add: slave_poller_def word_sle_eq)
  have f: "after_move k pol ph (CModbus (SetSlave 2 (SetSlave 1 demo_client))) (NewRuleEngine [] [] []) ()
      (gateway_sys [] (gateway_pool (SetSlave 2 (SetSlave 1 demo_client))) running) =
      gateway_sys [] (gateway_pool (SetSlave 2 (SetSlave 1 demo_client))) (running[k := (pol, ph)])"
    if "pl_client pol = 0" for k pol ph running
    using that by (simp add: after_move_def gateway_sys_def gateway_pool_def)
  have g: "po_clients (sy_pool (gateway_started ph1 ph2)) = [CModbus (SetSlave 2 (SetSlave 1 demo_client))]"
    "sy_running (gateway_started ph1 ph2) = [(slave_poller ''a'' 1, ph1), (slave_poller ''b'' 2, ph2)]"
    "sy_crashed (gateway_started ph1 ph2) = None" "sy_engine (gateway_started ph1 ph2) = NewRuleEngine [] [] []"
    for ph1 ph2 by (simp_all add: gateway_started_def gateway_sys_def gateway_pool_def)
  have c: "pl_client (slave_poller i n) = 0" for i n by (simp add: slave_poller_def)
  have "sstep gateway_env slave_protocols [] (gateway_started Starting Starting)
      (after_move 0 (slave_poller ''a'' 1) Idle (CModbus (SetSlave 2 (SetSlave 1 demo_client)))
        (NewRuleEngine [] [] []) () (gateway_started Starting Starting))"
    by (rule moves_after [where ph = Starting]) (simp_all add: g p c del: pstep.simps)
  also have "\<dots> = gateway_started Idle Starting"
    by (simp add: gateway_started_def f c)
  finally have a: "sstep gateway_env slave_protocols [] (gateway_started Starting Starting)
      (gateway_started Idle Starting)" .
  have "sstep gateway_env slave_protocols [] (gateway_started Idle Starting)
      (after_move 1 (slave_poller ''b'' 2) Idle (CModbus (SetSlave 2 (SetSlave 1 demo_client)))
        (NewRuleEngine [] [] []) () (gateway_started Idle Starting))"
    by (rule moves_after [where ph = Starting]) (simp_all add: g p c del: pstep.simps)
  also have "\<dots> = gateway_started Idle Idle"
    by (simp add: gateway_started_def f c)
  finally show ?thesis using a by (meson rtranclp.rtrancl_into_rtrancl rtranclp.rtrancl_refl)
qed

theorem slaves_mix_witness:
  "\<exists>s all vs. reachable gateway_env [] s \<and>
     sy_running s ! 0 = (slave_poller ''a'' 1, Storing all slave_group [] vs) \<and>
     map reading vs = [(''10'', VUint16 2, ''good'')]"
proof -
  let ?s = "gateway_started Idle Idle" and ?m = "SetSlave 2 (SetSlave 1 demo_client)"
  have m: "mb_wf ?m" "client ?m = Some 0"
    by (simp_all add: mb_wf_SetSlave demo_client_def SetSlave_def mb_wf_def)
  have aps: "parse_points (map batch_config (extractPointAddresses (fg_Points slave_group))) =
      Inr [AddrPoint 9 ''10'' []]"
    by code_simp
  have fit: "\<forall>p \<in> set [AddrPoint 9 ''10'' []]. fits p" by (simp add: fits_def demo_counts)
  have srt: "slice_sort (en_srtr gateway_env)"
    by (simp add: gateway_env_def demo_env_def slice_sort_sort_key)
  have srv: "serves_regs (en_mb gateway_env) FHolding (\<lambda>s a. ucast s)"
    using plain_serves [OF disjI1 [OF refl], of "\<lambda>s a. ucast s"] by (simp add: gateway_env_def)
  have rs: "round_slave (pl_config (slave_poller ''a'' 1)) = Some 1"
    "round_slave (pl_config (slave_poller ''b'' 2)) = Some 2"
    by (simp_all add: round_slave_def slave_poller_def slave_config)
  obtain s' all vs where s': "(sstep gateway_env slave_protocols [])\<^sup>*\<^sup>* ?s s'"
    "sy_running s' ! 0 = (slave_poller ''a'' 1, Storing all slave_group [] vs)"
    and vs: "mset (map reading vs) = mset (map (reg_ref (\<lambda>a. ucast (2::byte))) [AddrPoint 9 ''10'' []])"
    using slaves_mix [of ?s 0 1 "slave_poller ''a'' 1" "slave_poller ''b'' 2" 0 ?m 0 1 2 slave_group "[]"
        gateway_env "\<lambda>s a. ucast s" "[AddrPoint 9 ''10'' []]" slave_protocols "[]", OF _ _ _ _ _ _ _ _ _ _ m rs _ _ srv srt aps fit]
    by (auto simp: gateway_started_def gateway_sys_def gateway_pool_def slave_poller_def slave_set_def slave_group_def)
  have "reachable gateway_env [] s'"
    by (rule reachable.started [OF gateway_start]) (use gateway_steps gateway_idle s'(1) in auto)
  moreover have "map reading vs = [(''10'', VUint16 2, ''good'')]"
    using vs by (simp add: reg_ref_def demo_counts mset_single_iff del: mset_map)
  ultimately show ?thesis using s'(2) by (intro exI [of _ s'] exI [of _ all] exI [of _ vs] conjI)
qed

theorem uninterrupted_round_witness:
  "\<exists>r c1 re1 s1. poll_round gateway_env [] (slave_poller ''a'' 1) (CModbus (SetSlave 2 (SetSlave 1 demo_client)))
       (NewRuleEngine [] [] []) () = (r, c1, re1, ()) \<and>
     (alone gateway_env [] 0)\<^sup>*\<^sup>* (poller_moves gateway_env [] 0 (gateway_started Idle Idle)) s1 \<and>
     reachable gateway_env [] s1 \<and> po_clients (sy_pool s1) = [c1] \<and> sy_crashed s1 = panic_of r"
proof -
  let ?s = "gateway_started Idle Idle" and ?p = "slave_poller ''a'' 1"
  have g: "sy_running ?s ! 0 = (?p, Idle)" "sy_crashed ?s = None" "0 < length (sy_running ?s)"
    "0 < length (po_clients (sy_pool ?s))" "sy_engine ?s = NewRuleEngine [] [] []"
    "po_clients (sy_pool ?s) = [CModbus (SetSlave 2 (SetSlave 1 demo_client))]" "pl_client ?p = 0"
    by (simp_all add: gateway_started_def gateway_sys_def gateway_pool_def slave_poller_def)
  obtain r c1 re1 w1 where p: "poll_round gateway_env [] ?p (po_clients (sy_pool ?s) ! 0) (sy_engine ?s)
      (sy_world ?s) = (r, c1, re1, w1)" by (metis prod_cases4)
  from uninterrupted_round [OF g(3,1,2,4,7) p, of slave_protocols] obtain s1 ph where
    s1: "(alone gateway_env [] 0)\<^sup>*\<^sup>* (poller_moves gateway_env [] 0 ?s) s1"
    "(sstep gateway_env slave_protocols [])\<^sup>*\<^sup>* ?s s1"
    and e: "s1 = ?s\<lparr>sy_pool := (sy_pool ?s)\<lparr>po_clients := (po_clients (sy_pool ?s))[0 := c1]\<rparr>, sy_engine := re1,
      sy_world := w1, sy_running := (sy_running ?s)[0 := (?p, ph)], sy_crashed := panic_of r\<rparr>" by blast
  have "po_clients (sy_pool s1) = [c1]" "sy_crashed s1 = panic_of r" by (simp_all add: e g(6))
  moreover have "reachable gateway_env [] s1"
    by (rule reachable.started [OF gateway_start]) (use gateway_steps gateway_idle s1(2) in auto)
  ultimately show ?thesis
    using p s1(1) by (intro exI [of _ r] exI [of _ c1] exI [of _ re1] exI [of _ s1]) (simp add: g)
qed

section \<open>What ends the process\<close>

lemma SetSlave_nil: "client n = None \<Longrightarrow> client (SetSlave b n) = None"
  by (simp add: SetSlave_def split: option.splits)

lemma round_slave_client:
  "client m \<noteq> None \<Longrightarrow> pc_wf E (CModbus m) \<Longrightarrow>
   \<exists>n. (case opt of Some b \<Rightarrow> pc_SetSlave b (CModbus m) | None \<Rightarrow> CModbus m) = CModbus n \<and>
     client n \<noteq> None \<and> pc_wf E (CModbus n)"
  using pc_wf_SetSlave [of E "CModbus m"] by (cases opt) (auto simp: SetSlave_def split: option.splits)

text \<open>A poller whose first group has points, all with addresses that are numbers.\<close>

definition asks :: "poller \<Rightarrow> bool" where
  "asks pol \<longleftrightarrow>
     (case d2_Functions (pl_set pol) of
        [] \<Rightarrow> False
      | g # gs \<Rightarrow> fg_Points g \<noteq> [] \<and> addresses_ok (extractPointAddresses (fg_Points g)))"

lemma groups_nil:
  assumes "slice_sort (en_srtr E)" "slice_sort (en_srtc E)" "client n = None"
    and "fg_Points g \<noteq> []" "addresses_ok (extractPointAddresses (fg_Points g))"
  shows "fst (poll_groups E dev (g # gs) all (CModbus n) re w) = Panic NilDeref"
  using nil_read [OF assms(1-3) _ assms(5)] assms(4) by (simp add: Let_def)

lemma groups_lost:
  assumes "pc_wf E (CModbus m)" "client m \<noteq> None" "unreachable (en_mb E)"
    and "fg_Points g \<noteq> []" "addresses_ok (extractPointAddresses (fg_Points g))"
  shows "\<exists>n re1 w1 all1. client n = None \<and>
    poll_groups E dev (g # gs) all (CModbus m) re w = poll_groups E dev gs all1 (CModbus n) re1 w1"
proof -
  obtain r0 c0 w0 where rd: "readWithRetry (pc_ReadBatch E) (pc_Reconnect E) (CModbus m) dev (fg_Function g)
      (extractPointAddresses (fg_Points g)) 3 w = (r0, c0, w0)"
    by (metis prod_cases3)
  have "extractPointAddresses (fg_Points g) \<noteq> []" using assms(4) by simp
  from lost_read [OF assms(1-3) this assms(5) rd] obtain e n
    where "r0 = Err e" "c0 = CModbus n" "client n = None" by blast
  with rd show ?thesis by (auto simp: Let_def)
qed

lemma poll_round_nil:
  assumes "slice_sort (en_srtr E)" "slice_sort (en_srtc E)" "client n = None" "asks pol"
  shows "fst (poll_round E ups pol (CModbus n) re w) = Panic NilDeref"
proof -
  obtain g gs where g: "d2_Functions (pl_set pol) = g # gs" "fg_Points g \<noteq> []"
    "addresses_ok (extractPointAddresses (fg_Points g))"
    using assms(4) by (auto simp: asks_def split: list.splits)
  obtain n1 where n1: "(case round_slave (pl_config pol) of Some b \<Rightarrow> pc_SetSlave b (CModbus n)
      | None \<Rightarrow> CModbus n) = CModbus n1" "client n1 = None"
    using assms(3) SetSlave_nil by (cases "round_slave (pl_config pol)") auto
  obtain x y where "poll_groups E (d2_DeviceID (pl_set pol)) (g # gs) Map.empty (CModbus n1) re w = (x, y)"
    by (metis prod.exhaust)
  with groups_nil [OF assms(1,2) n1(2) g(2,3), of "d2_DeviceID (pl_set pol)" gs Map.empty re w]
  show ?thesis by (cases y) (simp add: poll_round_def Let_def g(1) n1(1) del: poll_groups.simps)
qed

lemma poll_round_lost:
  assumes "pc_wf E (CModbus m)" "client m \<noteq> None" "unreachable (en_mb E)" "\<forall>up \<in> set ups. up_ready up"
    and "d2_Functions (pl_set pol) = g # gs"
    and "\<forall>g \<in> set (d2_Functions (pl_set pol)).
      fg_Points g \<noteq> [] \<and> addresses_ok (extractPointAddresses (fg_Points g))"
    and "poll_round E ups pol (CModbus m) re w = (r, c1, re1, w1)"
  shows "if gs = [] then r = Ok () \<and> (\<exists>n. c1 = CModbus n \<and> client n = None) else r = Panic NilDeref"
proof -
  obtain n where n: "(case round_slave (pl_config pol) of Some b \<Rightarrow> pc_SetSlave b (CModbus m)
      | None \<Rightarrow> CModbus m) = CModbus n" "client n \<noteq> None" "pc_wf E (CModbus n)"
    using round_slave_client [OF assms(2,1)] by blast
  have srt: "slice_sort (en_srtr E)" "slice_sort (en_srtc E)" using assms(1) by (simp_all add: pc_wf_def)
  have "fg_Points g \<noteq> []" "addresses_ok (extractPointAddresses (fg_Points g))" using assms(5,6) by auto
  from groups_lost [OF n(3,2) assms(3) this] obtain n1 re2 w2 all2 where n1: "client n1 = None"
    and eq: "poll_groups E (d2_DeviceID (pl_set pol)) (g # gs) Map.empty (CModbus n) re w =
      poll_groups E (d2_DeviceID (pl_set pol)) gs all2 (CModbus n1) re2 w2" by blast
  show ?thesis
  proof (cases gs)
    case Nil
    with assms(5,7) n(1) n1 eq show ?thesis
      by (auto simp: poll_round_def Let_def SendToAll_ready [OF assms(4)] simp del: poll_groups.simps(2))
  next
    case (Cons g2 gs2)
    have "fg_Points g2 \<noteq> []" "addresses_ok (extractPointAddresses (fg_Points g2))"
      using assms(5,6) Cons by auto
    from groups_nil [OF srt n1 this, of "d2_DeviceID (pl_set pol)" gs2 all2 re2 w2] obtain y
      where "poll_groups E (d2_DeviceID (pl_set pol)) gs all2 (CModbus n1) re2 w2 = (Panic NilDeref, y)"
      unfolding Cons by (metis prod.collapse)
    with assms(5,7) n(1) eq Cons show ?thesis
      by (cases y) (simp add: poll_round_def Let_def del: poll_groups.simps)
  qed
qed

text \<open>A client that is nil stays so, whatever the pollers do, while the device cannot be reached.\<close>

definition nil_at :: "nat \<Rightarrow> 'w sys \<Rightarrow> bool" where
  "nil_at k s \<longleftrightarrow> k < length (po_clients (sy_pool s)) \<and>
     (\<exists>n. po_clients (sy_pool s) ! k = CModbus n \<and> client n = None)"

lemma pstep_nil:
  assumes "client n = None" "unreachable (en_mb E)" "pstep E ups pol ph (CModbus n) re w = (r, c, re1, w1)"
  shows "\<exists>n1. c = CModbus n1 \<and> client n1 = None"
proof (cases ph)
  case (Groups all gs)
  with assms show ?thesis by (cases gs) (auto split: prod.splits out.splits)
next
  case (Reading all g gs k)
  with assms show ?thesis by (cases k) (auto split: prod.splits out.splits)
next
  case (Reconnecting all g gs)
  with assms show ?thesis by (auto dest: unreachable_Reconnect split: prod.splits)
next
  case (Storing all g gs vs)
  with assms show ?thesis by (auto split: out.splits)
next
  case Idle
  with assms SetSlave_nil show ?thesis by (auto split: option.splits)
next
  case Starting
  with assms show ?thesis by auto
qed

lemma start_poller_pool:
  assumes "start_poller E protoConf dset devMap p w = (opol, devMap1, p1, w1)"
  shows "p1 = p \<or> (\<exists>protocol config x p2 w2. getOrCreateClient E protocol config p w = (x, p2, w2) \<and>
    (p1 = p2 \<or> (\<exists>i b. p1 = p2\<lparr>po_clients := (po_clients p2)[i := pc_SetSlave b (po_clients p2 ! i)]\<rparr>)))"
proof (cases "devMap (d2_DeviceID dset)")
  case None
  with assms show ?thesis by (simp add: start_poller_def)
next
  case (Some dev)
  let ?proto = "if d2_Protocol dset \<noteq> [] then d2_Protocol dset else dm_Protocol (dc_Meta dev)"
  let ?name = "if d2_ProtocolName dset \<noteq> [] then d2_ProtocolName dset else dm_ProtocolName (dc_Meta dev)"
  show ?thesis
  proof (cases "find_params (protoConf ?proto) ?name")
    case None
    with assms Some show ?thesis by (simp add: start_poller_def Let_def split del: if_split)
  next
    case (Some ps)
    obtain x p2 w2 where g: "getOrCreateClient E ?proto (merged_config dev ps) p w = (x, p2, w2)"
      by (metis prod_cases3)
    have "p1 = p2 \<or> (\<exists>i b. p1 = p2\<lparr>po_clients := (po_clients p2)[i := pc_SetSlave b (po_clients p2 ! i)]\<rparr>)"
      using assms \<open>devMap (d2_DeviceID dset) = Some dev\<close> Some g
      by (cases x) (simp_all add: start_poller_def Let_def split del: if_split, blast)
    with g show ?thesis by blast
  qed
qed

lemma start_poller_nil:
  assumes "start_poller E protoConf dset devMap p w = (opol, devMap1, p1, w1)"
    and "k < length (po_clients p)" "po_clients p ! k = CModbus n" "client n = None"
  shows "k < length (po_clients p1) \<and> (\<exists>n1. po_clients p1 ! k = CModbus n1 \<and> client n1 = None)"
proof -
  have got: "k < length (po_clients p2) \<and> po_clients p2 ! k = CModbus n"
    if "getOrCreateClient E protocol config p w = (x, p2, w2)" for protocol config x p2 w2
    using that assms(2,3) by (auto simp: getOrCreateClient_def Let_def nth_append
        split: option.splits sum.splits prod.splits)
  from start_poller_pool [OF assms(1)] show ?thesis
  proof (elim disjE exE conjE)
    fix protocol config x p2 w2 i b
    assume g: "getOrCreateClient E protocol config p w = (x, p2, w2)"
      and p1: "p1 = p2\<lparr>po_clients := (po_clients p2)[i := pc_SetSlave b (po_clients p2 ! i)]\<rparr>"
    show ?thesis
      using got [OF g] assms(4) SetSlave_nil [OF assms(4), of b] by (cases "i = k") (simp_all add: p1)
  qed (use assms(2-4) got in auto)
qed

lemma sstep_nil:
  assumes "sstep E protoConf ups s s1" "nil_at k s" "unreachable (en_mb E)"
  shows "nil_at k s1"
  using assms(1)
proof cases
  case starts
  show ?thesis
  proof (cases "sy_sets s")
    case (Cons dset dsets)
    obtain opol dm p w where "start_poller E protoConf dset (sy_devMap s) (sy_pool s) (sy_world s) =
        (opol, dm, p, w)" by (metis prod_cases4)
    with start_poller_nil [OF this] assms(2) Cons show ?thesis
      by (auto simp: starts(1) next_set_def nil_at_def)
  qed (use assms(2) in \<open>simp add: starts(1) next_set_def\<close>)
next
  case (moves i)
  obtain pol ph where i: "sy_running s ! i = (pol, ph)" by (metis prod.exhaust)
  obtain r c re w where st: "pstep E ups pol ph (po_clients (sy_pool s) ! pl_client pol) (sy_engine s)
      (sy_world s) = (r, c, re, w)" by (metis prod_cases4)
  from assms(2) obtain n where n: "k < length (po_clients (sy_pool s))"
    "po_clients (sy_pool s) ! k = CModbus n" "client n = None" by (auto simp: nil_at_def)
  show ?thesis
  proof (cases "pl_client pol = k")
    case True
    with st n have "pstep E ups pol ph (CModbus n) (sy_engine s) (sy_world s) = (r, c, re, w)" by simp
    from pstep_nil [OF n(3) assms(3) this] n(1) st show ?thesis
      by (auto simp: moves(1) poller_moves_def i nil_at_def True)
  next
    case False
    with n st show ?thesis by (auto simp: moves(1) poller_moves_def i nil_at_def)
  qed
qed (use assms(2) in \<open>auto simp: nil_at_def\<close>)

lemma ssteps_nil:
  assumes "(sstep E protoConf ups)\<^sup>*\<^sup>* s s1" "nil_at k s" "unreachable (en_mb E)"
  shows "nil_at k s1"
  using assms(1) by (induction rule: rtranclp_induct) (use assms(2,3) in \<open>auto intro: sstep_nil\<close>)

lemma nil_round_crashes:
  assumes "slice_sort (en_srtr E)" "slice_sort (en_srtc E)" "nil_at k s" "sy_crashed s = None"
    and "j < length (sy_running s)" "sy_running s ! j = (pol, Idle)" "pl_client pol = k" "asks pol"
  shows "\<exists>s1. (alone E ups j)\<^sup>*\<^sup>* (poller_moves E ups j s) s1 \<and> sy_crashed s1 = Some NilDeref"
proof -
  from assms(3,7) obtain n where n: "pl_client pol < length (po_clients (sy_pool s))"
    "po_clients (sy_pool s) ! pl_client pol = CModbus n" "client n = None" by (auto simp: nil_at_def)
  from poll_round_nil [OF assms(1,2) n(3) assms(8), of ups "sy_engine s" "sy_world s"] obtain c re w where
    "poll_round E ups pol (CModbus n) (sy_engine s) (sy_world s) = (Panic NilDeref, c, re, w)"
    by (metis prod.collapse)
  from round_alone [OF assms(4-6) n(1), unfolded n(2), OF this] show ?thesis
    by (auto simp: moved_def)
qed

text \<open>C1: one Modbus device that cannot be reached ends the process. With a single group to read, the
  next round of its poller returns as if nothing were wrong, other pollers untouched, but the
  reconnection at its end has left the shared client nil. From then on, whatever other pollers,
  reloads and changes outside come between, every poller of that client, whichever device it is
  for, panics with a nil dereference in the first read of its next round. With more groups the
  round itself panics, in the read of its second group.\<close>

theorem lost_device_stops_process:
  assumes "sy_crashed s = None" "i < length (sy_running s)" "sy_running s ! i = (pol, Idle)"
    and "pl_client pol < length (po_clients (sy_pool s))"
    and "po_clients (sy_pool s) ! pl_client pol = CModbus m" "client m \<noteq> None"
    and "pc_wf E (CModbus m)" "unreachable (en_mb E)" "\<forall>up \<in> set ups. up_ready up"
    and "d2_Functions (pl_set pol) = g # gs"
    and "\<forall>g \<in> set (d2_Functions (pl_set pol)).
      fg_Points g \<noteq> [] \<and> addresses_ok (extractPointAddresses (fg_Points g))"
  shows "\<exists>s1. (alone E ups i)\<^sup>*\<^sup>* (poller_moves E ups i s) s1 \<and>
    (if gs = [] then
       sy_crashed s1 = None \<and> sy_running s1 = sy_running s \<and>
       (\<exists>n. po_clients (sy_pool s1) ! pl_client pol = CModbus n \<and> client n = None) \<and>
       (\<forall>s2 j pol2. (sstep E protoConf ups)\<^sup>*\<^sup>* s1 s2 \<longrightarrow> sy_crashed s2 = None \<longrightarrow>
          j < length (sy_running s2) \<longrightarrow> sy_running s2 ! j = (pol2, Idle) \<longrightarrow>
          pl_client pol2 = pl_client pol \<longrightarrow> asks pol2 \<longrightarrow>
          (\<exists>s3. (alone E ups j)\<^sup>*\<^sup>* (poller_moves E ups j s2) s3 \<and> sy_crashed s3 = Some NilDeref))
     else sy_crashed s1 = Some NilDeref)"
proof -
  have srt: "slice_sort (en_srtr E)" "slice_sort (en_srtc E)" using assms(7) by (simp_all add: pc_wf_def)
  obtain r c1 re1 w1 where p: "poll_round E ups pol (CModbus m) (sy_engine s) (sy_world s) = (r, c1, re1, w1)"
    by (metis prod_cases4)
  note lost = poll_round_lost [OF assms(7,6,8-11) p]
  obtain s1 where s1: "(alone E ups i)\<^sup>*\<^sup>* (poller_moves E ups i s) s1"
    "moved s i pol (round_ends r, c1, re1, w1) s1"
    using round_alone [OF assms(1-4), unfolded assms(5), OF p] by blast
  show ?thesis
  proof (cases "gs = []")
    case True
    with lost obtain n where n: "r = Ok ()" "c1 = CModbus n" "client n = None" by auto
    have "(sy_running s)[i := (pol, Idle)] = sy_running s" using assms(3) by (metis list_update_id)
    with s1(2) have a: "sy_crashed s1 = None" "sy_running s1 = sy_running s"
      "po_clients (sy_pool s1) ! pl_client pol = CModbus n"
      using assms(4) by (auto simp: moved_def n(1,2))
    have "nil_at (pl_client pol) s1" using s1(2) assms(4) n by (auto simp: moved_def nil_at_def)
    note nil = ssteps_nil [OF _ this assms(8)]
    show ?thesis
      by (intro exI [of _ s1]) (use True s1(1) a n(3) nil_round_crashes [OF srt nil] in auto)
  next
    case False
    with lost s1 show ?thesis by (intro exI [of _ s1]) (auto simp: moved_def)
  qed
qed

text \<open>The witness: the device of the first poller is lost, and the second poller, of another device
  behind the same address, panics.\<close>

theorem lost_device_stops_process_witness:
  "\<exists>s1 s2. (alone dead_env [] 0)\<^sup>*\<^sup>* (poller_moves dead_env [] 0
      (gateway_sys [] (gateway_pool demo_client) [(slave_poller ''a'' 1, Idle), (slave_poller ''b'' 2, Idle)])) s1 \<and>
    sy_crashed s1 = None \<and> (alone dead_env [] 1)\<^sup>*\<^sup>* (poller_moves dead_env [] 1 s1) s2 \<and>
    sy_crashed s2 = Some NilDeref"
proof -
  let ?s = "gateway_sys [] (gateway_pool demo_client) [(slave_poller ''a'' 1, Idle), (slave_poller ''b'' 2, Idle)]"
  let ?a = "slave_poller ''a'' 1" and ?b = "slave_poller ''b'' 2"
  have wf: "pc_wf dead_env (CModbus demo_client)"
    using demo_pc_wf by (simp add: pc_wf_def dead_env_def)
  have un: "unreachable (en_mb dead_env)"
    by (simp add: unreachable_def dead_env_def plain_device_def)
  have "parseAddress ''10'' = Inr 9" by code_simp
  then have ok: "fg_Points slave_group \<noteq> []" "addresses_ok (extractPointAddresses (fg_Points slave_group))"
    by (simp_all add: addresses_ok_def slave_group_def demo_point_def)
  have f: "d2_Functions (pl_set (slave_poller i n)) = [slave_group]" "pl_client (slave_poller i n) = 0" for i n
    by (simp_all add: slave_poller_def slave_set_def)
  have g: "sy_crashed ?s = None" "0 < length (sy_running ?s)" "sy_running ?s ! 0 = (?a, Idle)"
    "pl_client ?a < length (po_clients (sy_pool ?s))" "po_clients (sy_pool ?s) ! pl_client ?a = CModbus demo_client"
    "client demo_client \<noteq> None" "sy_running ?s ! 1 = (?b, Idle)" "1 < length (sy_running ?s)"
    by (simp_all add: gateway_sys_def gateway_pool_def f demo_client_def)
  have asks: "asks ?b" using ok by (simp add: asks_def f)
  have all: "\<forall>g \<in> set (d2_Functions (pl_set ?a)). fg_Points g \<noteq> [] \<and>
      addresses_ok (extractPointAddresses (fg_Points g))" using ok by (simp add: f)
  from lost_device_stops_process [OF g(1-6) wf un _ f(1) all, of "[]" slave_protocols]
  obtain s1 where s1: "(alone dead_env [] 0)\<^sup>*\<^sup>* (poller_moves dead_env [] 0 ?s) s1" "sy_crashed s1 = None"
    "sy_running s1 = sy_running ?s"
    and later: "\<And>s2 j pol2. (sstep dead_env slave_protocols [])\<^sup>*\<^sup>* s1 s2 \<Longrightarrow> sy_crashed s2 = None \<Longrightarrow>
      j < length (sy_running s2) \<Longrightarrow> sy_running s2 ! j = (pol2, Idle) \<Longrightarrow> pl_client pol2 = pl_client ?a \<Longrightarrow>
      asks pol2 \<Longrightarrow> \<exists>s3. (alone dead_env [] j)\<^sup>*\<^sup>* (poller_moves dead_env [] j s2) s3 \<and> sy_crashed s3 = Some NilDeref"
    by auto
  from later [OF rtranclp.rtrancl_refl s1(2), of 1 ?b] s1 g(7,8) asks show ?thesis
    by (auto simp: f)
qed

lemma meta_interval: "map_of (meta_fields meta) ''interval'' = Some (VStr (dm_Interval meta))"
  by (simp add: meta_fields_def)

lemma start_poller_interval:
  assumes "start_poller E protoConf dset devMap p w = (Some pol, devMap1, p1, w1)"
    and "devMap (d2_DeviceID dset) = Some dev"
  shows "\<exists>ps. pl_interval pol = poll_interval E (merged_config dev ps)"
proof -
  let ?name = "if d2_ProtocolName dset \<noteq> [] then d2_ProtocolName dset else dm_ProtocolName (dc_Meta dev)"
  let ?proto = "if d2_Protocol dset \<noteq> [] then d2_Protocol dset else dm_Protocol (dc_Meta dev)"
  obtain ps where ps: "find_params (protoConf ?proto) ?name = Some ps"
    using assms by (cases "find_params (protoConf ?proto) ?name")
      (simp_all add: start_poller_def Let_def split del: if_split)
  obtain r p2 w2 where g: "getOrCreateClient E ?proto (merged_config dev ps) p w = (r, p2, w2)"
    by (metis prod_cases3)
  from assms ps g have "pl_interval pol = poll_interval E (merged_config dev ps)"
    by (cases r) (simp_all add: start_poller_def Let_def split del: if_split, metis poller.select_convs(4))
  then show ?thesis ..
qed

text \<open>A device whose own configuration has no interval and whose entry has a duration of zero or
  less ends the process as soon as its poller starts.\<close>

theorem zero_interval_crashes:
  assumes "sy_crashed s = None" "sy_sets s = dset # dsets" "sy_devMap s (d2_DeviceID dset) = Some dev"
    and "start_poller E protoConf dset (sy_devMap s) (sy_pool s) (sy_world s) = (Some pol, devMap1, p1, w1)"
    and "(case dc_Config dev of None \<Rightarrow> None | Some c \<Rightarrow> c ''interval'') = None"
    and "en_parse_duration E (dm_Interval (dc_Meta dev)) = Some d" "d \<le>s 0"
  shows "\<exists>s1. (sstep E protoConf ups)\<^sup>*\<^sup>* s s1 \<and> sy_crashed s1 = Some no_ticker"
proof -
  let ?s1 = "next_set E protoConf s" and ?i = "length (sy_running s)"
  have i: "merged_config dev ps ''interval'' = Some (VStr (dm_Interval (dc_Meta dev)))" for ps
    using assms(5) by (cases "dc_Config dev")
      (simp_all add: merged_config_def injectDeviceMeta_def add_missing_lookup meta_interval Let_def)
  obtain ps where "pl_interval pol = poll_interval E (merged_config dev ps)"
    using start_poller_interval [OF assms(4,3)] by blast
  then have "pl_interval pol = d" by (simp add: poll_interval_def i assms(6))
  moreover have r: "sy_running ?s1 = sy_running s @ [(pol, Starting)]" "sy_crashed ?s1 = None"
    using assms(1,2,4) by (simp_all add: next_set_def)
  ultimately have "sy_crashed (poller_moves E ups ?i ?s1) = Some no_ticker"
    using assms(7) by (simp add: poller_moves_def)
  moreover have "(sstep E protoConf ups)\<^sup>*\<^sup>* s (poller_moves E ups ?i ?s1)"
    using sstep.starts [OF assms(1)] sstep.moves [OF r(2), of ?i] r(1)
    by (metis length_append_singleton lessI rtranclp.rtrancl_into_rtrancl rtranclp.rtrancl_refl)
  ultimately show ?thesis by blast
qed

theorem zero_interval_crashes_witness:
  "\<exists>s1. (sstep (gateway_env\<lparr>en_parse_duration := \<lambda>t. Some 0\<rparr>) slave_protocols [])\<^sup>*\<^sup>*
     (gateway_sys [slave_set ''a''] empty_pool []) s1 \<and> sy_crashed s1 = Some no_ticker"
proof -
  let ?E = "gateway_env\<lparr>en_parse_duration := \<lambda>t. Some 0\<rparr>" and ?s = "gateway_sys [slave_set ''a''] empty_pool []"
  have c: "getOrCreateClient ?E ''modbus_tcp'' (merged_config (slave_device i 1) ps) empty_pool () =
     (Inr 0, gateway_pool demo_client, ())" for i ps
    by (rule gateway_client) (simp add: gateway_mb)
  obtain pol dm p1 where st: "start_poller ?E slave_protocols (slave_set ''a'') (sy_devMap ?s) (sy_pool ?s)
      (sy_world ?s) = (Some pol, dm, p1, ())"
    by (simp add: start_poller_def gateway_sys_def gateway_devices_def slave_set_def slave_device_fields
        slave_protocols_def Let_def c)
  have "sy_devMap ?s (d2_DeviceID (slave_set ''a'')) = Some (slave_device ''a'' 1)"
    by (simp add: gateway_sys_def gateway_devices_def slave_set_def)
  from zero_interval_crashes [OF _ _ this st, of "[]" 0] show ?thesis
    by (simp add: gateway_sys_def slave_device_fields)
qed

section \<open>The start\<close>

text \<open>The start needs two files only: it panics when the protocols or the devices cannot be read or
  decoded, and otherwise runs, whatever became of the points, the rules and the channels.\<close>

theorem start_needs_two_files:
  "is_panic (start_main E F packets w) \<longleftrightarrow>
     (\<exists>e. fs_read F ''configs/protocols.yaml'' = Inl e) \<or>
     (\<exists>data. fs_read F ''configs/protocols.yaml'' = Inr data \<and> (\<exists>e. snd (ym_protocols F data) = Some e)) \<or>
     (\<exists>e. snd (LoadDevicesFromYAML F ''configs/devices.yaml'') = Some e)"
  by (auto simp: start_main_def Let_def split: sum.splits prod.splits option.splits)

lemma add_discovered_known: "(\<And>d. d \<in> set devs \<Longrightarrow> devMap (bd_DeviceID d) \<noteq> None) \<Longrightarrow> add_discovered devs devMap = devMap"
proof (induction devs)
  case (Cons d devs)
  from Cons.prems [of d] obtain y where "devMap (bd_DeviceID d) = Some y" by auto
  with Cons show ?case by simp
qed simp

lemma discovered_ids: "d \<in> set (DiscoverDevicesReal packets) \<Longrightarrow> bd_DeviceID d = unparsed_id"
  by (induction packets rule: DiscoverDevicesReal.induct) (auto split: if_splits)

text \<open>The discovery at the start adds at most one device, however many answer: each of them has the
  same text as its identifier, so only the first gets into the table, and none does when the
  table has a device of that name.\<close>

theorem discovery_adds_one_device:
  "add_discovered (DiscoverDevicesReal packets) devMap =
     (case DiscoverDevicesReal packets of
        [] \<Rightarrow> devMap
      | d # ds \<Rightarrow>
          if devMap unparsed_id = None then devMap(unparsed_id \<mapsto> discovered_device d) else devMap)"
proof (cases "DiscoverDevicesReal packets")
  case (Cons d ds)
  then have "bd_DeviceID x = unparsed_id" if "x \<in> set (d # ds)" for x
    using discovered_ids [of x packets] that by simp
  then show ?thesis unfolding Cons by (auto intro!: add_discovered_known)
qed simp

end
