(* ===== verification/Field_Drivers.thy ===== *)
theory Field_Drivers
  imports Data_Types Go_Float Go_Strings
begin

text \<open>
  The drivers under \<open>protocols/\<close> that the gateway's binary does not link: SLMP, plain TCP, SNMP,
  HTTP and S7. Each has its struct as a record and its methods as functions of the client and the
  world. A type assertion on the configuration panics when the entry is missing or of another
  type. The sockets of \<open>net\<close> and the libraries are parameters; timeouts are left out.
\<close>

section \<open>What the drivers share\<close>

definition as_string :: "gomap \<Rightarrow> string \<Rightarrow> string out" where  \<comment> \<open>\<open>config[k].(string)\<close>\<close>
  "as_string config k =
     (case mget config k of VStr s \<Rightarrow> Ok s | v \<Rightarrow> Panic (BadAssertion (go_typename v)))"

definition as_float :: "gomap \<Rightarrow> string \<Rightarrow> f64 out" where  \<comment> \<open>\<open>config[k].(float64)\<close>\<close>
  "as_float config k =
     (case mget config k of VF64 x \<Rightarrow> Ok x | v \<Rightarrow> Panic (BadAssertion (go_typename v)))"

definition point_value :: "string \<Rightarrow> goval \<Rightarrow> string \<Rightarrow> i64 \<Rightarrow> PointValue" where
  "point_value pt v q now = \<lparr>pv_PointID = pt, pv_Value = v, pv_Quality = q, pv_Timestamp = now\<rparr>"

text \<open>
  The loop of the batch reads: one exchange per point, whose failure (\<open>Ok None\<close>) makes a value of
  quality bad and goes on.
\<close>

fun read_each ::
  "('w \<Rightarrow> i64) \<Rightarrow> (string \<Rightarrow> 'w \<Rightarrow> goval option out \<times> 'w) \<Rightarrow> string list \<Rightarrow> PointValue list \<Rightarrow> 'w
    \<Rightarrow> PointValue list out \<times> 'w" where
  "read_each now exch [] values w = (Ok values, w)"
| "read_each now exch (pt # pts) values w =
     (case exch pt w of
        (Ok None, w1) \<Rightarrow>
          read_each now exch pts (values @ [point_value pt VNil ''bad'' (now w1)]) w1
      | (Ok (Some v), w1) \<Rightarrow>
          read_each now exch pts (values @ [point_value pt v ''good'' (now w1)]) w1
      | (Err e, w1) \<Rightarrow> (Err e, w1)
      | (Panic x, w1) \<Rightarrow> (Panic x, w1))"

text \<open>
  TCP sockets. A connection is a handle; a read returns the bytes it puts at the front of the
  buffer, at most as many as the buffer holds.
\<close>

record 'w tcpnet =
  tn_dial :: "string \<Rightarrow> 'w \<Rightarrow> (gerr + nat) \<times> 'w"
  tn_send :: "nat \<Rightarrow> byte list \<Rightarrow> 'w \<Rightarrow> 'w"  \<comment> \<open>the result is dropped by the callers\<close>
  tn_recv :: "nat \<Rightarrow> nat \<Rightarrow> 'w \<Rightarrow> (gerr + byte list) \<times> 'w"
  tn_close :: "nat \<Rightarrow> 'w \<Rightarrow> gerr option \<times> 'w"
  tn_now :: "'w \<Rightarrow> i64"

definition fill_buffer :: "nat \<Rightarrow> byte list \<Rightarrow> byte list" where
  "fill_buffer cap bs = bs @ replicate (cap - length bs) 0"

definition exchange ::
  "'w tcpnet \<Rightarrow> nat option \<Rightarrow> byte list \<Rightarrow> 'w \<Rightarrow> (gerr + byte list) out \<times> 'w" where
  \<comment> \<open>\<open>conn.Write(request); conn.Read(make([]byte, 1024))\<close>\<close>
  "exchange tn conn request w =
     (case conn of
        None \<Rightarrow> (Panic NilDeref, w)
      | Some c \<Rightarrow> (case tn_recv tn c 1024 (tn_send tn c request w) of (r, w1) \<Rightarrow> (Ok r, w1)))"

definition redial ::
  "'w tcpnet \<Rightarrow> nat option \<Rightarrow> string \<Rightarrow> string \<Rightarrow> 'w \<Rightarrow> (gerr + nat) \<times> 'w" where
  \<comment> \<open>\<open>Reconnect\<close>: the old connection is closed first\<close>
  "redial tn conn ip port w =
     (let w0 = (case conn of None \<Rightarrow> w | Some c \<Rightarrow> snd (tn_close tn c w))
      in tn_dial tn (ip @ '':'' @ port) w0)"

definition conn_of :: "gerr + nat \<Rightarrow> nat option" where  \<comment> \<open>a nil connection comes with an error\<close>
  "conn_of r = (case r of Inl _ \<Rightarrow> None | Inr c \<Rightarrow> Some c)"

definition error_of :: "gerr + 'a \<Rightarrow> gerr option" where
  "error_of r = (case r of Inl e \<Rightarrow> Some e | Inr _ \<Rightarrow> None)"

section \<open>SLMP\<close>

record SLMPClient =
  sl_conn :: "nat option"
  sl_ip :: string
  sl_port :: string

definition NewSLMPClient :: SLMPClient where
  "NewSLMPClient = \<lparr>sl_conn = None, sl_ip = [], sl_port = []\<rparr>"

definition sl_Init :: "'w tcpnet \<Rightarrow> gomap \<Rightarrow> SLMPClient \<Rightarrow> 'w \<Rightarrow> gerr option out \<times> SLMPClient \<times> 'w" where
  "sl_Init tn config s w =
     (case as_string config ''ip'' of
        Ok ip \<Rightarrow>
          (let s1 = s\<lparr>sl_ip := ip\<rparr>
           in case as_string config ''port'' of
                Ok port \<Rightarrow>
                  (case tn_dial tn (ip @ '':'' @ port) w of
                     (r, w1) \<Rightarrow> (Ok (error_of r), s1\<lparr>sl_port := port, sl_conn := conn_of r\<rparr>, w1))
              | Err e \<Rightarrow> (Err e, s1, w)
              | Panic x \<Rightarrow> (Panic x, s1, w))
      | Err e \<Rightarrow> (Err e, s, w)
      | Panic x \<Rightarrow> (Panic x, s, w))"

definition slmp_command :: "byte list" where
  "slmp_command =
     [0x50, 0x00, 0x00, 0xFF, 0xFF, 0x03, 0x00,
      0x0C, 0x00, 0x10, 0x00,
      0x01, 0x04, 0x00, 0x00,
      0x00, 0x64, 0x00, 0x00, 0xA8, 0x00]"

text \<open>\<open>int(buf[14]) + int(buf[15])<<8\<close>, after the check of \<open>n < 14\<close>.\<close>

definition slmp_value :: "byte list \<Rightarrow> goval option" where
  "slmp_value bs =
     (if length bs < 14 then None
      else let buf = fill_buffer 1024 bs
           in Some (VInt (ucast (buf ! 14) + push_bit 8 (ucast (buf ! 15)))))"

definition sl_Read :: "'w tcpnet \<Rightarrow> SLMPClient \<Rightarrow> string \<Rightarrow> 'w \<Rightarrow> PointValue list out \<times> 'w" where
  \<comment> \<open>a short answer is no error: both results are nil\<close>
  "sl_Read tn s deviceID w =
     (case exchange tn (sl_conn s) slmp_command w of
        (Ok (Inl e), w1) \<Rightarrow> (Err e, w1)
      | (Ok (Inr bs), w1) \<Rightarrow>
          (case slmp_value bs of
             None \<Rightarrow> (Ok [], w1)
           | Some v \<Rightarrow> (Ok [point_value ''d100'' v ''good'' (tn_now tn w1)], w1))
      | (Err e, w1) \<Rightarrow> (Err e, w1)
      | (Panic x, w1) \<Rightarrow> (Panic x, w1))"

definition slmp_exchange :: "'w tcpnet \<Rightarrow> SLMPClient \<Rightarrow> string \<Rightarrow> 'w \<Rightarrow> goval option out \<times> 'w" where
  "slmp_exchange tn s pt w =
     (case exchange tn (sl_conn s) slmp_command w of
        (r, w1) \<Rightarrow> (bind_out r (\<lambda>a. Ok (case a of Inl e \<Rightarrow> None | Inr bs \<Rightarrow> slmp_value bs)), w1))"

definition sl_ReadBatch ::
  "'w tcpnet \<Rightarrow> SLMPClient \<Rightarrow> string \<Rightarrow> string \<Rightarrow> string list \<Rightarrow> 'w \<Rightarrow> PointValue list out \<times> 'w" where
  "sl_ReadBatch tn s deviceID function points w =
     (if points = [] then (Ok [], w)
      else read_each (tn_now tn) (slmp_exchange tn s) points [] w)"

definition sl_Write :: "SLMPClient \<Rightarrow> string \<Rightarrow> goval \<Rightarrow> gerr option" where
  "sl_Write s point v = None"

definition sl_Close :: "'w tcpnet \<Rightarrow> SLMPClient \<Rightarrow> 'w \<Rightarrow> gerr option out \<times> 'w" where
  "sl_Close tn s w =
     (case sl_conn s of
        None \<Rightarrow> (Panic NilDeref, w)
      | Some c \<Rightarrow> (case tn_close tn c w of (e, w1) \<Rightarrow> (Ok e, w1)))"

definition sl_Reconnect :: "'w tcpnet \<Rightarrow> SLMPClient \<Rightarrow> 'w \<Rightarrow> gerr option \<times> SLMPClient \<times> 'w" where
  "sl_Reconnect tn s w =
     (case redial tn (sl_conn s) (sl_ip s) (sl_port s) w of
        (r, w1) \<Rightarrow> (error_of r, s\<lparr>sl_conn := conn_of r\<rparr>, w1))"

section \<open>Plain TCP\<close>

record TCPClient =
  tc_conn :: "nat option"
  tc_ip :: string
  tc_port :: string
  tc_request :: "byte list"

definition NewTCPClient :: TCPClient where
  "NewTCPClient = \<lparr>tc_conn = None, tc_ip = [], tc_port = [], tc_request = []\<rparr>"

definition text_bytes :: "string \<Rightarrow> byte list" where  \<comment> \<open>\<open>[]byte(s)\<close>\<close>
  "text_bytes s = map (\<lambda>c. word_of_nat (of_char c)) s"

definition tc_Init :: "'w tcpnet \<Rightarrow> gomap \<Rightarrow> TCPClient \<Rightarrow> 'w \<Rightarrow> gerr option out \<times> TCPClient \<times> 'w" where
  "tc_Init tn config t w =
     (case as_string config ''ip'' of
        Ok ip \<Rightarrow>
          (let t1 = t\<lparr>tc_ip := ip\<rparr>
           in case as_string config ''port'' of
                Ok port \<Rightarrow>
                  (let t2 = t1\<lparr>tc_port := port\<rparr>
                   in case as_string config ''request_hex'' of
                        Ok req \<Rightarrow>
                          (case tn_dial tn (ip @ '':'' @ port) w of
                             (r, w1) \<Rightarrow>
                               (Ok (error_of r),
                                t2\<lparr>tc_request := text_bytes req, tc_conn := conn_of r\<rparr>, w1))
                      | Err e \<Rightarrow> (Err e, t2, w)
                      | Panic x \<Rightarrow> (Panic x, t2, w))
              | Err e \<Rightarrow> (Err e, t1, w)
              | Panic x \<Rightarrow> (Panic x, t1, w))
      | Err e \<Rightarrow> (Err e, t, w)
      | Panic x \<Rightarrow> (Panic x, t, w))"

definition tcp_value :: "byte list \<Rightarrow> goval option" where
  \<comment> \<open>\<open>int(buf[3])<<8 + int(buf[4])\<close>, after the check of \<open>n < 7\<close>\<close>
  "tcp_value bs =
     (if length bs < 7 then None
      else let buf = fill_buffer 1024 bs
           in Some (VInt (push_bit 8 (ucast (buf ! 3)) + ucast (buf ! 4))))"

definition tc_Read :: "'w tcpnet \<Rightarrow> TCPClient \<Rightarrow> string \<Rightarrow> 'w \<Rightarrow> PointValue list out \<times> 'w" where
  "tc_Read tn t deviceID w =
     (case exchange tn (tc_conn t) (tc_request t) w of
        (Ok (Inl e), w1) \<Rightarrow> (Err e, w1)
      | (Ok (Inr bs), w1) \<Rightarrow>
          (case tcp_value bs of
             None \<Rightarrow> (Ok [], w1)
           | Some v \<Rightarrow> (Ok [point_value ''tcp_data'' v ''good'' (tn_now tn w1)], w1))
      | (Err e, w1) \<Rightarrow> (Err e, w1)
      | (Panic x, w1) \<Rightarrow> (Panic x, w1))"

definition tcp_exchange :: "'w tcpnet \<Rightarrow> TCPClient \<Rightarrow> string \<Rightarrow> 'w \<Rightarrow> goval option out \<times> 'w" where
  "tcp_exchange tn t pt w =
     (case exchange tn (tc_conn t) (tc_request t) w of
        (r, w1) \<Rightarrow> (bind_out r (\<lambda>a. Ok (case a of Inl e \<Rightarrow> None | Inr bs \<Rightarrow> tcp_value bs)), w1))"

definition tc_ReadBatch ::
  "'w tcpnet \<Rightarrow> TCPClient \<Rightarrow> string \<Rightarrow> string \<Rightarrow> string list \<Rightarrow> 'w \<Rightarrow> PointValue list out \<times> 'w" where
  "tc_ReadBatch tn t deviceID function points w =
     (if points = [] then (Ok [], w)
      else read_each (tn_now tn) (tcp_exchange tn t) points [] w)"

definition tc_Write :: "TCPClient \<Rightarrow> string \<Rightarrow> goval \<Rightarrow> gerr option" where
  "tc_Write t point v = None"

definition tc_Close :: "'w tcpnet \<Rightarrow> TCPClient \<Rightarrow> 'w \<Rightarrow> gerr option out \<times> 'w" where
  "tc_Close tn t w =
     (case tc_conn t of
        None \<Rightarrow> (Panic NilDeref, w)
      | Some c \<Rightarrow> (case tn_close tn c w of (e, w1) \<Rightarrow> (Ok e, w1)))"

definition tc_Reconnect :: "'w tcpnet \<Rightarrow> TCPClient \<Rightarrow> 'w \<Rightarrow> gerr option \<times> TCPClient \<times> 'w" where
  "tc_Reconnect tn t w =
     (case redial tn (tc_conn t) (tc_ip t) (tc_port t) w of
        (r, w1) \<Rightarrow> (error_of r, t\<lparr>tc_conn := conn_of r\<rparr>, w1))"

section \<open>SNMP\<close>

text \<open>
  The library's client by its target; a variable of an answer is its type and its value. \<open>Conn\<close>
  is set by a connection that succeeds.
\<close>

record GoSNMP =
  gs_Target :: string
  gs_Port :: u16
  gs_Community :: string
  gs_Conn :: bool

datatype asn1 = Asn1Integer | Asn1OctetString | Asn1Other

record 'w snmplib =
  sn_connect :: "GoSNMP \<Rightarrow> 'w \<Rightarrow> gerr option \<times> 'w"
  sn_get :: "GoSNMP \<Rightarrow> string list \<Rightarrow> 'w \<Rightarrow> (gerr + (asn1 \<times> goval) list) \<times> 'w"
  sn_close :: "GoSNMP \<Rightarrow> 'w \<Rightarrow> gerr option \<times> 'w"
  sn_now :: "'w \<Rightarrow> i64"

record SNMPClient =
  sp_client :: "GoSNMP option"
  sp_oids :: "string list"

definition NewSNMPClient :: SNMPClient where
  "NewSNMPClient = \<lparr>sp_client = None, sp_oids = []\<rparr>"

definition f64_to_u16 :: "f64 \<Rightarrow> u16" where
  \<comment> \<open>\<open>uint16(v)\<close>, as a conversion to 32 bits of which the low 16 are kept\<close>
  "f64_to_u16 x =
     (case f64_trunc x of
        Some n \<Rightarrow> if - (2 ^ 31) \<le> n \<and> n < 2 ^ 31 then word_of_int n else 0
      | None \<Rightarrow> 0)"

definition snmp_connect :: "'w snmplib \<Rightarrow> GoSNMP \<Rightarrow> 'w \<Rightarrow> gerr option \<times> GoSNMP \<times> 'w" where
  "snmp_connect sn g w = (case sn_connect sn g w of (e, w1) \<Rightarrow> (e, g\<lparr>gs_Conn := (e = None)\<rparr>, w1))"

definition sp_Init :: "'w snmplib \<Rightarrow> gomap \<Rightarrow> SNMPClient \<Rightarrow> 'w \<Rightarrow> gerr option out \<times> SNMPClient \<times> 'w" where
  "sp_Init sn config s w =
     (case bind_out (as_string config ''ip'') (\<lambda>ip.
             bind_out (as_float config ''port'') (\<lambda>port.
             bind_out (as_string config ''community'') (\<lambda>community.
             Ok \<lparr>gs_Target = ip, gs_Port = f64_to_u16 port, gs_Community = community,
                 gs_Conn = False\<rparr>))) of
        Ok g \<Rightarrow>
          (let s1 = s\<lparr>sp_client := Some g\<rparr>
           in case as_string config ''oid'' of
                Ok oid \<Rightarrow>
                  (case snmp_connect sn g w of
                     (e, g1, w1) \<Rightarrow> (Ok e, s1\<lparr>sp_client := Some g1, sp_oids := [oid]\<rparr>, w1))
              | Err e \<Rightarrow> (Err e, s1, w)
              | Panic x \<Rightarrow> (Panic x, s1, w))
      | Err e \<Rightarrow> (Err e, s, w)
      | Panic x \<Rightarrow> (Panic x, s, w))"

definition bytes_text :: "byte list \<Rightarrow> string" where  \<comment> \<open>\<open>string(bs)\<close>\<close>
  "bytes_text bs = map (\<lambda>b. char_of (unat b)) bs"

text \<open>The loop of \<open>Read\<close>: the last variable's value, with an octet string as text.\<close>

fun snmp_values :: "(asn1 \<times> goval) list \<Rightarrow> goval \<Rightarrow> goval out" where
  "snmp_values [] val = Ok val"
| "snmp_values ((t, v) # vars) val =
     (case t of
        Asn1Integer \<Rightarrow>
          (case v of VInt n \<Rightarrow> snmp_values vars (VInt n) | _ \<Rightarrow> Panic (BadAssertion (go_typename v)))
      | Asn1OctetString \<Rightarrow>
          (case v of
             VBytes bs \<Rightarrow> snmp_values vars (VStr (bytes_text bs))
           | _ \<Rightarrow> Panic (BadAssertion (go_typename v)))
      | Asn1Other \<Rightarrow> snmp_values vars v)"

definition sp_Read :: "'w snmplib \<Rightarrow> SNMPClient \<Rightarrow> string \<Rightarrow> 'w \<Rightarrow> PointValue list out \<times> 'w" where
  "sp_Read sn s deviceID w =
     (case sp_client s of
        None \<Rightarrow> (Panic NilDeref, w)
      | Some g \<Rightarrow>
          (case sn_get sn g (sp_oids s) w of
             (Inl e, w1) \<Rightarrow> (Err e, w1)
           | (Inr vars, w1) \<Rightarrow>
               (bind_out (snmp_values vars VNil) (\<lambda>val.
                  Ok [point_value ''snmp_metric'' val ''good'' (sn_now sn w1)]), w1)))"

definition snmp_exchange :: "'w snmplib \<Rightarrow> SNMPClient \<Rightarrow> string \<Rightarrow> 'w \<Rightarrow> goval option out \<times> 'w" where
  \<comment> \<open>the first variable's value, as the library gives it\<close>
  "snmp_exchange sn s pt w =
     (case sp_client s of
        None \<Rightarrow> (Panic NilDeref, w)
      | Some g \<Rightarrow>
          (case sn_get sn g [pt] w of
             (Inl e, w1) \<Rightarrow> (Ok None, w1)
           | (Inr [], w1) \<Rightarrow> (Ok None, w1)
           | (Inr ((t, v) # vars), w1) \<Rightarrow> (Ok (Some v), w1)))"

definition sp_ReadBatch ::
  "'w snmplib \<Rightarrow> SNMPClient \<Rightarrow> string \<Rightarrow> string \<Rightarrow> string list \<Rightarrow> 'w \<Rightarrow> PointValue list out \<times> 'w" where
  "sp_ReadBatch sn s deviceID function points w =
     (if points = [] then (Ok [], w)
      else read_each (sn_now sn) (snmp_exchange sn s) points [] w)"

definition sp_Write :: "SNMPClient \<Rightarrow> string \<Rightarrow> goval \<Rightarrow> gerr option" where
  "sp_Write s point v = None"

definition sp_Close :: "'w snmplib \<Rightarrow> SNMPClient \<Rightarrow> 'w \<Rightarrow> gerr option out \<times> 'w" where
  "sp_Close sn s w =
     (case sp_client s of
        None \<Rightarrow> (Panic NilDeref, w)
      | Some g \<Rightarrow>
          if gs_Conn g then (case sn_close sn g w of (e, w1) \<Rightarrow> (Ok e, w1)) else (Panic NilDeref, w))"

definition sp_Reconnect :: "'w snmplib \<Rightarrow> SNMPClient \<Rightarrow> 'w \<Rightarrow> gerr option \<times> SNMPClient \<times> 'w" where
  "sp_Reconnect sn s w =
     (case sp_client s of
        None \<Rightarrow> (None, s, w)
      | Some g \<Rightarrow> (case snmp_connect sn g w of (e, g1, w1) \<Rightarrow> (e, s\<lparr>sp_client := Some g1\<rparr>, w1)))"

section \<open>HTTP\<close>

text \<open>
  \<open>ht_get\<close> is \<open>http.Get\<close> with its body read to the end (a failure while reading leaves what came);
  \<open>ht_json\<close> is \<open>json.Unmarshal\<close> into a map, nil for \<open>null\<close>.
\<close>

record 'w httplib =
  ht_get :: "string \<Rightarrow> 'w \<Rightarrow> (gerr + byte list) \<times> 'w"
  ht_json :: "byte list \<Rightarrow> gerr + gomap"
  ht_intn :: "nat \<Rightarrow> 'w \<Rightarrow> nat \<times> 'w"  \<comment> \<open>\<open>rand.Intn(n)\<close>: below \<open>n\<close>\<close>
  ht_float :: "'w \<Rightarrow> f64 \<times> 'w"  \<comment> \<open>\<open>rand.Float64()\<close>: in [0, 1)\<close>
  ht_now :: "'w \<Rightarrow> i64"

record HTTPClient =
  hc_URL :: string
  hc_Method :: string

definition NewHTTPClient :: HTTPClient where
  "NewHTTPClient = \<lparr>hc_URL = [], hc_Method = []\<rparr>"

definition hc_Init :: "gomap \<Rightarrow> HTTPClient \<Rightarrow> gerr option out \<times> HTTPClient" where
  "hc_Init config h =
     (case as_string config ''url'' of
        Ok url \<Rightarrow>
          (let h1 = h\<lparr>hc_URL := url\<rparr>
           in case as_string config ''method'' of
                Ok mthd \<Rightarrow>
                  (let h2 = h1\<lparr>hc_Method := mthd\<rparr>
                   in (Ok None, if mget config ''mock'' = VBool True then h2\<lparr>hc_URL := ''MOCK''\<rparr> else h2))
              | Err e \<Rightarrow> (Err e, h1)
              | Panic x \<Rightarrow> (Panic x, h1))
      | Err e \<Rightarrow> (Err e, h)
      | Panic x \<Rightarrow> (Panic x, h))"

definition mock_read :: "'w httplib \<Rightarrow> string \<Rightarrow> 'w \<Rightarrow> PointValue list \<times> 'w" where
  "mock_read ht deviceID w =
     (let now = ht_now ht w
      in if deviceID = ''plc1'' then
           (let (a, w1) = ht_intn ht 2 w; (b, w2) = ht_intn ht 2000 w1
            in ([point_value ''d100'' (VBool (a = 1)) ''good'' now,
                 point_value ''d101'' (VInt (400 + word_of_nat b)) ''good'' now], w2))
         else if deviceID = ''sensor_http'' then
           (let (r, w1) = ht_float ht w
            in ([point_value ''temperature''
                   (VF64 (f64_add (f64_of_int 20) (f64_mul r (f64_of_int 80)))) ''good'' now], w1))
         else ([], w))"

definition hc_Read :: "'w httplib \<Rightarrow> HTTPClient \<Rightarrow> string \<Rightarrow> 'w \<Rightarrow> PointValue list out \<times> 'w" where
  "hc_Read ht h deviceID w =
     (if hc_URL h = ''MOCK'' then (case mock_read ht deviceID w of (vs, w1) \<Rightarrow> (Ok vs, w1))
      else
        (case ht_get ht (hc_URL h) w of
           (Inl e, w1) \<Rightarrow>
             (Ok [point_value ''http_temp'' (VF64 (f64_of_int 22)) ''mock'' (ht_now ht w1)], w1)
         | (Inr body, w1) \<Rightarrow>
             (case ht_json ht body of
                Inl e \<Rightarrow> (Err e, w1)
              | Inr parsed \<Rightarrow>
                  (Ok [point_value ''http_temp'' (mget parsed ''temp'') ''good'' (ht_now ht w1)], w1))))"

definition hc_ReadBatch :: "HTTPClient \<Rightarrow> string \<Rightarrow> string \<Rightarrow> string list \<Rightarrow> PointValue list out" where
  "hc_ReadBatch h deviceID number points = Ok []"

definition hc_Write :: "HTTPClient \<Rightarrow> string \<Rightarrow> goval \<Rightarrow> gerr option" where
  "hc_Write h point v = None"

definition hc_Close :: "HTTPClient \<Rightarrow> gerr option" where
  "hc_Close h = None"

definition hc_Reconnect :: "HTTPClient \<Rightarrow> gerr option" where
  "hc_Reconnect h = None"

section \<open>S7\<close>

text \<open>A handler of the library is known by what it was made with; a client keeps its handler.\<close>

record S7Handler =
  sh_IP :: string
  sh_Rack :: i64
  sh_Slot :: i64

record 'w s7lib =
  s7_connect :: "S7Handler \<Rightarrow> 'w \<Rightarrow> gerr option \<times> 'w"
  s7_read_db :: "S7Handler \<Rightarrow> nat \<Rightarrow> nat \<Rightarrow> nat \<Rightarrow> 'w \<Rightarrow> (gerr + byte list) \<times> 'w"
  s7_close :: "S7Handler \<Rightarrow> 'w \<Rightarrow> gerr option \<times> 'w"
  s7_now :: "'w \<Rightarrow> i64"

record S7Client =
  s7_client :: "S7Handler option"
  s7_handler :: "S7Handler option"

definition NewS7Client :: S7Client where
  "NewS7Client = \<lparr>s7_client = None, s7_handler = None\<rparr>"

definition s7_number :: "gomap \<Rightarrow> string \<Rightarrow> i64" where  \<comment> \<open>zero for any other type\<close>
  "s7_number config k = (case mget config k of VF64 v \<Rightarrow> f64_to_int v | VInt v \<Rightarrow> v | _ \<Rightarrow> 0)"

definition s7_Init :: "'w s7lib \<Rightarrow> gomap \<Rightarrow> S7Client \<Rightarrow> 'w \<Rightarrow> gerr option out \<times> S7Client \<times> 'w" where
  "s7_Init lib config s w =
     (case as_string config ''ip'' of
        Ok ip \<Rightarrow>
          (let h = \<lparr>sh_IP = ip, sh_Rack = s7_number config ''rack'', sh_Slot = s7_number config ''slot''\<rparr>;
               s1 = s\<lparr>s7_handler := Some h\<rparr>
           in case s7_connect lib h w of
                (Some e, w1) \<Rightarrow> (Ok (Some e), s1, w1)
              | (None, w1) \<Rightarrow> (Ok None, s1\<lparr>s7_client := Some h\<rparr>, w1))
      | Err e \<Rightarrow> (Err e, s, w)
      | Panic x \<Rightarrow> (Panic x, s, w))"

definition s7_bit :: "'w s7lib \<Rightarrow> S7Client \<Rightarrow> 'w \<Rightarrow> (gerr + bool) out \<times> 'w" where
  \<comment> \<open>\<open>AGReadDB(1, 0, 2, buffer)\<close> and \<open>buffer[0]&1 == 1\<close>\<close>
  "s7_bit lib s w =
     (case s7_client s of
        None \<Rightarrow> (Panic NilDeref, w)
      | Some h \<Rightarrow>
          (case s7_read_db lib h 1 0 2 w of
             (Inl e, w1) \<Rightarrow> (Ok (Inl e), w1)
           | (Inr bs, w1) \<Rightarrow> (Ok (Inr (fill_buffer 2 bs ! 0 AND 1 = 1)), w1)))"

definition s7_Read :: "'w s7lib \<Rightarrow> S7Client \<Rightarrow> string \<Rightarrow> 'w \<Rightarrow> PointValue list out \<times> 'w" where
  "s7_Read lib s deviceID w =
     (case s7_bit lib s w of
        (Ok (Inl e), w1) \<Rightarrow> (Err e, w1)
      | (Ok (Inr b), w1) \<Rightarrow> (Ok [point_value ''fan_status'' (VBool b) ''good'' (s7_now lib w1)], w1)
      | (Err e, w1) \<Rightarrow> (Err e, w1)
      | (Panic x, w1) \<Rightarrow> (Panic x, w1))"

definition s7_exchange :: "'w s7lib \<Rightarrow> S7Client \<Rightarrow> string \<Rightarrow> 'w \<Rightarrow> goval option out \<times> 'w" where
  "s7_exchange lib s pt w =
     (case s7_bit lib s w of
        (r, w1) \<Rightarrow>
          (bind_out r (\<lambda>a. Ok (case a of Inl e \<Rightarrow> None | Inr b \<Rightarrow> Some (VBool b))), w1))"

definition s7_ReadBatch ::
  "'w s7lib \<Rightarrow> S7Client \<Rightarrow> string \<Rightarrow> string \<Rightarrow> string list \<Rightarrow> 'w \<Rightarrow> PointValue list out \<times> 'w" where
  "s7_ReadBatch lib s deviceID function points w =
     (if points = [] then (Ok [], w)
      else read_each (s7_now lib) (s7_exchange lib s) points [] w)"

definition s7_Write :: "S7Client \<Rightarrow> string \<Rightarrow> goval \<Rightarrow> gerr option" where
  "s7_Write s point v = None"

definition s7_Close :: "'w s7lib \<Rightarrow> S7Client \<Rightarrow> 'w \<Rightarrow> gerr option out \<times> 'w" where
  "s7_Close lib s w =
     (case s7_handler s of
        None \<Rightarrow> (Panic NilDeref, w)
      | Some h \<Rightarrow> (case s7_close lib h w of (e, w1) \<Rightarrow> (Ok e, w1)))"

definition s7_Reconnect :: "'w s7lib \<Rightarrow> S7Client \<Rightarrow> 'w \<Rightarrow> gerr option \<times> S7Client \<times> 'w" where
  "s7_Reconnect lib s w =
     (case s7_handler s of
        None \<Rightarrow> (None, s, w)
      | Some h \<Rightarrow>
          (case s7_connect lib h w of
             (Some e, w1) \<Rightarrow> (Some e, s, w1)
           | (None, w1) \<Rightarrow> (None, s\<lparr>s7_client := Some h\<rparr>, w1)))"

end
