(* ===== verification/Protocol_Table.thy ===== *)
theory Protocol_Table
  imports Collector_Values Field_Drivers
begin

text \<open>
  Every implementation of the interface \<open>Protocol\<close> in one type, with the interface's operations by
  cases, and the registry that all the packages' \<open>init\<close> functions would fill. The drivers' batch
  reads with their laws: which of them keep the contract that the collector's retries rest on.
\<close>

section \<open>The interface\<close>

text \<open>
  What the drivers take from outside; \<open>de_order\<close> is the order in which a range over the BACnet
  points goes.
\<close>

record 'w denv =
  de_env :: "'w env"
  de_tcp :: "'w tcpnet"
  de_snmp :: "'w snmplib"
  de_http :: "'w httplib"
  de_s7 :: "'w s7lib"
  de_order :: "(string \<rightharpoonup> BacnetPoint) \<Rightarrow> string list"

datatype dclient =
    DBase pclient
  | DSlmp SLMPClient
  | DTcp TCPClient
  | DSnmp SNMPClient
  | DHttp HTTPClient
  | DS7 S7Client

fun d_Init :: "'w denv \<Rightarrow> gomap \<Rightarrow> dclient \<Rightarrow> 'w \<Rightarrow> gerr option out \<times> dclient \<times> 'w" where
  "d_Init D config (DBase c) w =
     (case pc_Init (de_env D) config c w of (e, c1, w1) \<Rightarrow> (Ok e, DBase c1, w1))"
| "d_Init D config (DSlmp s) w = (case sl_Init (de_tcp D) config s w of (r, s1, w1) \<Rightarrow> (r, DSlmp s1, w1))"
| "d_Init D config (DTcp t) w = (case tc_Init (de_tcp D) config t w of (r, t1, w1) \<Rightarrow> (r, DTcp t1, w1))"
| "d_Init D config (DSnmp s) w = (case sp_Init (de_snmp D) config s w of (r, s1, w1) \<Rightarrow> (r, DSnmp s1, w1))"
| "d_Init D config (DHttp h) w = (case hc_Init config h of (r, h1) \<Rightarrow> (r, DHttp h1, w))"
| "d_Init D config (DS7 s) w = (case s7_Init (de_s7 D) config s w of (r, s1, w1) \<Rightarrow> (r, DS7 s1, w1))"

fun d_Read :: "'w denv \<Rightarrow> dclient \<Rightarrow> string \<Rightarrow> 'w \<Rightarrow> PointValue list out \<times> 'w" where
  "d_Read D (DBase (CModbus m)) dev w = mb_Read (en_mb (de_env D)) m w"
| "d_Read D (DBase (CBacnet c)) dev w =
     ((case bc_Read (en_now (de_env D) w) (de_order D (bc_points c)) c dev of
         Inl e \<Rightarrow> Err e | Inr vs \<Rightarrow> Ok vs), w)"
| "d_Read D (DSlmp s) dev w = sl_Read (de_tcp D) s dev w"
| "d_Read D (DTcp t) dev w = tc_Read (de_tcp D) t dev w"
| "d_Read D (DSnmp s) dev w = sp_Read (de_snmp D) s dev w"
| "d_Read D (DHttp h) dev w = hc_Read (de_http D) h dev w"
| "d_Read D (DS7 s) dev w = s7_Read (de_s7 D) s dev w"

fun d_ReadBatch ::
  "'w denv \<Rightarrow> dclient \<Rightarrow> string \<Rightarrow> string \<Rightarrow> string list \<Rightarrow> 'w \<Rightarrow> PointValue list out \<times> dclient \<times> 'w" where
  "d_ReadBatch D (DBase c) dev fn addrs w =
     (case pc_ReadBatch (de_env D) c dev fn addrs w of (r, c1, w1) \<Rightarrow> (r, DBase c1, w1))"
| "d_ReadBatch D (DSlmp s) dev fn addrs w =
     (case sl_ReadBatch (de_tcp D) s dev fn addrs w of (r, w1) \<Rightarrow> (r, DSlmp s, w1))"
| "d_ReadBatch D (DTcp t) dev fn addrs w =
     (case tc_ReadBatch (de_tcp D) t dev fn addrs w of (r, w1) \<Rightarrow> (r, DTcp t, w1))"
| "d_ReadBatch D (DSnmp s) dev fn addrs w =
     (case sp_ReadBatch (de_snmp D) s dev fn addrs w of (r, w1) \<Rightarrow> (r, DSnmp s, w1))"
| "d_ReadBatch D (DHttp h) dev fn addrs w = (hc_ReadBatch h dev fn addrs, DHttp h, w)"
| "d_ReadBatch D (DS7 s) dev fn addrs w =
     (case s7_ReadBatch (de_s7 D) s dev fn addrs w of (r, w1) \<Rightarrow> (r, DS7 s, w1))"

definition unit_out :: "gerr option \<Rightarrow> unit out" where
  "unit_out e = (case e of None \<Rightarrow> Ok () | Some x \<Rightarrow> Err x)"

fun d_Write :: "'w denv \<Rightarrow> dclient \<Rightarrow> string \<Rightarrow> goval \<Rightarrow> 'w \<Rightarrow> unit out \<times> dclient \<times> 'w" where
  "d_Write D (DBase (CModbus m)) pt v w =
     (case mb_Write (en_mb (de_env D)) m pt v w of (r, w1) \<Rightarrow> (r, DBase (CModbus m), w1))"
| "d_Write D (DBase (CBacnet c)) pt v w = (case bc_Write c pt v of (r, c1) \<Rightarrow> (r, DBase (CBacnet c1), w))"
| "d_Write D (DSlmp s) pt v w = (unit_out (sl_Write s pt v), DSlmp s, w)"
| "d_Write D (DTcp t) pt v w = (unit_out (tc_Write t pt v), DTcp t, w)"
| "d_Write D (DSnmp s) pt v w = (unit_out (sp_Write s pt v), DSnmp s, w)"
| "d_Write D (DHttp h) pt v w = (unit_out (hc_Write h pt v), DHttp h, w)"
| "d_Write D (DS7 s) pt v w = (unit_out (s7_Write s pt v), DS7 s, w)"

fun d_Close :: "'w denv \<Rightarrow> dclient \<Rightarrow> 'w \<Rightarrow> gerr option out \<times> dclient \<times> 'w" where
  "d_Close D (DBase (CModbus m)) w =
     (case mb_Close (en_mb (de_env D)) m w of (e, w1) \<Rightarrow> (Ok e, DBase (CModbus m), w1))"
| "d_Close D (DBase (CBacnet c)) w = (case bc_Close c of (e, c1) \<Rightarrow> (Ok e, DBase (CBacnet c1), w))"
| "d_Close D (DSlmp s) w = (case sl_Close (de_tcp D) s w of (r, w1) \<Rightarrow> (r, DSlmp s, w1))"
| "d_Close D (DTcp t) w = (case tc_Close (de_tcp D) t w of (r, w1) \<Rightarrow> (r, DTcp t, w1))"
| "d_Close D (DSnmp s) w = (case sp_Close (de_snmp D) s w of (r, w1) \<Rightarrow> (r, DSnmp s, w1))"
| "d_Close D (DHttp h) w = (Ok (hc_Close h), DHttp h, w)"
| "d_Close D (DS7 s) w = (case s7_Close (de_s7 D) s w of (r, w1) \<Rightarrow> (r, DS7 s, w1))"

fun d_Reconnect :: "'w denv \<Rightarrow> dclient \<Rightarrow> 'w \<Rightarrow> gerr option \<times> dclient \<times> 'w" where
  "d_Reconnect D (DBase c) w = (case pc_Reconnect (de_env D) c w of (e, c1, w1) \<Rightarrow> (e, DBase c1, w1))"
| "d_Reconnect D (DSlmp s) w = (case sl_Reconnect (de_tcp D) s w of (e, s1, w1) \<Rightarrow> (e, DSlmp s1, w1))"
| "d_Reconnect D (DTcp t) w = (case tc_Reconnect (de_tcp D) t w of (e, t1, w1) \<Rightarrow> (e, DTcp t1, w1))"
| "d_Reconnect D (DSnmp s) w = (case sp_Reconnect (de_snmp D) s w of (e, s1, w1) \<Rightarrow> (e, DSnmp s1, w1))"
| "d_Reconnect D (DHttp h) w = (hc_Reconnect h, DHttp h, w)"
| "d_Reconnect D (DS7 s) w = (case s7_Reconnect (de_s7 D) s w of (e, s1, w1) \<Rightarrow> (e, DS7 s1, w1))"

definition full_registry :: "dclient registry" where
  "full_registry =
     Register ''modbus_tcp'' (DBase (CModbus NewModbusTCP))
       (Register ''bacnet'' (DBase (CBacnet NewBacnetClient))
         (Register ''slmp'' (DSlmp NewSLMPClient)
           (Register ''tcpclient'' (DTcp NewTCPClient)
             (Register ''snmp'' (DSnmp NewSNMPClient)
               (Register ''http'' (DHttp NewHTTPClient)
                 (Register ''s7'' (DS7 NewS7Client) Map.empty))))))"

section \<open>One value per point\<close>

lemma read_each_names:
  "read_each now exch pts acc w = (Ok vs, w1) \<Longrightarrow> map pv_PointID vs = map pv_PointID acc @ pts"
proof (induction pts arbitrary: acc w)
  case (Cons pt pts)
  obtain r w0 where e: "exch pt w = (r, w0)" by (metis prod.exhaust)
  show ?case
  proof (cases r)
    case (Ok a)
    then show ?thesis
      using Cons.prems e Cons.IH [of _ w0] by (cases a) (fastforce simp: point_value_def)+
  qed (use Cons.prems e in auto)
qed simp

lemma read_each_length: "read_each now exch pts [] w = (Ok vs, w1) \<Longrightarrow> length vs = length pts"
  using read_each_names [of now exch pts "[]" w vs w1] by (metis append_Nil length_map list.map(1))

definition d_wf :: "'w denv \<Rightarrow> dclient \<Rightarrow> bool" where
  "d_wf D c = (case c of DBase b \<Rightarrow> pc_wf (de_env D) b | DHttp h \<Rightarrow> False | _ \<Rightarrow> True)"

interpretation dcp: protocol_contract "d_ReadBatch D" "d_Reconnect D" "d_wf D"
proof
  fix c dev fn addrs w r c1 w1
  assume "d_wf D c" "d_ReadBatch D c dev fn addrs w = (r, c1, w1)"
  then show "d_wf D c1"
    by (cases c) (auto simp: d_wf_def split: prod.splits dest: pcp.rd_inv)
next
  fix c w e c1 w1
  assume "d_wf D c" "d_Reconnect D c w = (e, c1, w1)"
  then show "d_wf D c1"
    by (cases c) (auto simp: d_wf_def split: prod.splits dest: pcp.rc_inv)
next
  fix c dev fn addrs w vs c1 w1
  assume "d_wf D c" "d_ReadBatch D c dev fn addrs w = (Ok vs, c1, w1)"
  then show "length vs = length addrs"
    by (cases c) (auto simp: d_wf_def sl_ReadBatch_def tc_ReadBatch_def sp_ReadBatch_def
        s7_ReadBatch_def split: prod.splits if_splits dest: pcp.rd_answers read_each_length)
qed

end
