(* ===== verification/Scheduler.thy ===== *)
theory Scheduler
  imports Protocol_Table Config_Loaders
begin

text \<open>
  The schedulers of \<open>core/scheduler.go\<close>: starting one runner per device, what a runner does at a
  tick in each of the three, and the ticker that \<open>SetInterval\<close> replaces under a runner that waits.
\<close>

section \<open>Starting the runners\<close>

text \<open>A runner's ticker is its period here; its channels are the subject of the last section.\<close>

record DeviceRunner =
  rn_ID :: string
  rn_Client :: dclient
  rn_Period :: i64

fun point_map :: "DevicePointSet list \<Rightarrow> (string \<rightharpoonup> PointMapping list) \<Rightarrow> (string \<rightharpoonup> PointMapping list)" where
  "point_map [] pm = pm"
| "point_map (dset # dsets) pm = point_map dsets (pm(ds_DeviceID dset \<mapsto> ds_Points dset))"

definition ticker_panic :: panic where
  "ticker_panic = Raised (ErrText ''non-positive interval for NewTicker'')"

text \<open>
  The loop over the devices, with the runners made so far: the goroutine of each of them runs
  from then on, also when a later device makes the loop return an error.
\<close>

fun start_runners ::
  "'w denv \<Rightarrow> dclient registry \<Rightarrow> DeviceConfig list \<Rightarrow> DeviceRunner list \<Rightarrow> 'w
    \<Rightarrow> DeviceRunner list out \<times> DeviceRunner list \<times> 'w" where
  "start_runners D reg [] runners w = (Ok runners, runners, w)"
| "start_runners D reg (dev # devices) runners w =
     (case Create reg (cf_Protocol dev) of
        Inl e \<Rightarrow>
          (Err (ErrText (''protocol '' @ cf_Protocol dev @ '' not supported: '' @ err_text e)), runners, w)
      | Inr c \<Rightarrow>
          (case d_Init D (cf_Config dev) c w of
             (Ok None, c1, w1) \<Rightarrow>
               (let period = cf_Interval dev * 1000000000
                in if period \<le>s 0 then (Panic ticker_panic, runners, w1)
                   else start_runners D reg devices
                          (runners @ [\<lparr>rn_ID = cf_ID dev, rn_Client = c1, rn_Period = period\<rparr>]) w1)
           | (Ok (Some e), c1, w1) \<Rightarrow>
               (Err (ErrText (''init device '' @ cf_ID dev @ '' failed: '' @ err_text e)), runners, w1)
           | (Err e, c1, w1) \<Rightarrow> (Err e, runners, w1)
           | (Panic x, c1, w1) \<Rightarrow> (Panic x, runners, w1)))"

section \<open>A tick\<close>

fun raw_points :: "PointValue list \<Rightarrow> gomap \<Rightarrow> gomap" where
  "raw_points [] raw = raw"
| "raw_points (v # vs) raw = raw_points vs (raw(pv_PointID v \<mapsto> pv_Value v))"

definition transform_point :: "govaluate \<Rightarrow> PointMapping \<Rightarrow> goval \<Rightarrow> goval" where
  "transform_point gov p val =
     (if pm_Transform p \<noteq> []
      then case EvalExpression gov (pm_Transform p) val of Inr result \<Rightarrow> result | Inl e \<Rightarrow> val
      else val)"

definition point_alarm :: "govaluate \<Rightarrow> PointMapping \<Rightarrow> goval \<Rightarrow> bool" where
  "point_alarm gov p val \<longleftrightarrow>
     ar_Enable (pm_Alarm p) \<and> EvalExpression gov (ar_Condition (pm_Alarm p)) val = Inr (VBool True)"

text \<open>What a tick prints: the fields of its lines.\<close>

datatype line =
    ReadFailed string gerr
  | AlarmLine string string string string
  | MappedLine string string string goval string

fun map_points1 ::
  "govaluate \<Rightarrow> string \<Rightarrow> gomap \<Rightarrow> PointMapping list \<Rightarrow> gomap \<Rightarrow> line list \<Rightarrow> gomap \<times> line list" where
  "map_points1 gov dev raw [] mapped out = (mapped, out)"
| "map_points1 gov dev raw (p # ps) mapped out =
     (let val = transform_point gov p (mget raw (pm_Address p));
          out1 = (if point_alarm gov p val
                  then out @ [AlarmLine dev (pm_Name p) (ar_Message (pm_Alarm p)) (ar_Level (pm_Alarm p))]
                  else out);
          out2 = out1 @ [MappedLine dev (pm_Name p) (pm_Type p) val (pm_Unit p)]
      in map_points1 gov dev raw ps (mapped(pm_Name p \<mapsto> val)) out2)"

fun map_points2 ::
  "govaluate \<Rightarrow> string \<Rightarrow> gomap \<Rightarrow> PointMapping list \<Rightarrow> gomap \<Rightarrow> line list \<Rightarrow> gomap \<times> line list" where
  "map_points2 gov dev raw [] mapped out = (mapped, out)"
| "map_points2 gov dev raw (p # ps) mapped out =
     (let val = transform_point gov p (mget raw (pm_Address p));
          mapped1 = mapped(pm_Name p \<mapsto> val);
          out1 = (if point_alarm gov p val
                  then out @ [AlarmLine dev (pm_Name p) (ar_Message (pm_Alarm p)) (ar_Level (pm_Alarm p))]
                  else out)
      in map_points2 gov dev raw ps mapped1
           (out1 @ [MappedLine dev (pm_Name p) (pm_Type p) val (pm_Unit p)]))"

fun map_points3 ::
  "govaluate \<Rightarrow> string \<Rightarrow> gomap \<Rightarrow> PointMapping list \<Rightarrow> gomap \<Rightarrow> AlarmInfo list \<Rightarrow> line list
    \<Rightarrow> gomap \<times> AlarmInfo list \<times> line list" where
  "map_points3 gov dev raw [] mapped alarms out = (mapped, alarms, out)"
| "map_points3 gov dev raw (p # ps) mapped alarms out =
     (let val = transform_point gov p (mget raw (pm_Address p));
          mapped1 = mapped(pm_Name p \<mapsto> val);
          (alarms1, out1) =
            (if point_alarm gov p val
             then (alarms @ [\<lparr>ai_Name = pm_Name p, ai_Level = ar_Level (pm_Alarm p),
                              ai_Message = ar_Message (pm_Alarm p)\<rparr>],
                   out @ [AlarmLine dev (pm_Name p) (ar_Message (pm_Alarm p)) (ar_Level (pm_Alarm p))])
             else (alarms, out))
      in map_points3 gov dev raw ps mapped1 alarms1
           (out1 @ [MappedLine dev (pm_Name p) (pm_Type p) val (pm_Unit p)]))"

definition points_of :: "(string \<rightharpoonup> PointMapping list) \<Rightarrow> string \<Rightarrow> PointMapping list" where
  "points_of pm dev = (case pm dev of None \<Rightarrow> [] | Some ps \<Rightarrow> ps)"

text \<open>A read that fails is printed, and the runner waits for its next tick.\<close>

definition tick1 ::
  "'w denv \<Rightarrow> (string \<rightharpoonup> PointMapping list) \<Rightarrow> DeviceRunner \<Rightarrow> RuleEngine \<Rightarrow> 'w
    \<Rightarrow> unit out \<times> RuleEngine \<times> line list \<times> 'w" where
  "tick1 D pointMap r re w =
     (case d_Read D (rn_Client r) (rn_ID r) w of
        (Err e, w1) \<Rightarrow> (Ok (), re, [ReadFailed (rn_ID r) e], w1)
      | (Panic x, w1) \<Rightarrow> (Panic x, re, [], w1)
      | (Ok values, w1) \<Rightarrow>
          (let raw = raw_points values Map.empty;
               (mapped, out) = map_points1 (en_gov (de_env D)) (rn_ID r) raw
                 (points_of pointMap (rn_ID r)) Map.empty []
           in (Ok (), fst (ApplyRules (en_gov (de_env D)) re (rn_ID r) mapped), out, w1)))"

definition tick2 ::
  "'w denv \<Rightarrow> (string \<rightharpoonup> PointMapping list) \<Rightarrow> DeviceRunner \<Rightarrow> RuleEngine \<Rightarrow> 'w
    \<Rightarrow> unit out \<times> RuleEngine \<times> line list \<times> 'w" where
  "tick2 D pointMap r re w =
     (case d_Read D (rn_Client r) (rn_ID r) w of
        (Err e, w1) \<Rightarrow> (Ok (), re, [ReadFailed (rn_ID r) e], w1)
      | (Panic x, w1) \<Rightarrow> (Panic x, re, [], w1)
      | (Ok values, w1) \<Rightarrow>
          (let raw = raw_points values Map.empty;
               (mapped, out) = map_points2 (en_gov (de_env D)) (rn_ID r) raw
                 (points_of pointMap (rn_ID r)) Map.empty []
           in (Ok (), fst (ApplyRules (en_gov (de_env D)) re (rn_ID r) mapped), out, w1)))"

text \<open>The third one sends a report too, without metrics; the error of \<open>SendToAll\<close> is dropped.\<close>

definition tick3 ::
  "'w denv \<Rightarrow> uplink list \<Rightarrow> (string \<rightharpoonup> PointMapping list) \<Rightarrow> DeviceRunner \<Rightarrow> RuleEngine \<Rightarrow> 'w
    \<Rightarrow> unit out \<times> RuleEngine \<times> line list \<times> 'w" where
  "tick3 D ups pointMap r re w =
     (case d_Read D (rn_Client r) (rn_ID r) w of
        (Err e, w1) \<Rightarrow> (Ok (), re, [ReadFailed (rn_ID r) e], w1)
      | (Panic x, w1) \<Rightarrow> (Panic x, re, [], w1)
      | (Ok values, w1) \<Rightarrow>
          (let raw = raw_points values Map.empty;
               (mapped, alarms, out) = map_points3 (en_gov (de_env D)) (rn_ID r) raw
                 (points_of pointMap (rn_ID r)) Map.empty [] [];
               re1 = fst (ApplyRules (en_gov (de_env D)) re (rn_ID r) mapped)
           in case SendToAll (en_net (de_env D)) ups
                     (EncodeDataReport (en_marshal (de_env D)) (en_now (de_env D) w1) (rn_ID r)
                        mapped alarms Map.empty) w1 of
                (Panic x, w2) \<Rightarrow> (Panic x, re1, out, w2)
              | (_, w2) \<Rightarrow> (Ok (), re1, out, w2)))"

section \<open>The three schedulers\<close>

text \<open>Each loads its points, and the first its rules; the loaders' errors are dropped.\<close>

definition scheduler_points :: "configfs \<Rightarrow> string \<Rightarrow> (string \<rightharpoonup> PointMapping list)" where
  "scheduler_points F file = point_map (fst (LoadPointMappings F file)) Map.empty"

definition StartScheduler ::
  "'w denv \<Rightarrow> configfs \<Rightarrow> dclient registry \<Rightarrow> DeviceConfig list \<Rightarrow> 'w
    \<Rightarrow> DeviceRunner list out \<times> DeviceRunner list \<times> (string \<rightharpoonup> PointMapping list) \<times> RuleEngine \<times> 'w" where
  "StartScheduler D F reg devices w =
     (let pointMap = scheduler_points F ''configs/points.yaml'';
          re = NewRuleEngine (fst (LoadAggregateRules F ''configs/edge_rules.yaml''))
                 (fst (LoadAlarmRulesEdge F ''configs/edge_rules.yaml''))
                 (fst (LoadLinkageRules F ''configs/edge_rules.yaml''))
      in case start_runners D reg devices [] w of
           (r, started, w1) \<Rightarrow> (r, started, pointMap, re, w1))"

definition StartSchedulerWithRuleEngine ::
  "'w denv \<Rightarrow> configfs \<Rightarrow> dclient registry \<Rightarrow> DeviceConfig list \<Rightarrow> 'w
    \<Rightarrow> DeviceRunner list out \<times> DeviceRunner list \<times> (string \<rightharpoonup> PointMapping list) \<times> 'w" where
  "StartSchedulerWithRuleEngine D F reg devices w =
     (let pointMap = scheduler_points F ''configs/points.yaml''
      in case start_runners D reg devices [] w of
           (r, started, w1) \<Rightarrow> (r, started, pointMap, w1))"

definition StartSchedulerWithRuleEngineAndUplink ::
  "'w denv \<Rightarrow> configfs \<Rightarrow> dclient registry \<Rightarrow> DeviceConfig list \<Rightarrow> 'w
    \<Rightarrow> DeviceRunner list out \<times> DeviceRunner list \<times> (string \<rightharpoonup> PointMapping list) \<times> 'w" where
  "StartSchedulerWithRuleEngineAndUplink D F reg devices w =
     (let pointMap = scheduler_points F ''config/points.yaml''
      in case start_runners D reg devices [] w of
           (r, started, w1) \<Rightarrow> (r, started, pointMap, w1))"

section \<open>Tickers\<close>

text \<open>
  A runner's goroutine and its tickers. A \<open>select\<close> evaluates \<open>r.Ticker.C\<close> when it is entered, and
  waits on that channel. Stopping a ticker does not close its channel, which delivers nothing
  any more. \<open>tk_Current\<close> is the runner's field \<open>Ticker\<close>, tickers are numbered as they are made.
\<close>

datatype goroutine = Waiting nat | Busy | Exited

record ticking =
  tk_Current :: nat
  tk_Stopped :: "nat set"
  tk_Made :: nat
  tk_Goroutine :: goroutine
  tk_Polls :: nat  \<comment> \<open>ticks handled so far\<close>

definition new_ticking :: ticking where
  "new_ticking = \<lparr>tk_Current = 0, tk_Stopped = {}, tk_Made = 1, tk_Goroutine = Waiting 0, tk_Polls = 0\<rparr>"

definition SetInterval :: "i64 \<Rightarrow> ticking \<Rightarrow> unit out \<times> ticking" where
  "SetInterval seconds t =
     (let t1 = t\<lparr>tk_Stopped := insert (tk_Current t) (tk_Stopped t)\<rparr>
      in if seconds * 1000000000 \<le>s 0 then (Panic ticker_panic, t1)
         else (Ok (), t1\<lparr>tk_Current := tk_Made t, tk_Made := tk_Made t + 1\<rparr>))"

inductive tstep :: "ticking \<Rightarrow> ticking \<Rightarrow> bool" where
  fire: "tk_Goroutine t = Waiting k \<Longrightarrow> k \<notin> tk_Stopped t \<Longrightarrow>
    tstep t (t\<lparr>tk_Goroutine := Busy, tk_Polls := tk_Polls t + 1\<rparr>)"
| again: "tk_Goroutine t = Busy \<Longrightarrow> tstep t (t\<lparr>tk_Goroutine := Waiting (tk_Current t)\<rparr>)"
| stop: "tk_Goroutine t = Waiting k \<Longrightarrow> tstep t (t\<lparr>tk_Goroutine := Exited\<rparr>)"
| change: "SetInterval seconds t = (Ok (), t1) \<Longrightarrow> tstep t t1"

end
