(* ===== verification/Driver_Properties.thy ===== *)
theory Driver_Properties
  imports Protocol_Table
begin

text \<open>
  What holds of the drivers the binary does not link: the contract of their batch reads, what the
  SLMP and TCP clients ask and accept, and what the collector's configuration does to them.
\<close>

section \<open>Batch reads with retries\<close>

text \<open>C17: whichever driver but HTTP a device has, a read of the collector that succeeds has one value
  per address, in any number of tries, and leaves the client well-formed. The HTTP driver
  succeeds at once with no value for any addresses.\<close>

theorem driver_read_contract:
  assumes "readWithRetry (d_ReadBatch D) (d_Reconnect D) c dev fn addrs 3 w = (r, c1, w1)"
  shows "(d_wf D c \<longrightarrow> d_wf D c1 \<and> (\<forall>vs. r = Ok vs \<longrightarrow> length vs = length addrs)) \<and>
    (\<forall>h. c = DHttp h \<longrightarrow> r = Ok [] \<and> c1 = c \<and> w1 = w)"
proof (intro conjI impI allI)
  assume wf: "d_wf D c"
  have "(0::nat) < 3" by simp
  from dcp.retry_contract [OF wf assms this]
  show "d_wf D c1" and "\<And>vs. r = Ok vs \<Longrightarrow> length vs = length addrs" by simp_all
next
  fix h
  assume "c = DHttp h"
  then show "r = Ok []" "c1 = c" "w1 = w"
    using assms by (simp_all add: readWithRetry_def numeral_3_eq_3 hc_ReadBatch_def)
qed

text \<open>A network on which every exchange is answered with the same bytes, and the other libraries.\<close>

definition echo_net :: "byte list \<Rightarrow> 'w tcpnet" where
  "echo_net bs =
     \<lparr>tn_dial = (\<lambda>addr w. (Inr 0, w)), tn_send = (\<lambda>c req w. w),
      tn_recv = (\<lambda>c n w. (Inr (take n bs), w)), tn_close = (\<lambda>c w. (None, w)), tn_now = (\<lambda>w. 0)\<rparr>"

definition demo_slmp :: SLMPClient where
  "demo_slmp = \<lparr>sl_conn = Some 0, sl_ip = ''10.0.0.2'', sl_port = ''5007''\<rparr>"

definition demo_denv :: "byte list \<Rightarrow> unit denv" where
  "demo_denv bs =
     \<lparr>de_env = demo_env, de_tcp = echo_net bs,
      de_snmp = \<lparr>sn_connect = (\<lambda>g w. (None, w)), sn_get = (\<lambda>g oids w. (Inr [], w)),
        sn_close = (\<lambda>g w. (None, w)), sn_now = (\<lambda>w. 0)\<rparr>,
      de_http = \<lparr>ht_get = (\<lambda>url w. (Inl EOF, w)), ht_json = (\<lambda>b. Inl EOF), ht_intn = (\<lambda>n w. (0, w)),
        ht_float = (\<lambda>w. (0, w)), ht_now = (\<lambda>w. 0)\<rparr>,
      de_s7 = \<lparr>s7_connect = (\<lambda>h w. (None, w)), s7_read_db = (\<lambda>h db st n w. (Inr [1, 0], w)),
        s7_close = (\<lambda>h w. (None, w)), s7_now = (\<lambda>w. 0)\<rparr>,
      de_order = (\<lambda>m. [])\<rparr>"

theorem driver_read_contract_witness:
  "\<exists>c1. readWithRetry (d_ReadBatch (demo_denv [])) (d_Reconnect (demo_denv [])) (DSlmp demo_slmp)
       ''d'' [] [''D1'', ''D2''] 3 () =
     (Ok [point_value ''D1'' VNil ''bad'' 0, point_value ''D2'' VNil ''bad'' 0], c1, ()) \<and>
     d_wf (demo_denv []) c1"
proof -
  let ?rd = "readWithRetry (d_ReadBatch (demo_denv [])) (d_Reconnect (demo_denv [])) (DSlmp demo_slmp)
       ''d'' [] [''D1'', ''D2''] 3 ()"
  have r: "?rd = (Ok [point_value ''D1'' VNil ''bad'' 0, point_value ''D2'' VNil ''bad'' 0],
      DSlmp demo_slmp, ())"
    by (simp add: readWithRetry_def numeral_3_eq_3 sl_ReadBatch_def slmp_exchange_def exchange_def
        demo_slmp_def demo_denv_def echo_net_def slmp_value_def)
  have "d_wf (demo_denv []) (DSlmp demo_slmp)" by (simp add: d_wf_def)
  with driver_read_contract [OF r] r show ?thesis by blast
qed

section \<open>SLMP\<close>

lemma read_each_map:
  "map pv_Value acc' = map pv_Value acc \<Longrightarrow> map pv_Quality acc' = map pv_Quality acc \<Longrightarrow>
   length pts' = length pts \<Longrightarrow> read_each now (\<lambda>pt. exch) pts acc w = (Ok vs, w1) \<Longrightarrow>
   \<exists>vs'. read_each now (\<lambda>pt. exch) pts' acc' w = (Ok vs', w1) \<and>
     map pv_Value vs' = map pv_Value vs \<and> map pv_Quality vs' = map pv_Quality vs"
proof (induction pts arbitrary: pts' acc acc' w)
  case Nil
  then show ?case by simp
next
  case (Cons pt pts)
  then obtain pt' ps' where p: "pts' = pt' # ps'" "length ps' = length pts"
    by (cases pts') auto
  obtain r w0 where e: "exch w = (r, w0)" by (metis prod.exhaust)
  obtain a where a: "r = Ok a" using Cons.prems(4) e by (cases r) auto
  let ?v = "\<lambda>x. case a of None \<Rightarrow> point_value x VNil ''bad'' (now w0)
    | Some v \<Rightarrow> point_value x v ''good'' (now w0)"
  have step: "read_each now (\<lambda>pt. exch) (x # xs) ac w = read_each now (\<lambda>pt. exch) xs (ac @ [?v x]) w0"
    for x xs ac using e a by (cases a) simp_all
  have "map pv_Value (acc' @ [?v pt']) = map pv_Value (acc @ [?v pt])"
    "map pv_Quality (acc' @ [?v pt']) = map pv_Quality (acc @ [?v pt])"
    using Cons.prems(1,2) by (cases a; simp add: point_value_def)+
  from Cons.IH [OF this p(2) Cons.prems(4) [unfolded step]] show ?case
    unfolding p(1) step .
qed

text \<open>C38: the SLMP driver ignores which points it is asked for: every point of a batch is answered from
  the same fixed command, so a batch of any other points of that number has the same values and
  qualities and leaves the device in the same state.\<close>

theorem slmp_batch_ignores_points:
  assumes "sl_ReadBatch tn s dev fn points w = (Ok vs, w1)" "length points' = length points"
  shows "\<exists>vs'. sl_ReadBatch tn s dev fn points' w = (Ok vs', w1) \<and>
    map pv_Value vs' = map pv_Value vs \<and> map pv_Quality vs' = map pv_Quality vs \<and>
    map pv_PointID vs' = points'"
proof (cases "points = []")
  case True
  with assms show ?thesis by (auto simp: sl_ReadBatch_def)
next
  case False
  with assms have ne: "points' \<noteq> []" by auto
  have e: "slmp_exchange tn s = (\<lambda>pt. slmp_exchange tn s [])"
    by (simp add: slmp_exchange_def fun_eq_iff)
  have "read_each (tn_now tn) (\<lambda>pt. slmp_exchange tn s []) points [] w = (Ok vs, w1)"
    using assms(1) False by (subst e [symmetric]) (simp add: sl_ReadBatch_def)
  from read_each_map [OF refl refl assms(2) this] obtain vs' where
    "read_each (tn_now tn) (slmp_exchange tn s) points' [] w = (Ok vs', w1)"
    "map pv_Value vs' = map pv_Value vs \<and> map pv_Quality vs' = map pv_Quality vs"
    by (subst (asm) e [symmetric]) blast
  with read_each_names [OF this(1)] ne show ?thesis by (auto simp: sl_ReadBatch_def)
qed

theorem slmp_batch_ignores_points_witness:
  "\<exists>vs'. sl_ReadBatch (echo_net [0,0,0,0,0,0,0,0,0,0,0,0,0,0,7,0]) demo_slmp ''d'' [] [''M20''] () =
       (Ok vs', ()) \<and> map pv_Value vs' = [VInt 7]"
proof -
  let ?tn = "echo_net [0,0,0,0,0,0,0,0,0,0,0,0,0,0,7,0] :: unit tcpnet"
  have "sl_ReadBatch ?tn demo_slmp ''d'' [] [''D100''] () =
      (Ok [point_value ''D100'' (VInt 7) ''good'' 0], ())"
    by (simp add: sl_ReadBatch_def slmp_exchange_def exchange_def demo_slmp_def echo_net_def
        slmp_value_def fill_buffer_def nth_append)
  from slmp_batch_ignores_points [OF this, of "[''M20'']"] show ?thesis
    by (auto simp: point_value_def)
qed

text \<open>An SLMP answer of 14 or 15 bytes passes the length check although the value is in bytes 14 and
  15: the missing ones are the zeroes of the buffer, and the value has quality good.\<close>

theorem slmp_short_answer_good:
  assumes "sl_conn s = Some c" "tn_recv tn c 1024 (tn_send tn c slmp_command w) = (Inr bs, w1)"
    and "length bs = 14 \<or> length bs = 15"
  shows "sl_Read tn s dev w =
    (Ok [point_value ''d100'' (VInt (if length bs = 14 then 0 else ucast (bs ! 14))) ''good''
           (tn_now tn w1)], w1)"
proof -
  have "slmp_value bs = Some (VInt (if length bs = 14 then 0 else ucast (bs ! 14)))"
    using assms(3) by (auto simp: slmp_value_def fill_buffer_def nth_append Let_def)
  then show ?thesis using assms(1,2) by (simp add: sl_Read_def exchange_def)
qed

theorem slmp_short_answer_good_witness:
  "sl_Read (echo_net (replicate 14 255)) demo_slmp ''d'' () =
     (Ok [point_value ''d100'' (VInt 0) ''good'' 0], ())"
  using slmp_short_answer_good [of demo_slmp 0 "echo_net (replicate 14 255)" "()" "replicate 14 255" "()" "''d''"]
  by (simp add: demo_slmp_def echo_net_def)

section \<open>TCP\<close>

definition hex_digits :: "string" where
  "hex_digits = ''0123456789ABCDEFabcdef''"

text \<open>The TCP driver sends the text of \<open>request_hex\<close>, not the bytes it denotes: one byte for each
  digit, and never a byte below \<open>0x30\<close>, where the unit and function of a Modbus request are.\<close>

theorem tcp_request_not_decoded:
  assumes "tc_Init tn config t w = (Ok None, t1, w1)" "config ''request_hex'' = Some (VStr req)"
    and "set req \<subseteq> set hex_digits"
  shows "length (tc_request t1) = length req \<and> (\<forall>b \<in> set (tc_request t1). 0x30 \<le> b)"
proof -
  have t1: "tc_request t1 = text_bytes req"
    using assms(1,2) by (auto simp: tc_Init_def as_string_def mget_def Let_def
        split: out.splits goval.splits prod.splits)
  have "\<forall>c \<in> set hex_digits. (0x30 :: byte) \<le> word_of_nat (of_char c)" by code_simp
  with assms(3) t1 show ?thesis by (auto simp: text_bytes_def)
qed

theorem tcp_request_not_decoded_witness:
  "\<exists>t1. tc_Init (echo_net []) [''ip'' \<mapsto> VStr ''h'', ''port'' \<mapsto> VStr ''502'',
       ''request_hex'' \<mapsto> VStr ''0103''] NewTCPClient () = (Ok None, t1, ()) \<and>
     length (tc_request t1) = 4"
proof -
  let ?c = "[''ip'' \<mapsto> VStr ''h'', ''port'' \<mapsto> VStr ''502'', ''request_hex'' \<mapsto> VStr ''0103'']"
  obtain t1 where r: "tc_Init (echo_net [] :: unit tcpnet) ?c NewTCPClient () = (Ok None, t1, ())"
    by (simp add: tc_Init_def as_string_def mget_def Let_def echo_net_def error_of_def)
  have "set ''0103'' \<subseteq> set hex_digits" by code_simp
  from tcp_request_not_decoded [OF r _ this] r show ?thesis by simp
qed

section \<open>The collector's configuration\<close>

lemma as_string_cases [case_names Ok Panic]:
  obtains v where "as_string config k = Ok v" | x where "as_string config k = Panic x"
  by (cases "mget config k") (auto simp: as_string_def)

lemma sl_Init_int_port:
  assumes "mget config ''port'' = VInt p" "sl_Init tn config s w = (r, s1, w1)"
  shows "is_panic r"
  using assms by (cases config "''ip''" rule: as_string_cases)
    (auto simp: sl_Init_def as_string_def [of _ "''port''"])

lemma tc_Init_int_port:
  assumes "mget config ''port'' = VInt p" "tc_Init tn config t w = (r, t1, w1)"
  shows "is_panic r"
  using assms by (cases config "''ip''" rule: as_string_cases)
    (auto simp: tc_Init_def as_string_def [of _ "''port''"])

lemma sp_Init_int_port:
  assumes "mget config ''port'' = VInt p" "sp_Init sn config s w = (r, s1, w1)"
  shows "is_panic r"
  using assms by (cases config "''ip''" rule: as_string_cases)
    (auto simp: sp_Init_def as_float_def)

lemma meta_port: "map_of (meta_fields meta) ''port'' = Some (VInt (dm_Port meta))"
  by (simp add: meta_fields_def)

text \<open>C36: on a configuration that the collector builds, the SLMP, TCP and SNMP drivers panic in \<open>Init\<close>
  unless the device's own configuration has a port: the port of the device's entry is always
  injected, as an \<open>int\<close>, and their assertions ask for a string or a \<open>float64\<close>.\<close>

theorem injected_port_panics:
  assumes "name \<in> {''slmp'', ''tcpclient'', ''snmp''}" "Create full_registry name = Inr c"
    and "(case dc_Config dev of None \<Rightarrow> None | Some m \<Rightarrow> m ''port'') = None"
  shows "is_panic (fst (d_Init D (merged_config dev protoParams) c w))"
proof -
  have p: "mget (merged_config dev protoParams) ''port'' = VInt (dm_Port (dc_Meta dev))"
    using assms(3) by (cases "dc_Config dev")
      (simp_all add: mget_def merged_config_def injectDeviceMeta_def add_missing_lookup meta_port Let_def)
  have "c = DSlmp NewSLMPClient \<or> c = DTcp NewTCPClient \<or> c = DSnmp NewSNMPClient"
    using assms(1,2) by (auto simp: Create_def full_registry_def Register_def)
  then show ?thesis
    by (elim disjE) (simp_all split: prod.splits
        add: sl_Init_int_port [OF p] tc_Init_int_port [OF p] sp_Init_int_port [OF p])
qed

definition demo_device :: DeviceConfigWithMeta where
  "demo_device =
     \<lparr>dc_Meta = \<lparr>dm_ID = ''p'', dm_Name = [], dm_Description = [], dm_Protocol = ''slmp'',
        dm_ProtocolName = ''p1'', dm_Interval = [], dm_EnablePing = False, dm_IP = ''10.0.0.2'',
        dm_Port = 5007, dm_SlaveID = 0\<rparr>, dc_Config = None\<rparr>"

theorem injected_port_panics_witness:
  "is_panic (fst (d_Init (demo_denv []) (merged_config demo_device []) (DSlmp NewSLMPClient) ()))"
  by (rule injected_port_panics [of "''slmp''"])
    (simp_all add: Create_def full_registry_def Register_def demo_device_def)

section \<open>HTTP\<close>

text \<open>The HTTP driver reports an unreachable server as a temperature of 22 degrees without an error.\<close>

theorem http_unreachable_reads_22:
  assumes "hc_URL h \<noteq> ''MOCK''" "ht_get ht (hc_URL h) w = (Inl e, w1)"
  shows "hc_Read ht h dev w =
    (Ok [point_value ''http_temp'' (VF64 (f64_of_int 22)) ''mock'' (ht_now ht w1)], w1)"
  using assms by (simp add: hc_Read_def)

end
