(* ===== verification/Scheduler_Properties.thy ===== *)
theory Scheduler_Properties
  imports Scheduler Driver_Properties
begin

text \<open>
  What the schedulers do and do not: their agreement, the points a Modbus device never gets, the
  file the third one does not find, goroutines that outlive a failed start, and a runner that
  stops polling when its interval is changed.
\<close>

section \<open>The three ticks\<close>

lemma map_points2_eq: "map_points2 gov dev raw ps mapped out = map_points1 gov dev raw ps mapped out"
  by (induction ps arbitrary: mapped out) (simp_all add: Let_def)

text \<open>The alarms of the points whose condition holds, and the report of a tick.\<close>

definition point_alarms :: "govaluate \<Rightarrow> gomap \<Rightarrow> PointMapping list \<Rightarrow> AlarmInfo list" where
  "point_alarms gov raw ps =
     map (\<lambda>p. \<lparr>ai_Name = pm_Name p, ai_Level = ar_Level (pm_Alarm p), ai_Message = ar_Message (pm_Alarm p)\<rparr>)
       (filter (\<lambda>p. point_alarm gov p (transform_point gov p (mget raw (pm_Address p)))) ps)"

definition tick_report :: "'w denv \<Rightarrow> PointMapping list \<Rightarrow> string \<Rightarrow> gomap \<Rightarrow> 'w \<Rightarrow> byte list" where
  "tick_report D ps dev raw w =
     EncodeDataReport (en_marshal (de_env D)) (en_now (de_env D) w) dev
       (fst (map_points1 (en_gov (de_env D)) dev raw ps Map.empty []))
       (point_alarms (en_gov (de_env D)) raw ps) Map.empty"

lemma map_points3_eq:
  "map_points3 gov dev raw ps mapped alarms out =
     (fst (map_points1 gov dev raw ps mapped out), alarms @ point_alarms gov raw ps,
      snd (map_points1 gov dev raw ps mapped out))"
proof (induction ps arbitrary: mapped alarms out)
  case (Cons p ps)
  show ?case
    by (cases "point_alarm gov p (transform_point gov p (mget raw (pm_Address p)))")
      (simp_all add: Let_def Cons.IH point_alarms_def)
qed (simp add: point_alarms_def)

text \<open>What the third scheduler does after the first one's tick.\<close>

definition send_report ::
  "'w denv \<Rightarrow> uplink list \<Rightarrow> byte list \<Rightarrow> 'w \<Rightarrow> unit out \<times> RuleEngine \<times> line list \<times> 'w
    \<Rightarrow> unit out \<times> RuleEngine \<times> line list \<times> 'w" where
  "send_report D ups payload w t =
     (case (t, SendToAll (en_net (de_env D)) ups payload w) of
        ((_, re, out, _), (Panic x, w1)) \<Rightarrow> (Panic x, re, out, w1)
      | ((_, re, out, _), (_, w1)) \<Rightarrow> (Ok (), re, out, w1))"

lemma tick2_eq: "tick2 D pm r re w = tick1 D pm r re w"
  by (simp add: tick1_def tick2_def map_points2_eq split: out.splits prod.splits)

lemma tick3_eq:
  "tick3 D ups pm r re w =
     (case d_Read D (rn_Client r) (rn_ID r) w of
        (Ok vs, w1) \<Rightarrow>
          send_report D ups (tick_report D (points_of pm (rn_ID r)) (rn_ID r) (raw_points vs Map.empty) w1) w1
            (tick1 D pm r re w)
      | _ \<Rightarrow> tick1 D pm r re w)"
proof -
  obtain res w0 where rd: "d_Read D (rn_Client r) (rn_ID r) w = (res, w0)" by (metis prod.exhaust)
  show ?thesis
  proof (cases res)
    case (Ok vs)
    obtain mapped out where m: "map_points1 (en_gov (de_env D)) (rn_ID r) (raw_points vs Map.empty)
        (points_of pm (rn_ID r)) Map.empty [] = (mapped, out)" by (metis prod.exhaust)
    obtain sr w2 where "SendToAll (en_net (de_env D)) ups
        (tick_report D (points_of pm (rn_ID r)) (rn_ID r) (raw_points vs Map.empty) w0) w0 = (sr, w2)"
      by (metis prod.exhaust)
    then show ?thesis
      using rd Ok by (cases sr) (simp_all add: tick1_def tick3_def map_points3_eq send_report_def tick_report_def m)
  qed (use rd in \<open>simp_all add: tick1_def tick3_def\<close>)
qed

text \<open>C18: the three schedulers are one, although they were written three times: they start the same
  runners, or fail alike, the first two on the points of \<open>configs/points.yaml\<close> and the third on those
  of \<open>config/points.yaml\<close>. At a tick the second does what the first does, and the third does
  what the first would do on its points; then, when the read succeeded, it sends one report
  with the mapped points and the alarms of those whose condition holds to every channel, and
  drops the error.\<close>

theorem schedulers_agree:
  "StartSchedulerWithRuleEngine D F reg devices w =
     (case StartScheduler D F reg devices w of (r, started, pm, re, w1) \<Rightarrow> (r, started, pm, w1)) \<and>
   StartSchedulerWithRuleEngineAndUplink D F reg devices w =
     (case StartScheduler D F reg devices w of
        (r, started, pm, re, w1) \<Rightarrow> (r, started, scheduler_points F ''config/points.yaml'', w1)) \<and>
   tick2 D pm r re w = tick1 D pm r re w \<and>
   tick3 D ups pm r re w =
     (case d_Read D (rn_Client r) (rn_ID r) w of
        (Ok vs, w1) \<Rightarrow>
          send_report D ups (tick_report D (points_of pm (rn_ID r)) (rn_ID r) (raw_points vs Map.empty) w1) w1
            (tick1 D pm r re w)
      | _ \<Rightarrow> tick1 D pm r re w)"
  unfolding tick2_eq tick3_eq StartScheduler_def StartSchedulerWithRuleEngine_def
    StartSchedulerWithRuleEngineAndUplink_def
  by (simp add: Let_def split: prod.splits)

section \<open>Modbus points under the schedulers\<close>

lemma raw_points_other: "k \<notin> pv_PointID ` set vs \<Longrightarrow> raw_points vs raw k = raw k"
  by (induction vs raw rule: raw_points.induct) auto

lemma mb_Read_names:
  assumes "mb_Read lib m w = (Ok vs, w1)" "v \<in> set vs"
  shows "\<exists>i. pv_PointID v = ''reg'' @ dec_of_nat i"
proof -
  obtain s where m: "map_out (\<lambda>i. bind_out (slice_u16 s (i * 2)) (\<lambda>v.
      Ok \<lparr>pv_PointID = ''reg'' @ dec_of_nat i, pv_Value = VUint16 v, pv_Quality = ''good'',
          pv_Timestamp = lib_now lib w1\<rparr>)) [0..<slice_len s div 2] = Ok vs"
    using assms(1) by (auto simp: mb_Read_def Let_def split: prod.splits)
  obtain k where k: "k < length vs" "v = vs ! k" using assms(2) by (auto simp: in_set_conv_nth)
  have "k < length [0..<slice_len s div 2]" using k(1) map_out_Ok_length [OF m] by simp
  from map_out_Ok_nth [OF m this] obtain u where
    "\<lparr>pv_PointID = ''reg'' @ dec_of_nat ([0..<slice_len s div 2] ! k), pv_Value = VUint16 u,
      pv_Quality = ''good'', pv_Timestamp = lib_now lib w1\<rparr> = vs ! k"
    by auto
  then show ?thesis unfolding k(2) by (metis PointValue.select_convs(1))
qed

lemma map_points1_cong:
  "\<forall>p \<in> set ps. mget raw (pm_Address p) = mget raw2 (pm_Address p) \<Longrightarrow>
   map_points1 gov dev raw ps mapped out = map_points1 gov dev raw2 ps mapped out"
  by (induction ps arbitrary: mapped out) (simp_all add: Let_def)

lemma point_alarms_cong:
  "\<forall>p \<in> set ps. mget raw (pm_Address p) = mget raw2 (pm_Address p) \<Longrightarrow>
   point_alarms gov raw ps = point_alarms gov raw2 ps"
  by (auto simp: point_alarms_def intro!: arg_cong [where f = "map _"] filter_cong)

lemma map_points1_sources:
  assumes "map_points1 gov dev Map.empty ps mapped out = (mapped1, out1)" "mapped1 n = Some v"
  shows "mapped n = Some v \<or> (\<exists>p \<in> set ps. pm_Name p = n \<and> v = transform_point gov p VNil)"
  using assms by (induction ps arbitrary: mapped out) (fastforce simp: Let_def split: if_splits)+

lemma agg_loop_nil:
  "\<forall>n v. pm n = Some v \<longrightarrow> v = VNil \<Longrightarrow> agg_loop dev pm rules bufs = bufs"
proof (induction rules arbitrary: bufs)
  case (Cons r rules)
  then have "pm (ag_Point r) = None \<or> pm (ag_Point r) = Some VNil"
    by (cases "pm (ag_Point r)") auto
  then have "agg_rule dev pm r bufs = bufs"
    by (auto simp: agg_rule_def Let_def)
  with Cons show ?case by simp
qed simp

text \<open>C34: under the three schedulers nothing that a Modbus device holds ever reaches a point: \<open>Read\<close>
  names its registers \<open>reg0\<close>, \<open>reg1\<close> and so on, and the points are looked up by address. Unless an
  address has such a name, a tick prints, gives to the rules and reports what it would with no
  register read at all: each point is what its transform makes of nil, and without transforms
  every point is nil and no window of the rules gets a sample.\<close>

theorem scheduler_modbus_points_nil:
  assumes "rn_Client r = DBase (CModbus m)" "mb_Read (en_mb (de_env D)) m w = (Ok vs, w1)"
    and "ps = points_of pm (rn_ID r)" "\<forall>p \<in> set ps. \<forall>n. pm_Address p \<noteq> ''reg'' @ dec_of_nat n"
    and "map_points1 (en_gov (de_env D)) (rn_ID r) Map.empty ps Map.empty [] = (mapped, out)"
    and "re1 = fst (ApplyRules (en_gov (de_env D)) re (rn_ID r) mapped)"
  shows "tick1 D pm r re w = (Ok (), re1, out, w1) \<and> tick2 D pm r re w = (Ok (), re1, out, w1) \<and>
    tick3 D ups pm r re w =
      send_report D ups (tick_report D ps (rn_ID r) Map.empty w1) w1 (Ok (), re1, out, w1) \<and>
    (\<forall>n v. mapped n = Some v \<longrightarrow> (\<exists>p \<in> set ps. pm_Name p = n \<and> v = transform_point (en_gov (de_env D)) p VNil)) \<and>
    ((\<forall>p \<in> set ps. pm_Transform p = []) \<longrightarrow>
      (\<forall>n v. mapped n = Some v \<longrightarrow> v = VNil) \<and> re_Buffers re1 = re_Buffers re)"
proof -
  let ?raw = "raw_points vs Map.empty" and ?gov = "en_gov (de_env D)"
  have rd: "d_Read D (rn_Client r) (rn_ID r) w = (Ok vs, w1)" by (simp add: assms(1,2))
  have raw: "\<forall>p \<in> set ps. mget ?raw (pm_Address p) = mget Map.empty (pm_Address p)"
  proof
    fix p assume "p \<in> set ps"
    then have "pm_Address p \<notin> pv_PointID ` set vs"
      using assms(4) mb_Read_names [OF assms(2)] by fastforce
    then show "mget ?raw (pm_Address p) = mget Map.empty (pm_Address p)"
      by (simp add: mget_def raw_points_other)
  qed
  note mp = map_points1_cong [OF raw, of ?gov "rn_ID r" Map.empty "[]"]
  have t1: "tick1 D pm r re w = (Ok (), re1, out, w1)"
    by (simp add: tick1_def rd assms(3) [symmetric] mp assms(5,6) Let_def)
  have t3: "tick3 D ups pm r re w =
      send_report D ups (tick_report D ps (rn_ID r) Map.empty w1) w1 (Ok (), re1, out, w1)"
    by (simp add: tick3_eq rd t1 assms(3) [symmetric] tick_report_def mp point_alarms_cong [OF raw])
  have src: "\<exists>p \<in> set ps. pm_Name p = n \<and> v = transform_point ?gov p VNil" if "mapped n = Some v" for n v
    using map_points1_sources [OF assms(5) that] by simp
  have "v = VNil" if "\<forall>p \<in> set ps. pm_Transform p = []" "mapped n = Some v" for n v
    using src [OF that(2)] that(1) by (auto simp: transform_point_def)
  moreover from this agg_loop_nil [of mapped] have "re_Buffers re1 = re_Buffers re"
    if "\<forall>p \<in> set ps. pm_Transform p = []"
    using that unfolding assms(6) by (simp add: ApplyRules_def Let_def)
  ultimately show ?thesis using t1 t3 src by (auto simp: tick2_eq)
qed

definition demo_runner :: DeviceRunner where
  "demo_runner = \<lparr>rn_ID = ''d'', rn_Client = DBase (CModbus demo_client), rn_Period = 1000000000\<rparr>"

lemma demo_Read: "case fst (mb_Read (plain_device (\<lambda>s a. a)) demo_client ()) of Ok vs \<Rightarrow> True | _ \<Rightarrow> False"
  by code_simp

theorem scheduler_modbus_points_nil_witness:
  "\<exists>re1 out. tick1 (demo_denv []) [''d'' \<mapsto> [(demo_point [] [])\<lparr>pm_Transform := []\<rparr>]] demo_runner
     (NewRuleEngine [demo_agg ''d'' ''t'' 3] [] []) () = (Ok (), re1, out, ()) \<and>
     re_Buffers re1 = Map.empty \<and> out = [MappedLine ''d'' ''t'' [] VNil []]"
proof -
  let ?D = "demo_denv []" and ?p = "(demo_point [] [])\<lparr>pm_Transform := []\<rparr>"
  let ?re = "NewRuleEngine [demo_agg ''d'' ''t'' 3] [] []"
  have c: "rn_Client demo_runner = DBase (CModbus demo_client)" by (simp add: demo_runner_def)
  have "\<exists>vs. mb_Read (plain_device (\<lambda>s a. a)) demo_client () = (Ok vs, ())"
    using demo_Read by (cases "mb_Read (plain_device (\<lambda>s a. a)) demo_client ()") (auto split: out.splits)
  then obtain vs where rd: "mb_Read (en_mb (de_env ?D)) demo_client () = (Ok vs, ())"
    by (auto simp: demo_denv_def demo_env_def)
  have d: "[?p] = points_of [''d'' \<mapsto> [?p]] (rn_ID demo_runner)"
    by (simp add: points_of_def demo_runner_def)
  have n: "\<forall>p \<in> set [?p]. \<forall>n. pm_Address p \<noteq> ''reg'' @ dec_of_nat n"
    by (simp add: demo_point_def)
  obtain mapped out where m: "map_points1 (en_gov (de_env ?D)) (rn_ID demo_runner) Map.empty [?p] Map.empty [] =
      (mapped, out)" by (metis prod.exhaust)
  then have "out = [MappedLine ''d'' ''t'' [] VNil []]"
    by (auto simp: Let_def transform_point_def point_alarm_def demo_point_def demo_runner_def)
  moreover have "re_Buffers ?re = Map.empty" by (simp add: NewRuleEngine_def)
  ultimately show ?thesis
    using scheduler_modbus_points_nil [OF c rd d n m refl, of ?re "[]"] by auto
qed

section \<open>The third scheduler\<close>

text \<open>The third scheduler reports nothing where the points are in \<open>configs/points.yaml\<close> only: it
  looks for \<open>config/points.yaml\<close>, drops the error, and each of its reports has no data and no
  alarm, whatever the device returned.\<close>

theorem third_scheduler_reports_nothing:
  assumes "fs_read F ''config/points.yaml'' = Inl e"
    and "StartSchedulerWithRuleEngineAndUplink D F reg devices w = (res, started, pm, w1)"
    and "d_Read D (rn_Client r) (rn_ID r) w2 = (Ok vs, w3)" "\<forall>up \<in> set ups. up_ready up"
  shows "tick3 D ups pm r re w2 =
    (Ok (), fst (ApplyRules (en_gov (de_env D)) re (rn_ID r) Map.empty), [],
     foldl (\<lambda>w up. snd (up_Send (en_net (de_env D)) up
        (EncodeDataReport (en_marshal (de_env D)) (en_now (de_env D) w3) (rn_ID r) Map.empty [] Map.empty) w))
       w3 ups)"
proof -
  have pm: "pm = Map.empty"
    using assms(1,2) by (auto simp: StartSchedulerWithRuleEngineAndUplink_def scheduler_points_def
        LoadPointMappings_def split: prod.splits)
  show ?thesis
    by (simp add: tick3_def pm points_of_def Let_def assms(3) SendToAll_ready [OF assms(4)])
qed

text \<open>A file system without files.\<close>

definition no_files :: configfs where
  "no_files =
     \<lparr>fs_read = (\<lambda>f. Inl EOF), ym_config = (\<lambda>d. (\<lparr>cg_Devices = []\<rparr>, None)), ym_devices = (\<lambda>d. ([], None)),
      js_devices = (\<lambda>d. ([], None)), ym_points = (\<lambda>d. ([], None)), ym_points2 = (\<lambda>d. ([], None)),
      ym_agg = (\<lambda>d. ([], None)), ym_alarm = (\<lambda>d. ([], None)), ym_linkage = (\<lambda>d. ([], None)),
      ym_rules = (\<lambda>d. ([], None)), ym_uplinks = (\<lambda>d. ([], None)), ym_protocols = (\<lambda>d. (\<lambda>k. [], None))\<rparr>"

theorem third_scheduler_reports_nothing_witness:
  "\<exists>re1. tick3 (demo_denv []) [NatsUplink] Map.empty
     \<lparr>rn_ID = ''h'', rn_Client = DHttp \<lparr>hc_URL = ''u'', hc_Method = []\<rparr>, rn_Period = 1000000000\<rparr>
     (NewRuleEngine [] [] []) () = (Ok (), re1, [], ())"
proof -
  let ?D = "demo_denv []"
  let ?r = "\<lparr>rn_ID = ''h'', rn_Client = DHttp \<lparr>hc_URL = ''u'', hc_Method = []\<rparr>, rn_Period = 1000000000\<rparr>"
  have f: "fs_read no_files ''config/points.yaml'' = Inl EOF" by (simp add: no_files_def)
  have s: "StartSchedulerWithRuleEngineAndUplink ?D no_files full_registry [] () = (Ok [], [], Map.empty, ())"
    by (simp add: StartSchedulerWithRuleEngineAndUplink_def scheduler_points_def LoadPointMappings_def f)
  obtain vs where d: "d_Read ?D (rn_Client ?r) (rn_ID ?r) () = (Ok vs, ())"
    by (simp add: hc_Read_def demo_denv_def)
  have "\<forall>up \<in> set [NatsUplink]. up_ready up" by simp
  from third_scheduler_reports_nothing [OF f s d this] show ?thesis by simp
qed

section \<open>A start that fails\<close>

lemma start_runners_append:
  "start_runners D reg devs1 runners w = (Ok rs, rs1, w1) \<Longrightarrow>
   start_runners D reg (devs1 @ devs2) runners w = start_runners D reg devs2 rs w1 \<and>
   map rn_ID rs = map rn_ID runners @ map cf_ID devs1"
  by (induction D reg devs1 runners w rule: start_runners.induct)
    (auto simp: Let_def split: sum.splits prod.splits out.splits option.splits if_splits)

lemma start_runners_stops:
  assumes "start_runners D reg [dev] [] w = (bad, started, w1)" "\<forall>rs. bad \<noteq> Ok rs"
  shows "start_runners D reg (dev # devs) runners w = (bad, runners, w1)"
  using assms by (auto simp: Let_def split: sum.splits prod.splits out.splits option.splits if_splits)

text \<open>C35: a scheduler that cannot start a device leaks those before it: when the devices \<open>devs1\<close> start
  with the runners \<open>rs\<close> and the next one fails, each of the three schedulers returns that device's
  error, or panics as it does, and no runners, whereas all of \<open>rs\<close>, one for each of \<open>devs1\<close>, have
  been started and run on with nothing left to stop them; the devices after it are not tried.\<close>

theorem failed_start_leaks_runners:
  assumes "start_runners D reg devs1 [] w = (Ok rs, rs, w1)"
    and "start_runners D reg [dev] [] w1 = (bad, [], w2)" "\<forall>x. bad \<noteq> Ok x"
  shows "map rn_ID rs = map cf_ID devs1 \<and>
    (\<exists>pm re. StartScheduler D F reg (devs1 @ dev # devs2) w = (bad, rs, pm, re, w2)) \<and>
    (\<exists>pm. StartSchedulerWithRuleEngine D F reg (devs1 @ dev # devs2) w = (bad, rs, pm, w2)) \<and>
    (\<exists>pm. StartSchedulerWithRuleEngineAndUplink D F reg (devs1 @ dev # devs2) w = (bad, rs, pm, w2))"
proof -
  note ok = start_runners_append [OF assms(1)]
  have "start_runners D reg (devs1 @ dev # devs2) [] w = (bad, rs, w2)"
    using ok start_runners_stops [OF assms(2,3), of devs2 rs] by simp
  with ok show ?thesis
    by (simp add: StartScheduler_def StartSchedulerWithRuleEngine_def
        StartSchedulerWithRuleEngineAndUplink_def Let_def)
qed

theorem failed_start_leaks_runners_witness:
  "\<exists>e pm. StartSchedulerWithRuleEngine (demo_denv []) no_files full_registry
     [\<lparr>cf_ID = ''a'', cf_Protocol = ''http'', cf_Interval = 1,
       cf_Config = [''url'' \<mapsto> VStr ''u'', ''method'' \<mapsto> VStr ''GET'']\<rparr>,
      \<lparr>cf_ID = ''b'', cf_Protocol = ''opcua'', cf_Interval = 1, cf_Config = Map.empty\<rparr>] () =
     (Err e, [\<lparr>rn_ID = ''a'', rn_Client = DHttp \<lparr>hc_URL = ''u'', hc_Method = ''GET''\<rparr>,
               rn_Period = 1000000000\<rparr>], pm, ())"
proof -
  let ?a = "\<lparr>cf_ID = ''a'', cf_Protocol = ''http'', cf_Interval = 1,
       cf_Config = [''url'' \<mapsto> VStr ''u'', ''method'' \<mapsto> VStr ''GET'']\<rparr>"
  let ?b = "\<lparr>cf_ID = ''b'', cf_Protocol = ''opcua'', cf_Interval = 1, cf_Config = Map.empty\<rparr>"
  let ?r = "\<lparr>rn_ID = ''a'', rn_Client = DHttp \<lparr>hc_URL = ''u'', hc_Method = ''GET''\<rparr>, rn_Period = 1000000000\<rparr>"
  have a: "start_runners (demo_denv []) full_registry [?a] [] () = (Ok [?r], [?r], ())"
    by (simp add: Create_def full_registry_def Register_def hc_Init_def as_string_def mget_def Let_def
        NewHTTPClient_def word_sle_eq)
  obtain e where b: "start_runners (demo_denv []) full_registry [?b] [] () = (Err e, [], ())"
    by (simp add: Create_def full_registry_def Register_def)
  from failed_start_leaks_runners [OF a b, of no_files "[]"] show ?thesis by auto
qed

section \<open>Changing the interval\<close>

definition ticking_inv :: "ticking \<Rightarrow> bool" where
  "ticking_inv t \<longleftrightarrow> (\<forall>k. tk_Goroutine t = Waiting k \<longrightarrow> k = tk_Current t \<or> k \<in> tk_Stopped t)"

definition starved :: "ticking \<Rightarrow> bool" where
  "starved t \<longleftrightarrow> tk_Goroutine t = Exited \<or> (\<exists>k. tk_Goroutine t = Waiting k \<and> k \<in> tk_Stopped t)"

inductive_cases tstepE: "tstep t t1"

lemma SetInterval_Ok:
  "SetInterval seconds t = (Ok (), t1) \<Longrightarrow> tk_Goroutine t1 = tk_Goroutine t \<and> tk_Polls t1 = tk_Polls t \<and>
     tk_Stopped t1 = insert (tk_Current t) (tk_Stopped t)"
  by (auto simp: SetInterval_def Let_def split: if_splits)

lemma tstep_inv: "tstep t t1 \<Longrightarrow> ticking_inv t \<Longrightarrow> ticking_inv t1"
  by (erule tstepE) (auto simp: ticking_inv_def dest: SetInterval_Ok)

lemma tsteps_inv: "tstep\<^sup>*\<^sup>* new_ticking t \<Longrightarrow> ticking_inv t"
proof (induction rule: rtranclp_induct)
  case base
  show ?case by (simp add: new_ticking_def ticking_inv_def)
next
  case (step t t1)
  then show ?case by (blast intro: tstep_inv)
qed

lemma starved_step: "tstep t t1 \<Longrightarrow> starved t \<Longrightarrow> starved t1 \<and> tk_Polls t1 = tk_Polls t"
  by (erule tstepE) (auto simp: starved_def dest: SetInterval_Ok)

lemma starved_steps: "tstep\<^sup>*\<^sup>* t t1 \<Longrightarrow> starved t \<Longrightarrow> starved t1 \<and> tk_Polls t1 = tk_Polls t"
  by (induction rule: rtranclp_induct) (auto dest: starved_step)

text \<open>C19: a runner whose interval is changed while it waits never polls again: it waits on the channel
  of the ticker that was stopped, and no later tick, change of the interval or step of its own
  wakes it, other than to end.\<close>

theorem SetInterval_starves_runner:
  assumes "tstep\<^sup>*\<^sup>* new_ticking t" "tk_Goroutine t = Waiting k" "SetInterval seconds t = (Ok (), t1)"
    and "tstep\<^sup>*\<^sup>* t1 t2"
  shows "tk_Polls t2 = tk_Polls t"
proof -
  have "starved t1"
    using tsteps_inv [OF assms(1)] assms(2) SetInterval_Ok [OF assms(3)]
    by (auto simp: starved_def ticking_inv_def)
  from starved_steps [OF assms(4) this] SetInterval_Ok [OF assms(3)] show ?thesis by simp
qed

theorem SetInterval_starves_runner_witness:
  "\<exists>t1. SetInterval 2 new_ticking = (Ok (), t1) \<and> tk_Current t1 = 1 \<and> tk_Polls t1 = 0"
proof -
  let ?t1 = "new_ticking\<lparr>tk_Stopped := {0}, tk_Current := 1, tk_Made := 2\<rparr>"
  have s: "SetInterval 2 new_ticking = (Ok (), ?t1)"
    by (simp add: SetInterval_def new_ticking_def word_sle_eq)
  have "tk_Goroutine new_ticking = Waiting 0" by (simp add: new_ticking_def)
  from SetInterval_starves_runner [OF rtranclp.rtrancl_refl this s rtranclp.rtrancl_refl] s
  show ?thesis by (simp add: new_ticking_def)
qed

end
