(* ===== verification/Device_Manager.thy ===== *)
theory Device_Manager
  imports Driver_Properties
begin

text \<open>
  The device manager of \<open>core/device_manager.go\<close>: registering a device with its client, and the
  monitors that probe the devices with ping enabled. A step relation interleaves registrations
  with the probes of all monitors; a panic in any goroutine ends the process.
\<close>

section \<open>The table of devices\<close>

record ManagedDevice =
  md_Meta :: DeviceMeta
  md_Client :: dclient
  md_Healthy :: bool

text \<open>The monitors that run, each with its arguments, and the devices they look up at every probe.\<close>

record DeviceManager =
  mg_Devices :: "string \<rightharpoonup> ManagedDevice"
  mg_Monitors :: "(string \<times> gomap) list"

definition NewDeviceManager :: DeviceManager where
  "NewDeviceManager = \<lparr>mg_Devices = Map.empty, mg_Monitors = []\<rparr>"

definition config_of :: "DeviceConfigWithMeta \<Rightarrow> gomap" where  \<comment> \<open>a nil map reads as an empty one\<close>
  "config_of dev = (case dc_Config dev of None \<Rightarrow> Map.empty | Some c \<Rightarrow> c)"

definition register_device ::
  "'w denv \<Rightarrow> dclient registry \<Rightarrow> DeviceConfigWithMeta \<Rightarrow> DeviceManager \<Rightarrow> 'w
    \<Rightarrow> unit out \<times> DeviceManager \<times> 'w" where
  "register_device D reg dev M w =
     (let meta = dc_Meta dev; i = dm_ID meta
      in case Create reg (dm_Protocol meta) of
           Inl e \<Rightarrow> (Err (ErrText (''unsupported protocol: '' @ dm_Protocol meta)), M, w)
         | Inr c \<Rightarrow>
             (case d_Init D (config_of dev) c w of
                (Ok (Some e), c1, w1) \<Rightarrow> (Err (ErrText (''init error: '' @ err_text e)), M, w1)
              | (Ok None, c1, w1) \<Rightarrow>
                  (let M1 = M\<lparr>mg_Devices := (mg_Devices M)(i \<mapsto>
                              \<lparr>md_Meta = meta, md_Client = c1, md_Healthy = True\<rparr>)\<rparr>;
                       M2 = (if dm_EnablePing meta
                             then M1\<lparr>mg_Monitors := mg_Monitors M1 @ [(i, config_of dev)]\<rparr> else M1)
                   in if dm_Protocol meta = ''http'' \<and> i = ''plc2''
                      then (case d_Write D c1 ''d200'' (VInt 0) w1 of
                              (Panic x, c2, w2) \<Rightarrow> (Panic x, M2, w2)
                            | (_, c2, w2) \<Rightarrow>
                                (Ok (),
                                 M2\<lparr>mg_Devices := (mg_Devices M2)(i \<mapsto>
                                   \<lparr>md_Meta = meta, md_Client = c2, md_Healthy = True\<rparr>)\<rparr>, w2))
                      else (Ok (), M2, w1))
              | (Err e, c1, w1) \<Rightarrow> (Err e, M, w1)
              | (Panic x, c1, w1) \<Rightarrow> (Panic x, M, w1)))"

section \<open>A probe\<close>

definition set_healthy :: "string \<Rightarrow> bool \<Rightarrow> DeviceManager \<Rightarrow> unit out \<times> DeviceManager" where
  \<comment> \<open>\<open>m.Devices[id].Healthy = b\<close>\<close>
  "set_healthy i b M =
     (case mg_Devices M i of
        None \<Rightarrow> (Panic NilDeref, M)
      | Some d \<Rightarrow> (Ok (), M\<lparr>mg_Devices := (mg_Devices M)(i \<mapsto> d\<lparr>md_Healthy := b\<rparr>)\<rparr>))"

text \<open>One turn of the loop of \<open>startHealthMonitor\<close>.\<close>

definition probe ::
  "'w denv \<Rightarrow> string \<times> gomap \<Rightarrow> DeviceManager \<Rightarrow> 'w \<Rightarrow> unit out \<times> DeviceManager \<times> 'w" where
  "probe D m M w =
     (case m of (i, config) \<Rightarrow>
       (case as_string config ''ip'' of
          Ok addr \<Rightarrow>
            (case tn_dial (de_tcp D) (addr @ '':80'') w of
               (Inl e, w1) \<Rightarrow> (case set_healthy i False M of (r, M1) \<Rightarrow> (r, M1, w1))
             | (Inr conn, w1) \<Rightarrow>
                 (case tn_close (de_tcp D) conn w1 of
                    (_, w2) \<Rightarrow> (case set_healthy i True M of (r, M1) \<Rightarrow> (r, M1, w2))))
        | Err e \<Rightarrow> (Err e, M, w)
        | Panic x \<Rightarrow> (Panic x, M, w)))"

section \<open>Registrations and probes interleaved\<close>

record 'w mstate =
  ms_manager :: DeviceManager
  ms_world :: 'w
  ms_crashed :: "panic option"

inductive mstep :: "'w denv \<Rightarrow> dclient registry \<Rightarrow> 'w mstate \<Rightarrow> 'w mstate \<Rightarrow> bool"
  for D :: "'w denv" and reg :: "dclient registry" where
  registers: "ms_crashed s = None \<Longrightarrow>
    register_device D reg dev (ms_manager s) (ms_world s) = (r, M, w) \<Longrightarrow>
    mstep D reg s \<lparr>ms_manager = M, ms_world = w, ms_crashed = panic_of r\<rparr>"
| probes: "ms_crashed s = None \<Longrightarrow> m \<in> set (mg_Monitors (ms_manager s)) \<Longrightarrow>
    probe D m (ms_manager s) (ms_world s) = (r, M, w) \<Longrightarrow>
    mstep D reg s \<lparr>ms_manager = M, ms_world = w, ms_crashed = panic_of r\<rparr>"
| elsewhere: "ms_crashed s = None \<Longrightarrow> mstep D reg s (s\<lparr>ms_world := w\<rparr>)"

inductive_cases mstepE: "mstep D reg s s1"

definition new_mstate :: "'w \<Rightarrow> 'w mstate" where
  "new_mstate w = \<lparr>ms_manager = NewDeviceManager, ms_world = w, ms_crashed = None\<rparr>"

section \<open>What holds of the manager\<close>

definition monitors_ok :: "DeviceManager \<Rightarrow> bool" where
  "monitors_ok M \<longleftrightarrow> (\<forall>i config. (i, config) \<in> set (mg_Monitors M) \<longrightarrow> mg_Devices M i \<noteq> None)"

lemma monitors_okD: "monitors_ok M \<Longrightarrow> (i, config) \<in> set (mg_Monitors M) \<Longrightarrow> \<exists>d. mg_Devices M i = Some d"
  by (auto simp: monitors_ok_def)

lemma set_healthy_ok: "set_healthy i b M = (r, M1) \<Longrightarrow> monitors_ok M \<Longrightarrow> monitors_ok M1"
  by (auto simp: set_healthy_def monitors_ok_def split: option.splits) blast

lemma probe_ok: "probe D m M w = (r, M1, w1) \<Longrightarrow> monitors_ok M \<Longrightarrow> monitors_ok M1"
  by (auto simp: probe_def intro: set_healthy_ok split: prod.splits out.splits sum.splits)

lemma register_monitors_ok:
  "register_device D reg dev M w = (r, M1, w1) \<Longrightarrow> monitors_ok M \<Longrightarrow> monitors_ok M1"
  by (auto simp: register_device_def monitors_ok_def Let_def
      split: sum.splits prod.splits out.splits option.splits if_splits) blast+

lemma mstep_monitors_ok: "mstep D reg s s1 \<Longrightarrow> monitors_ok (ms_manager s) \<Longrightarrow> monitors_ok (ms_manager s1)"
  by (erule mstepE) (auto intro: register_monitors_ok probe_ok)

lemma msteps_monitors_ok: "(mstep D reg)\<^sup>*\<^sup>* (new_mstate w) s \<Longrightarrow> monitors_ok (ms_manager s)"
proof (induction rule: rtranclp_induct)
  case base
  show ?case by (simp add: new_mstate_def NewDeviceManager_def monitors_ok_def)
next
  case (step s s1)
  then show ?case by (blast intro: mstep_monitors_ok)
qed

text \<open>C21: a device is as healthy as its last probe found it, and a probe changes no other device: in
  every reachable state, a monitor whose configuration has a string \<open>ip\<close> finds its device in the
  table, never panics, and sets the device's flag to whether port 80 of that address answered.\<close>

theorem healthy_follows_probe:
  assumes "(mstep D reg)\<^sup>*\<^sup>* (new_mstate w0) s" "(i, config) \<in> set (mg_Monitors (ms_manager s))"
    and "config ''ip'' = Some (VStr addr)" "tn_dial (de_tcp D) (addr @ '':80'') w = (r, w1)"
  shows "\<exists>d w2. mg_Devices (ms_manager s) i = Some d \<and>
    probe D (i, config) (ms_manager s) w =
      (Ok (), (ms_manager s)\<lparr>mg_Devices := (mg_Devices (ms_manager s))(i \<mapsto>
         d\<lparr>md_Healthy := (case r of Inl _ \<Rightarrow> False | Inr _ \<Rightarrow> True)\<rparr>)\<rparr>, w2)"
proof -
  obtain d where d: "mg_Devices (ms_manager s) i = Some d"
    using monitors_okD [OF msteps_monitors_ok [OF assms(1)] assms(2)] by blast
  have ip_ok: "as_string config ''ip'' = Ok addr" using assms(3) by (simp add: as_string_def mget_def)
  obtain x w2 where c: "tn_close (de_tcp D) (case r of Inl _ \<Rightarrow> 0 | Inr k \<Rightarrow> k) w1 = (x, w2)"
    by (metis prod.exhaust)
  then show ?thesis
    using d ip_ok assms(4) by (cases r) (simp_all add: probe_def set_healthy_def)
qed

text \<open>An HTTP device with ping, whose address is in its entry and not in its configuration.\<close>

definition ping_device :: DeviceConfigWithMeta where
  "ping_device =
     \<lparr>dc_Meta = \<lparr>dm_ID = ''plc2'', dm_Name = [], dm_Description = [], dm_Protocol = ''http'',
        dm_ProtocolName = ''h1'', dm_Interval = [], dm_EnablePing = True, dm_IP = ''10.0.0.3'',
        dm_Port = 80, dm_SlaveID = 0\<rparr>,
      dc_Config = Some [''url'' \<mapsto> VStr ''MOCK'', ''method'' \<mapsto> VStr ''GET'']\<rparr>"

definition with_ip :: "DeviceConfigWithMeta \<Rightarrow> DeviceConfigWithMeta" where
  "with_ip dev = dev\<lparr>dc_Config := Some ((config_of dev)(''ip'' \<mapsto> VStr (dm_IP (dc_Meta dev))))\<rparr>"

lemma register_http:
  assumes "config_of dev ''url'' = Some (VStr u)" "config_of dev ''method'' = Some (VStr m)"
    and "dm_Protocol (dc_Meta dev) = ''http''" "config_of dev ''mock'' = None"
  shows "register_device D full_registry dev M w =
    (Ok (), \<lparr>mg_Devices = (mg_Devices M)(dm_ID (dc_Meta dev) \<mapsto> \<lparr>md_Meta = dc_Meta dev,
        md_Client = DHttp \<lparr>hc_URL = u, hc_Method = m\<rparr>, md_Healthy = True\<rparr>),
      mg_Monitors = mg_Monitors M @
        (if dm_EnablePing (dc_Meta dev) then [(dm_ID (dc_Meta dev), config_of dev)] else [])\<rparr>, w)"
  using assms by (simp add: register_device_def Create_def full_registry_def Register_def hc_Init_def
      as_string_def mget_def Let_def NewHTTPClient_def hc_Write_def unit_out_def)

lemma mstep_register:
  assumes "ms_crashed s = None" "register_device D reg dev (ms_manager s) (ms_world s) = (Ok (), M, w)"
  shows "(mstep D reg)\<^sup>*\<^sup>* s \<lparr>ms_manager = M, ms_world = w, ms_crashed = None\<rparr>"
  using mstep.registers [OF assms] by auto

theorem healthy_follows_probe_witness:
  "\<exists>s d. (mstep (demo_denv []) full_registry)\<^sup>*\<^sup>* (new_mstate ()) s \<and>
     mg_Devices (ms_manager s) ''plc2'' = Some d \<and> md_Healthy d \<and>
     probe (demo_denv []) (''plc2'', config_of (with_ip ping_device)) (ms_manager s) () =
       (Ok (), ms_manager s, ())"
proof -
  let ?D = "demo_denv []" and ?dev = "with_ip ping_device"
  have f: "config_of ?dev ''url'' = Some (VStr ''MOCK'')" "config_of ?dev ''method'' = Some (VStr ''GET'')"
    "dm_Protocol (dc_Meta ?dev) = ''http''" "config_of ?dev ''mock'' = None" "config_of ?dev ''ip'' = Some (VStr ''10.0.0.3'')"
    "dm_ID (dc_Meta ?dev) = ''plc2''" "dm_EnablePing (dc_Meta ?dev)"
    by (simp_all add: with_ip_def ping_device_def config_of_def)
  let ?M = "\<lparr>mg_Devices = [''plc2'' \<mapsto> \<lparr>md_Meta = dc_Meta ?dev,
      md_Client = DHttp \<lparr>hc_URL = ''MOCK'', hc_Method = ''GET''\<rparr>, md_Healthy = True\<rparr>],
      mg_Monitors = [(''plc2'', config_of ?dev)]\<rparr>"
  let ?s = "\<lparr>ms_manager = ?M, ms_world = (), ms_crashed = None\<rparr>"
  have r: "register_device ?D full_registry ?dev (ms_manager (new_mstate ())) (ms_world (new_mstate ())) =
      (Ok (), ?M, ())"
    by (subst register_http [OF f(1-4)]) (simp add: f new_mstate_def NewDeviceManager_def)
  have steps: "(mstep ?D full_registry)\<^sup>*\<^sup>* (new_mstate ()) ?s"
    by (rule mstep_register [OF _ r]) (simp add: new_mstate_def)
  have m: "(''plc2'', config_of ?dev) \<in> set (mg_Monitors (ms_manager ?s))" by simp
  have t: "tn_dial (de_tcp ?D) (''10.0.0.3'' @ '':80'') () = (Inr 0, ())"
    by (simp add: demo_denv_def echo_net_def)
  obtain d where "mg_Devices (ms_manager ?s) ''plc2'' = Some d"
    "fst (probe ?D (''plc2'', config_of ?dev) (ms_manager ?s) ()) = Ok ()"
    "fst (snd (probe ?D (''plc2'', config_of ?dev) (ms_manager ?s) ())) =
      (ms_manager ?s)\<lparr>mg_Devices := (mg_Devices (ms_manager ?s))(''plc2'' \<mapsto> d\<lparr>md_Healthy := True\<rparr>)\<rparr>"
    using healthy_follows_probe [OF steps m f(5) t] by force
  then have "probe ?D (''plc2'', config_of ?dev) (ms_manager ?s) () = (Ok (), ms_manager ?s, ())"
    by (intro prod_eqI) auto
  then show ?thesis using steps by (intro exI [of _ ?s]) simp
qed

lemma monitors_stay:
  "(mstep D reg)\<^sup>*\<^sup>* s s1 \<Longrightarrow> set (mg_Monitors (ms_manager s)) \<subseteq> set (mg_Monitors (ms_manager s1))"
proof (induction rule: rtranclp_induct)
  case (step s1 s2)
  have "set (mg_Monitors (ms_manager s1)) \<subseteq> set (mg_Monitors (ms_manager s2))"
    using step.hyps(2)
    by (rule mstepE)
      (auto simp: register_device_def probe_def set_healthy_def Let_def
        split: sum.splits prod.splits out.splits option.splits if_splits)
  with step.IH show ?case by blast
qed simp

text \<open>C37: a device with ping whose own configuration has no text \<open>ip\<close> takes the process down: whatever
  address its entry has, a registration that succeeds starts a monitor for it, and every probe of
  this monitor, the first one already, panics in the assertion on \<open>ip\<close> before it dials anything,
  whatever else was registered, probed or changed in the meantime: from the registration on, as
  long as the process lives its next probe ends it.\<close>

theorem ping_without_ip_crashes:
  assumes "dm_EnablePing (dc_Meta dev)" "\<forall>addr. config_of dev ''ip'' \<noteq> Some (VStr addr)"
    and "register_device D reg dev M w = (Ok (), M1, w1)"
    and "(mstep D reg)\<^sup>*\<^sup>* \<lparr>ms_manager = M1, ms_world = w1, ms_crashed = None\<rparr> s" "ms_crashed s = None"
  shows "(dm_ID (dc_Meta dev), config_of dev) \<in> set (mg_Monitors (ms_manager s)) \<and>
    probe D (dm_ID (dc_Meta dev), config_of dev) (ms_manager s) (ms_world s) =
      (Panic (BadAssertion (go_typename (mget (config_of dev) ''ip''))), ms_manager s, ms_world s) \<and>
    mstep D reg s (s\<lparr>ms_crashed := Some (BadAssertion (go_typename (mget (config_of dev) ''ip'')))\<rparr>)"
proof -
  have "(dm_ID (dc_Meta dev), config_of dev) \<in> set (mg_Monitors M1)"
    using assms(1,3) by (auto simp: register_device_def Let_def
        split: sum.splits prod.splits out.splits option.splits if_splits)
  then have mon: "(dm_ID (dc_Meta dev), config_of dev) \<in> set (mg_Monitors (ms_manager s))"
    using monitors_stay [OF assms(4)] by auto
  have "as_string (config_of dev) ''ip'' = Panic (BadAssertion (go_typename (mget (config_of dev) ''ip'')))"
    using assms(2) by (auto simp: as_string_def mget_def split: option.splits goval.splits)
  then have p: "probe D (dm_ID (dc_Meta dev), config_of dev) (ms_manager s) (ms_world s) =
      (Panic (BadAssertion (go_typename (mget (config_of dev) ''ip''))), ms_manager s, ms_world s)"
    by (simp add: probe_def)
  have eq: "s\<lparr>ms_crashed := x\<rparr> = \<lparr>ms_manager = ms_manager s, ms_world = ms_world s, ms_crashed = x\<rparr>" for x
    by (cases s) simp
  have "mstep D reg s (s\<lparr>ms_crashed := Some (BadAssertion (go_typename (mget (config_of dev) ''ip'')))\<rparr>)"
    unfolding eq using mstep.probes [OF assms(5) mon p, of reg] by simp
  with mon p show ?thesis by blast
qed

text \<open>The witness registers a second device before the first probe.\<close>

theorem ping_without_ip_crashes_witness:
  "\<exists>s. (mstep (demo_denv []) full_registry)\<^sup>*\<^sup>* (new_mstate ()) s \<and>
     dom (mg_Devices (ms_manager s)) = {''plc2'', ''h2''} \<and>
     mstep (demo_denv []) full_registry s (s\<lparr>ms_crashed := Some (BadAssertion ''<nil>'')\<rparr>)"
proof -
  let ?D = "demo_denv []"
  let ?other = "ping_device\<lparr>dc_Meta := (dc_Meta ping_device)\<lparr>dm_ID := ''h2'', dm_EnablePing := False\<rparr>\<rparr>"
  have f: "config_of ping_device ''url'' = Some (VStr ''MOCK'')"
    "config_of ping_device ''method'' = Some (VStr ''GET'')" "dm_Protocol (dc_Meta ping_device) = ''http''"
    "config_of ping_device ''mock'' = None" "dm_EnablePing (dc_Meta ping_device)"
    "\<forall>addr. config_of ping_device ''ip'' \<noteq> Some (VStr addr)" "mget (config_of ping_device) ''ip'' = VNil"
    by (simp_all add: ping_device_def config_of_def mget_def)
  have o: "config_of ?other ''url'' = Some (VStr ''MOCK'')"
    "config_of ?other ''method'' = Some (VStr ''GET'')" "dm_Protocol (dc_Meta ?other) = ''http''"
    "config_of ?other ''mock'' = None"
    by (simp_all add: ping_device_def config_of_def)
  note r1 = register_http [OF f(1-4), of ?D NewDeviceManager "()"]
  let ?s0 = "new_mstate ()"
  obtain M1 where M1: "register_device ?D full_registry ping_device NewDeviceManager () = (Ok (), M1, ())"
    "dom (mg_Devices M1) = {''plc2''}"
    using r1 by (simp add: NewDeviceManager_def ping_device_def)
  obtain M2 where M2: "register_device ?D full_registry ?other M1 () = (Ok (), M2, ())"
    "dom (mg_Devices M2) = {''plc2'', ''h2''}"
    using register_http [OF o, of ?D M1 "()"] M1(2) by (auto simp: ping_device_def)
  let ?s1 = "\<lparr>ms_manager = M1, ms_world = (), ms_crashed = None\<rparr>"
  let ?s2 = "\<lparr>ms_manager = M2, ms_world = (), ms_crashed = None\<rparr>"
  have st0: "(mstep ?D full_registry)\<^sup>*\<^sup>* ?s0 ?s1"
    by (rule mstep_register [where dev = ping_device]) (simp_all add: new_mstate_def M1(1))
  have st1: "(mstep ?D full_registry)\<^sup>*\<^sup>* ?s1 ?s2"
    by (rule mstep_register [where dev = ?other]) (simp_all add: M2(1))
  have "ms_crashed ?s2 = None" by simp
  from ping_without_ip_crashes [OF f(5,6) M1(1) st1 this] f(7)
  have "mstep ?D full_registry ?s2 (?s2\<lparr>ms_crashed := Some (BadAssertion ''<nil>'')\<rparr>)" by simp
  with st0 st1 M2(2) show ?thesis by (intro exI [of _ ?s2]) (auto intro: rtranclp_trans)
qed

text \<open>A registration that fails leaves the devices and monitors as they were; one that succeeds
  puts its device in the table, healthy, with its entry, and changes no other device.\<close>

theorem register_device_spec:
  assumes "register_device D reg dev M w = (r, M1, w1)"
  shows "(\<forall>e. r = Err e \<longrightarrow> M1 = M) \<and>
    (r = Ok () \<longrightarrow> (\<exists>d. mg_Devices M1 = (mg_Devices M)(dm_ID (dc_Meta dev) \<mapsto> d) \<and>
       md_Meta d = dc_Meta dev \<and> md_Healthy d))"
  using assms by (auto simp: register_device_def Let_def
      split: sum.splits prod.splits out.splits option.splits if_splits)

theorem register_device_spec_witness:
  "\<exists>M1. register_device (demo_denv []) full_registry (ping_device\<lparr>dc_Config := None\<rparr>)
      NewDeviceManager () = (Panic (BadAssertion ''<nil>''), M1, ()) \<and>
    register_device (demo_denv []) full_registry
      (ping_device\<lparr>dc_Meta := (dc_Meta ping_device)\<lparr>dm_Protocol := ''opcua''\<rparr>\<rparr>) NewDeviceManager () =
      (Err (ErrText ''unsupported protocol: opcua''), NewDeviceManager, ())"
proof -
  let ?bad = "ping_device\<lparr>dc_Meta := (dc_Meta ping_device)\<lparr>dm_Protocol := ''opcua''\<rparr>\<rparr>"
  obtain M1 where r: "register_device (demo_denv []) full_registry ?bad NewDeviceManager () =
      (Err (ErrText ''unsupported protocol: opcua''), M1, ())"
    by (simp add: register_device_def Let_def Create_def full_registry_def Register_def)
  from register_device_spec [OF r] have "M1 = NewDeviceManager" by simp
  with r show ?thesis
    by (simp add: register_device_def Let_def Create_def full_registry_def Register_def ping_device_def
        config_of_def hc_Init_def as_string_def mget_def)
qed

end
