(* ===== verification/Batch_Loop.thy ===== *)
theory Batch_Loop
  imports Modbus_Batch "HOL-Library.While_Combinator"
begin

text \<open>
  The loop of the register batches as it is written, with its indexes: \<open>i\<close> over the groups, \<open>j\<close>
  over the points that may join one, \<open>k\<close> over the points of a group. It may run for ever where
  \<open>while_option\<close> gives \<open>None\<close>; it never does, and it computes what the recursive model does.
\<close>

section \<open>The loops\<close>

text \<open>The inner loop's variables; \<open>jl_go\<close> is false after its \<open>break\<close>.\<close>

record jloop =
  jl_j :: nat
  jl_end :: nat
  jl_maxAddr :: u16
  jl_go :: bool

definition j_body :: "addrPoint list \<Rightarrow> nat \<Rightarrow> jloop \<Rightarrow> jloop" where
  "j_body aps start s =
     (let p = aps ! jl_j s; need = word_of_nat (getRegCount (ap_format p))
      in if ap_addr p \<le> jl_maxAddr s + 1 \<and> ap_addr p + need - ap_addr (aps ! start) < 125
         then s\<lparr>jl_maxAddr := (if jl_maxAddr s < ap_addr p + need - 1 then ap_addr p + need - 1
                               else jl_maxAddr s),
                jl_end := jl_j s, jl_j := jl_j s + 1\<rparr>
         else s\<lparr>jl_go := False\<rparr>)"

definition j_loop :: "addrPoint list \<Rightarrow> nat \<Rightarrow> jloop \<Rightarrow> jloop option" where
  "j_loop aps start = while_option (\<lambda>s. jl_go s \<and> jl_j s < length aps) (j_body aps start)"

text \<open>The outer loop's variables; \<open>il_ret\<close> is what a return from within the loop, or a panic, gives.\<close>

record 'w iloop =
  il_i :: nat
  il_results :: "PointValue list"
  il_world :: 'w
  il_ret :: "PointValue list out option"

definition i_body ::
  "'w mblib \<Rightarrow> modbusTCP \<Rightarrow> mbfunc \<Rightarrow> string \<Rightarrow> addrPoint list \<Rightarrow> 'w iloop \<Rightarrow> 'w iloop option" where
  "i_body lib m fc msg aps s =
     (let start = il_i s;
          maxAddr = ap_addr (aps ! start) + word_of_nat (getRegCount (ap_format (aps ! start))) - 1
      in case j_loop aps start \<lparr>jl_j = start + 1, jl_end = start, jl_maxAddr = maxAddr, jl_go = True\<rparr> of
           None \<Rightarrow> None
         | Some js \<Rightarrow>
             (let baseAddr = ap_addr (aps ! start); quantity = jl_maxAddr js - baseAddr + 1
              in case lib_request lib m fc baseAddr quantity (il_world s) of
                   (Err e, w1) \<Rightarrow> Some (s\<lparr>il_world := w1, il_ret := Some (Err (ErrText (msg @ err_text e)))\<rparr>)
                 | (Panic x, w1) \<Rightarrow> Some (s\<lparr>il_world := w1, il_ret := Some (Panic x)\<rparr>)
                 | (Ok regVals, w1) \<Rightarrow>
                     (case map_out (\<lambda>k. reg_point (lib_now lib w1) baseAddr regVals (aps ! k))
                             [start..<jl_end js + 1] of
                        Ok vs \<Rightarrow> Some (s\<lparr>il_world := w1, il_results := il_results s @ vs, il_i := jl_end js + 1\<rparr>)
                      | Err e \<Rightarrow> Some (s\<lparr>il_world := w1, il_ret := Some (Err e)\<rparr>)
                      | Panic x \<Rightarrow> Some (s\<lparr>il_world := w1, il_ret := Some (Panic x)\<rparr>))))"

text \<open>A body that does not end makes the loop not end: \<open>None\<close> is a state it stays in.\<close>

definition i_cond :: "addrPoint list \<Rightarrow> 'w iloop option \<Rightarrow> bool" where
  "i_cond aps os = (case os of None \<Rightarrow> True | Some s \<Rightarrow> il_ret s = None \<and> il_i s < length aps)"

definition i_step ::
  "'w mblib \<Rightarrow> modbusTCP \<Rightarrow> mbfunc \<Rightarrow> string \<Rightarrow> addrPoint list \<Rightarrow> 'w iloop option \<Rightarrow> 'w iloop option" where
  "i_step lib m fc msg aps os = (case os of None \<Rightarrow> None | Some s \<Rightarrow> i_body lib m fc msg aps s)"

definition batch_loop ::
  "'w mblib \<Rightarrow> modbusTCP \<Rightarrow> mbfunc \<Rightarrow> string \<Rightarrow> addrPoint list \<Rightarrow> 'w \<Rightarrow> (PointValue list out \<times> 'w) option" where
  "batch_loop lib m fc msg aps w =
     (case while_option (i_cond aps) (i_step lib m fc msg aps)
             (Some \<lparr>il_i = 0, il_results = [], il_world = w, il_ret = None\<rparr>) of
        Some (Some s) \<Rightarrow>
          Some (case il_ret s of None \<Rightarrow> Ok (il_results s) | Some r \<Rightarrow> r, il_world s)
      | _ \<Rightarrow> None)"

section \<open>They end\<close>

lemma j_loop_ends:
  assumes "scan_group (ap_addr (aps ! start)) mx (drop j aps) = (g, mx1, rest)" "Suc e = j"
  shows "\<exists>js. j_loop aps start \<lparr>jl_j = j, jl_end = e, jl_maxAddr = mx, jl_go = True\<rparr> = Some js \<and>
    jl_end js = e + length g \<and> jl_maxAddr js = mx1"
  using assms
proof (induction "length aps - j" arbitrary: j e mx g mx1 rest)
  case 0
  then have "drop j aps = []" "\<not> j < length aps" by simp_all
  with 0 show ?case by (simp add: j_loop_def while_option_unfold)
next
  case (Suc n)
  then have j: "j < length aps" by simp
  then have d: "drop j aps = aps ! j # drop (Suc j) aps" by (simp add: Cons_nth_drop_Suc)
  let ?p = "aps ! j" and ?need = "word_of_nat (getRegCount (ap_format (aps ! j))) :: u16"
  let ?mx = "if mx < ap_addr ?p + ?need - 1 then ap_addr ?p + ?need - 1 else mx"
  show ?case
  proof (cases "ap_addr ?p \<le> mx + 1 \<and> ap_addr ?p + ?need - ap_addr (aps ! start) < 125")
    case True
    obtain g1 mx2 rest1 where s: "scan_group (ap_addr (aps ! start)) ?mx (drop (Suc j) aps) = (g1, mx2, rest1)"
      by (metis prod_cases3)
    have n: "n = length aps - Suc j" using Suc.hyps(2) by simp
    from Suc.hyps(1) [OF n s, of j] obtain js where
      "j_loop aps start \<lparr>jl_j = Suc j, jl_end = j, jl_maxAddr = ?mx, jl_go = True\<rparr> = Some js"
      "jl_end js = j + length g1" "jl_maxAddr js = mx2" by auto
    moreover have "g = ?p # g1" "mx1 = mx2"
      using Suc.prems(1) True s by (auto simp: d Let_def)
    ultimately show ?thesis
      using True j Suc.prems(2) unfolding j_loop_def
      by (subst while_option_unfold) (simp add: j_body_def Let_def split del: if_split cong: if_cong)
  next
    case False
    with Suc.prems have "g = []" "mx1 = mx" by (auto simp: d Let_def)
    let ?s = "\<lparr>jl_j = j, jl_end = e, jl_maxAddr = mx, jl_go = True\<rparr>"
    have "j_body aps start ?s = ?s\<lparr>jl_go := False\<rparr>"
      using False by (simp add: j_body_def Let_def)
    with \<open>g = []\<close> \<open>mx1 = mx\<close> j show ?thesis unfolding j_loop_def
      by (subst while_option_unfold, subst while_option_unfold) simp
  qed
qed

lemma map_out_nth: "map_out f (map ((!) xs) ks) = map_out (\<lambda>k. f (xs ! k)) ks"
  by (induction ks) simp_all

lemma group_by_index:
  assumes "drop i aps = p # g @ rest"
  shows "map_out f (p # g) = map_out (\<lambda>k. f (aps ! k)) [i..<i + length g + 1]"
proof -
  have l: "i + length g + 1 \<le> length aps" using arg_cong [OF assms, of length] by simp
  have "p # g = take (length g + 1) (drop i aps)" using assms by simp
  also have "\<dots> = map ((!) aps) [i..<i + length g + 1]"
    using l by (intro nth_equalityI) (simp_all del: upt_Suc)
  finally show ?thesis by (simp only: map_out_nth)
qed

text \<open>What is left to do at the start of a turn of the outer loop, and that the loop does it.\<close>

definition finish :: "'w iloop \<Rightarrow> PointValue list out \<times> 'w" where
  "finish s = (case il_ret s of None \<Rightarrow> Ok (il_results s) | Some r \<Rightarrow> r, il_world s)"

lemma i_body_step:
  assumes "il_i s < length aps" "il_ret s = None"
  shows "\<exists>s1. i_body lib m fc msg aps s = Some s1 \<and>
    (il_ret s1 = None \<longrightarrow> il_i s < il_i s1 \<and>
       reg_loop lib m fc msg (drop (il_i s1) aps) (il_results s1) (il_world s1) =
       reg_loop lib m fc msg (drop (il_i s) aps) (il_results s) (il_world s)) \<and>
    (il_ret s1 \<noteq> None \<longrightarrow>
       finish s1 = reg_loop lib m fc msg (drop (il_i s) aps) (il_results s) (il_world s))"
proof -
  let ?i = "il_i s" and ?p = "aps ! il_i s"
  have d: "drop ?i aps = ?p # drop (Suc ?i) aps" using assms(1) by (simp add: Cons_nth_drop_Suc)
  obtain g mx rest where g: "scan_group (ap_addr ?p) (first_max ?p) (drop (Suc ?i) aps) = (g, mx, rest)"
    by (metis prod_cases3)
  from j_loop_ends [OF g refl] obtain js where
    js: "j_loop aps ?i \<lparr>jl_j = Suc ?i, jl_end = ?i, jl_maxAddr = first_max ?p, jl_go = True\<rparr> = Some js"
      "jl_end js = ?i + length g" "jl_maxAddr js = mx" by blast
  have dr: "drop ?i aps = ?p # g @ rest" using d scan_group_append [OF g] by simp
  note idx = group_by_index [OF dr]
  have rest: "drop (?i + length g + 1) aps = rest"
    using arg_cong [OF dr, of "drop (length g + 1)"] by (simp add: add.commute add.left_commute)
  obtain r w1 where rq: "lib_request lib m fc (ap_addr ?p) (mx - ap_addr ?p + 1) (il_world s) = (r, w1)"
    by (metis prod.exhaust)
  have body: "i_body lib m fc msg aps s =
     (case r of Err e \<Rightarrow> Some (s\<lparr>il_world := w1, il_ret := Some (Err (ErrText (msg @ err_text e)))\<rparr>)
      | Panic x \<Rightarrow> Some (s\<lparr>il_world := w1, il_ret := Some (Panic x)\<rparr>)
      | Ok regVals \<Rightarrow>
          (case map_out (reg_point (lib_now lib w1) (ap_addr ?p) regVals) (?p # g) of
             Ok vs \<Rightarrow> Some (s\<lparr>il_world := w1, il_results := il_results s @ vs, il_i := ?i + length g + 1\<rparr>)
           | Err e \<Rightarrow> Some (s\<lparr>il_world := w1, il_ret := Some (Err e)\<rparr>)
           | Panic x \<Rightarrow> Some (s\<lparr>il_world := w1, il_ret := Some (Panic x)\<rparr>)))"
    unfolding idx using js rq by (simp add: i_body_def Let_def first_max_def cong: out.case_cong)
  show ?thesis
  proof (cases r)
    case (Ok regVals)
    then show ?thesis
      using rq g rest assms(2) unfolding body d
      by (cases "map_out (reg_point (lib_now lib w1) (ap_addr ?p) regVals) (?p # g)")
        (simp_all add: reg_loop.simps(2) Let_def finish_def del: map_out.simps)
  qed (use rq g assms(2) in \<open>simp_all add: body d reg_loop.simps(2) Let_def finish_def\<close>)
qed

lemma while_stop: "\<not> b s \<Longrightarrow> while_option b c s = Some s"
  by (subst while_option_unfold) simp

lemma while_go: "b s \<Longrightarrow> while_option b c s = while_option b c (c s)"
  by (subst while_option_unfold) simp

lemma batch_loop_runs:
  assumes "il_ret s = None"
  shows "\<exists>s1. while_option (i_cond aps) (i_step lib m fc msg aps) (Some s) = Some (Some s1) \<and>
    finish s1 = reg_loop lib m fc msg (drop (il_i s) aps) (il_results s) (il_world s)"
  using assms
proof (induction "length aps - il_i s" arbitrary: s rule: less_induct)
  case less
  show ?case
  proof (cases "il_i s < length aps")
    case False
    then have "\<not> i_cond aps (Some s)" by (simp add: i_cond_def)
    from while_stop [of "i_cond aps", OF this] False less.prems show ?thesis by (simp add: finish_def)
  next
    case True
    from i_body_step [OF True less.prems, of lib m fc msg] obtain s1 where
      s1: "i_body lib m fc msg aps s = Some s1" and
      go: "il_ret s1 = None \<longrightarrow> il_i s < il_i s1 \<and>
       reg_loop lib m fc msg (drop (il_i s1) aps) (il_results s1) (il_world s1) =
       reg_loop lib m fc msg (drop (il_i s) aps) (il_results s) (il_world s)" and
      ret: "il_ret s1 \<noteq> None \<longrightarrow>
       finish s1 = reg_loop lib m fc msg (drop (il_i s) aps) (il_results s) (il_world s)" by (elim exE conjE)
    have "i_cond aps (Some s)" using True less.prems by (simp add: i_cond_def)
    from while_go [of "i_cond aps", OF this]
    have w: "while_option (i_cond aps) (i_step lib m fc msg aps) (Some s) =
        while_option (i_cond aps) (i_step lib m fc msg aps) (Some s1)"
      by (simp add: i_step_def s1)
    show ?thesis
    proof (cases "il_ret s1")
      case None
      with go have "length aps - il_i s1 < length aps - il_i s" using True by linarith
      from less.hyps [OF this None] go None show ?thesis by (simp add: w)
    next
      case (Some r)
      then have "\<not> i_cond aps (Some s1)" by (simp add: i_cond_def)
      from while_stop [of "i_cond aps", OF this] ret Some show ?thesis by (simp add: w)
    qed
  qed
qed

text \<open>C10: the loop of a batch of registers ends, whatever points, answers and failures there are: with
  its three indexes it computes what the recursion over the sorted points does, group by group.\<close>

theorem batch_loop_ends:
  "batch_loop lib m fc msg aps w = Some (reg_loop lib m fc msg aps [] w)"
proof -
  let ?s = "\<lparr>il_i = 0, il_results = [], il_world = w, il_ret = None\<rparr>"
  obtain s1 where "while_option (i_cond aps) (i_step lib m fc msg aps) (Some ?s) = Some (Some s1)"
    "finish s1 = reg_loop lib m fc msg aps [] w"
    using batch_loop_runs [of ?s aps lib m fc msg] by auto
  then show ?thesis by (simp add: batch_loop_def finish_def)
qed

end
