(* ===== verification/Bacnet_Listeners.thy ===== *)
theory Bacnet_Listeners
  imports Bacnet_Discover
begin

text \<open>
  The two goroutines that \<open>main\<close> starts first, both on UDP port 47808: \<open>ListenIAM\<close>, which returns
  an error when it cannot listen and goes on after a read that fails, and a second loop in
  \<open>main.go\<close> that looks at neither error. A port is bound by one socket at a time. The library's
  \<open>ReadFromUDP\<close> returns no address with an error, and always an error on a nil connection.
\<close>

section \<open>The two loops\<close>

datatype listener = Unbound | Bound | Failed

record listeners =
  ls_first :: listener
  ls_second :: listener
  ls_taken :: bool  \<comment> \<open>by another process\<close>
  ls_discovery :: discovery
  ls_crashed :: "panic option"

definition port_free :: "listeners \<Rightarrow> bool" where
  "port_free s \<longleftrightarrow> ls_first s \<noteq> Bound \<and> ls_second s \<noteq> Bound \<and> \<not> ls_taken s"

text \<open>
  What \<open>conn.ReadFromUDP\<close> returns, on a connection that the network gives an error or a datagram
  with its sender, or on the nil connection of a failed \<open>ListenUDP\<close>.
\<close>

definition ReadFromUDP ::
  "listener \<Rightarrow> gerr + byte list \<times> string \<Rightarrow> byte list \<times> string option \<times> gerr option" where
  "ReadFromUDP conn net =
     (if conn \<noteq> Bound then ([], None, Some (ErrText ''invalid argument''))
      else case net of
        Inl e \<Rightarrow> ([], None, Some e)
      | Inr (data, addr) \<Rightarrow> (data, Some addr, None))"

text \<open>One turn of the loop of \<open>ListenIAM\<close> with the handler \<open>RegisterDevice\<close>, and of the second one.\<close>

definition first_turn :: "listener \<Rightarrow> gerr + byte list \<times> string \<Rightarrow> discovery \<Rightarrow> discovery out" where
  "first_turn conn net d =
     (case ReadFromUDP conn net of
        (data, remote, Some e) \<Rightarrow> Ok d
      | (data, None, None) \<Rightarrow> Panic NilDeref
      | (data, Some remote, None) \<Rightarrow>
          Ok (case iam_event data remote of None \<Rightarrow> d | Some info \<Rightarrow> RegisterDevice info d))"

definition second_turn :: "listener \<Rightarrow> gerr + byte list \<times> string \<Rightarrow> discovery \<Rightarrow> discovery out" where
  "second_turn conn net d =
     (case ReadFromUDP conn net of
        (data, addr, err) \<Rightarrow>
          (case addr of
             None \<Rightarrow> Panic NilDeref  \<comment> \<open>\<open>addr.IP\<close>\<close>
           | Some ip \<Rightarrow>
               (case ParseIAm data ip of
                  Ok info \<Rightarrow> Ok (RegisterAndStartPolling info d)
                | Err e \<Rightarrow> Ok d
                | Panic x \<Rightarrow> Panic x)))"

definition after_turn :: "discovery out \<Rightarrow> listeners \<Rightarrow> listeners" where
  "after_turn r s =
     s\<lparr>ls_discovery := (case r of Ok d \<Rightarrow> d | _ \<Rightarrow> ls_discovery s), ls_crashed := panic_of r\<rparr>"

text \<open>\<open>ListenIAM\<close> has returned when its socket failed; the second loop runs then too.\<close>

inductive lstep :: "listeners \<Rightarrow> listeners \<Rightarrow> bool" where
  first_listens: "ls_crashed s = None \<Longrightarrow> ls_first s = Unbound \<Longrightarrow>
    lstep s (s\<lparr>ls_first := (if port_free s then Bound else Failed)\<rparr>)"
| second_listens: "ls_crashed s = None \<Longrightarrow> ls_second s = Unbound \<Longrightarrow>
    lstep s (s\<lparr>ls_second := (if port_free s then Bound else Failed)\<rparr>)"
| first_reads: "ls_crashed s = None \<Longrightarrow> ls_first s = Bound \<Longrightarrow>
    lstep s (after_turn (first_turn (ls_first s) net (ls_discovery s)) s)"
| second_reads: "ls_crashed s = None \<Longrightarrow> ls_second s \<noteq> Unbound \<Longrightarrow>
    lstep s (after_turn (second_turn (ls_second s) net (ls_discovery s)) s)"

inductive_cases lstepE: "lstep s s1"

definition listeners_start :: "bool \<Rightarrow> listeners" where
  "listeners_start taken =
     \<lparr>ls_first = Unbound, ls_second = Unbound, ls_taken = taken, ls_discovery = no_devices,
      ls_crashed = None\<rparr>"

section \<open>One of them is useless, or the process ends\<close>

definition exclusive :: "listeners \<Rightarrow> bool" where
  "exclusive s \<longleftrightarrow> \<not> (ls_first s = Bound \<and> ls_second s = Bound) \<and>
     (ls_taken s \<longrightarrow> ls_first s \<noteq> Bound \<and> ls_second s \<noteq> Bound)"

lemma exclusive_step: "lstep s s1 \<Longrightarrow> exclusive s \<Longrightarrow> exclusive s1"
  by (erule lstepE) (auto simp: exclusive_def port_free_def after_turn_def)

lemma exclusive_steps: "lstep\<^sup>*\<^sup>* (listeners_start taken) s \<Longrightarrow> exclusive s"
proof (induction rule: rtranclp_induct)
  case base
  show ?case by (simp add: exclusive_def listeners_start_def)
next
  case (step s s1)
  then show ?case by (blast intro: exclusive_step)
qed

lemma taken_steps: "lstep\<^sup>*\<^sup>* (listeners_start taken) s \<Longrightarrow> ls_taken s = taken"
proof (induction rule: rtranclp_induct)
  case base
  show ?case by (simp add: listeners_start_def)
next
  case (step s s1)
  from step.hyps(2) step.IH show ?case by (auto simp: after_turn_def elim: lstepE)
qed

lemma ParseIAm_safe: "ParseIAm data src \<noteq> Panic x"
  by (cases "length data < 14") (simp_all add: ParseIAm_long, simp add: ParseIAm_def)

text \<open>C20: \<open>main\<close> listens twice on one port, which the two loops cannot both have. Once the second
  one has tried while the first or another process holds it, it has no connection, and its next
  turn panics whatever the network does, since the read returns no address and the loop looks
  at neither error: the process ends. With the port, it survives every datagram and panics on
  every read that fails.\<close>

theorem listener_race_crashes:
  assumes "lstep\<^sup>*\<^sup>* (listeners_start taken) s" "ls_crashed s = None" "ls_second s \<noteq> Unbound"
  shows "(taken \<or> ls_first s = Bound \<longrightarrow>
      (\<forall>net. second_turn (ls_second s) net (ls_discovery s) = Panic NilDeref) \<and>
      lstep s (s\<lparr>ls_crashed := Some NilDeref\<rparr>)) \<and>
    (ls_second s = Bound \<longrightarrow> (\<forall>net. is_panic (second_turn (ls_second s) net (ls_discovery s)) \<longleftrightarrow>
      (\<exists>e. net = Inl e)))"
proof -
  have "ls_second s = Failed" if "taken \<or> ls_first s = Bound"
    using exclusive_steps [OF assms(1)] taken_steps [OF assms(1)] assms(3) that
    by (cases "ls_second s") (auto simp: exclusive_def)
  then have nil: "second_turn (ls_second s) net (ls_discovery s) = Panic NilDeref"
    if "taken \<or> ls_first s = Bound" for net
    using that by (simp add: second_turn_def ReadFromUDP_def)
  have "lstep s (s\<lparr>ls_crashed := Some NilDeref\<rparr>)" if "taken \<or> ls_first s = Bound"
    using lstep.second_reads [OF assms(2,3)] by (simp add: nil [OF that] after_turn_def)
  moreover have "is_panic (second_turn Bound net d) \<longleftrightarrow> (\<exists>e. net = Inl e)" for net d
    by (auto simp: ParseIAm_safe second_turn_def ReadFromUDP_def split: sum.splits prod.splits out.splits)
  ultimately show ?thesis using nil by simp
qed

theorem listener_race_crashes_witness:
  "\<exists>s. lstep\<^sup>*\<^sup>* (listeners_start False) s \<and> ls_first s = Bound \<and>
     lstep s (s\<lparr>ls_crashed := Some NilDeref\<rparr>)"
proof -
  let ?s0 = "listeners_start False"
  let ?s1 = "?s0\<lparr>ls_first := Bound\<rparr>" and ?s2 = "?s0\<lparr>ls_first := Bound, ls_second := Failed\<rparr>"
  have "lstep ?s0 ?s1"
    using lstep.first_listens [of ?s0] by (simp add: listeners_start_def port_free_def)
  moreover have "lstep ?s1 ?s2"
    using lstep.second_listens [of ?s1] by (simp add: listeners_start_def port_free_def)
  ultimately have r: "lstep\<^sup>*\<^sup>* ?s0 ?s2" by (meson rtranclp.rtrancl_into_rtrancl rtranclp.rtrancl_refl)
  have "ls_crashed ?s2 = None" "ls_second ?s2 \<noteq> Unbound"
    by (simp_all add: listeners_start_def)
  from listener_race_crashes [OF r this] r show ?thesis by (intro exI [of _ ?s2]) simp
qed

end
