(* ===== verification/Side_Channels.thy ===== *)
theory Side_Channels
  imports Uplink
begin

text \<open>
  What stands beside the collector: the subscriber of \<open>uplink/sparkplugb/subscribe.go\<close> that maps
  and forwards messages from the south, the TLS configuration that \<open>uplink/sparkplugb/tls.go\<close>
  loads again and again, and the routes of \<open>cmd/api_server.go\<close>. The JSON, TLS and web libraries
  are parameters.
\<close>

section \<open>The south-bound subscriber\<close>

text \<open>
  The JSON library: a decoder fills in a map, which stays nil, here empty, when there is nothing
  to fill in, and an encoder that may fail.
\<close>

record jsonlib =
  js_Unmarshal :: "byte list \<Rightarrow> gomap \<times> gerr option"
  js_Marshal :: "gomap \<Rightarrow> gerr + byte list"

text \<open>\<open>sb_Template\<close> is the template in the order of the range over it; the client is what it subscribes.\<close>

record 'w SouthSubscriber =
  sb_Client :: "(string \<Rightarrow> 'w \<Rightarrow> 'w) option"
  sb_Topic :: string
  sb_Template :: "(string \<times> string) list"
  sb_UplinkFn :: "(byte list \<Rightarrow> 'w \<Rightarrow> 'w) option"

text \<open>The callback, for one message: the errors of both calls of the library are dropped.\<close>

definition south_message :: "jsonlib \<Rightarrow> 'w SouthSubscriber \<Rightarrow> byte list \<Rightarrow> 'w \<Rightarrow> unit out \<times> 'w" where
  "south_message js s data w =
     (let payload = fst (js_Unmarshal js data);
          filtered = applyMapping payload (sb_Template s);
          buf = (case js_Marshal js filtered of Inl e \<Rightarrow> [] | Inr b \<Rightarrow> b)
      in case sb_UplinkFn s of
           None \<Rightarrow> (Panic NilDeref, w)
         | Some f \<Rightarrow> (Ok (), f buf w))"

definition south_Start :: "'w SouthSubscriber \<Rightarrow> 'w \<Rightarrow> unit out \<times> 'w" where
  "south_Start s w =
     (case sb_Client s of
        None \<Rightarrow> (Panic NilDeref, w)
      | Some subscribe \<Rightarrow> (Ok (), subscribe (sb_Topic s) w))"

lemma applyMapping_empty: "applyMapping Map.empty tpl = Map.empty"
proof -
  have "applyMapping_from Map.empty t r = r" for t r
    by (induction "Map.empty :: gomap" t r rule: applyMapping_from.induct) auto
  then show ?thesis by (simp add: applyMapping_def)
qed

text \<open>A message that is no JSON object is not dropped: it goes up as the encoding of the empty map,
  whatever the template asks for.\<close>

theorem south_bad_message_forwarded:
  assumes "js_Unmarshal js data = (Map.empty, Some e)" "js_Marshal js Map.empty = Inr b"
    and "sb_UplinkFn s = Some f"
  shows "south_message js s data w = (Ok (), f b w)"
  using assms by (simp add: south_message_def applyMapping_empty)

theorem south_bad_message_forwarded_witness:
  "south_message \<lparr>js_Unmarshal = (\<lambda>d. (Map.empty, Some EOF)), js_Marshal = (\<lambda>m. Inr [0x7B, 0x7D])\<rparr>
     \<lparr>sb_Client = None, sb_Topic = ''t'', sb_Template = [(''a'', ''b'')], sb_UplinkFn = Some (\<lambda>b w. w @ [b])\<rparr>
     [1, 2] [] = (Ok (), [[0x7B, 0x7D]])"
  using south_bad_message_forwarded [of "\<lparr>js_Unmarshal = (\<lambda>d. (Map.empty, Some EOF)),
      js_Marshal = (\<lambda>m. Inr [0x7B, 0x7D])\<rparr>" "[1, 2]" EOF "[0x7B, 0x7D]"
      "\<lparr>sb_Client = None, sb_Topic = ''t'', sb_Template = [(''a'', ''b'')],
        sb_UplinkFn = Some (\<lambda>b w. w @ [b])\<rparr>" "\<lambda>b w. w @ [b]" "[]"]
  by simp

section \<open>The TLS configuration\<close>

text \<open>
  The key pair is a certificate, empty for the zero value of its struct, and a PEM file gives the
  certificates it holds. Both are read from the world.
\<close>

record 'w tlslib =
  tl_LoadKeyPair :: "string \<Rightarrow> string \<Rightarrow> 'w \<Rightarrow> gerr + byte list"
  tl_ReadFile :: "string \<Rightarrow> 'w \<Rightarrow> gerr + byte list"
  tl_FromPEM :: "byte list \<Rightarrow> byte list list"

record TLSConfig =
  tls_Certificates :: "byte list list"
  tls_RootCAs :: "byte list list"

record TLSReloader =
  tr_config :: "TLSConfig option"
  tr_caFile :: string
  tr_certFile :: string
  tr_keyFile :: string
  tr_keyPassword :: string

definition tls_reload :: "'w tlslib \<Rightarrow> 'w \<Rightarrow> TLSReloader \<Rightarrow> TLSReloader" where
  "tls_reload lib w r =
     (let cert = (case tl_LoadKeyPair lib (tr_certFile r) (tr_keyFile r) w of Inl e \<Rightarrow> [] | Inr c \<Rightarrow> c);
          caCert = (case tl_ReadFile lib (tr_caFile r) w of Inl e \<Rightarrow> [] | Inr b \<Rightarrow> b)
      in r\<lparr>tr_config := Some \<lparr>tls_Certificates = [cert], tls_RootCAs = tl_FromPEM lib caCert\<rparr>\<rparr>)"

definition NewTLSReloader ::
  "'w tlslib \<Rightarrow> string \<Rightarrow> string \<Rightarrow> string \<Rightarrow> string \<Rightarrow> 'w \<Rightarrow> TLSReloader" where
  "NewTLSReloader lib ca cert key keyPwd w =
     tls_reload lib w \<lparr>tr_config = None, tr_caFile = ca, tr_certFile = cert, tr_keyFile = key,
                     tr_keyPassword = keyPwd\<rparr>"

fun tls_watch :: "'w tlslib \<Rightarrow> 'w list \<Rightarrow> TLSReloader \<Rightarrow> TLSReloader" where
  \<comment> \<open>the turns of the loop so far, each with the world it finds\<close>
  "tls_watch lib [] r = r"
| "tls_watch lib (w # ws) r = tls_watch lib ws (tls_reload lib w r)"

definition GetConfig :: "TLSReloader \<Rightarrow> TLSConfig out" where
  "GetConfig r = (case tr_config r of None \<Rightarrow> Panic (BadAssertion ''<nil>'') | Some c \<Rightarrow> Ok c)"

lemma tls_watch_last:
  "tls_watch lib (ws @ [w]) r = tls_reload lib w (tls_watch lib ws r)"
  by (induction ws arbitrary: r) simp_all

lemma tls_watch_files:
  "tr_certFile (tls_watch lib ws r) = tr_certFile r" "tr_keyFile (tls_watch lib ws r) = tr_keyFile r"
  "tr_caFile (tls_watch lib ws r) = tr_caFile r"
  by (induction ws arbitrary: r) (simp_all add: tls_reload_def Let_def)

text \<open>The configuration is always there, and always that of the last turn: when the key pair cannot
  be loaded then, a configuration that worked is replaced by one with an empty certificate.\<close>

theorem tls_broken_pair_replaces:
  assumes "tl_LoadKeyPair lib cert key w = Inl e"
  shows "\<exists>cas. GetConfig (tls_watch lib (ws @ [w]) (NewTLSReloader lib ca cert key pwd w0)) =
    Ok \<lparr>tls_Certificates = [[]], tls_RootCAs = cas\<rparr>"
  using assms by (simp add: tls_watch_last tls_reload_def Let_def tls_watch_files NewTLSReloader_def
      GetConfig_def)

theorem tls_broken_pair_replaces_witness:
  "\<exists>cas. GetConfig (tls_watch \<lparr>tl_LoadKeyPair = (\<lambda>c k w. if w then Inr [1] else Inl EOF),
       tl_ReadFile = (\<lambda>f w. Inr []), tl_FromPEM = (\<lambda>b. [])\<rparr> ([True] @ [False])
     (NewTLSReloader \<lparr>tl_LoadKeyPair = (\<lambda>c k w. if w then Inr [1] else Inl EOF),
       tl_ReadFile = (\<lambda>f w. Inr []), tl_FromPEM = (\<lambda>b. [])\<rparr> ''ca'' ''crt'' ''key'' [] True)) =
   Ok \<lparr>tls_Certificates = [[]], tls_RootCAs = cas\<rparr>"
  by (rule tls_broken_pair_replaces) simp

section \<open>The web API\<close>

text \<open>The routes in the order they are registered: method, pattern and handler.\<close>

datatype http_method = GET | POST | PUT | DELETE

definition api_routes :: "(http_method \<times> string \<times> string) list" where
  "api_routes =
     [(GET, ''/api/protocols'', ''listProtocols''),
      (POST, ''/api/protocols'', ''addProtocol''),
      (PUT, ''/api/protocols/:id'', ''updateProtocol''),
      (DELETE, ''/api/protocols/:id'', ''deleteProtocol''),
      (GET, ''/api/devices'', ''listDevices''),
      (POST, ''/api/devices'', ''addDevice''),
      (PUT, ''/api/devices/:id'', ''updateDevice''),
      (DELETE, ''/api/devices/:id'', ''deleteDevice''),
      (GET, ''/api/points/:device_id'', ''listPoints''),
      (POST, ''/api/points/:device_id'', ''importPoints''),
      (GET, ''/api/rules'', ''listRules''),
      (POST, ''/api/rules'', ''addRule''),
      (PUT, ''/api/rules/:id'', ''updateRule''),
      (DELETE, ''/api/rules/:id'', ''deleteRule''),
      (GET, ''/api/uplinks'', ''listUplinks''),
      (POST, ''/api/uplinks'', ''addUplink''),
      (PUT, ''/api/uplinks/:id'', ''updateUplink''),
      (DELETE, ''/api/uplinks/:id'', ''deleteUplink''),
      (GET, ''/api/uplink_format'', ''getUplinkFormat''),
      (POST, ''/api/uplink_format'', ''setUplinkFormat''),
      (GET, ''/api/logs'', ''streamLogs'')]"

text \<open>Every handler answers with its own name.\<close>

definition api_handler :: "string \<Rightarrow> string" where
  "api_handler name = name"

text \<open>The first route of the method whose pattern the router says the path matches.\<close>

fun api_answer ::
  "(string \<Rightarrow> string \<Rightarrow> bool) \<Rightarrow> (http_method \<times> string \<times> string) list \<Rightarrow> http_method \<Rightarrow> string \<Rightarrow> string option" where
  "api_answer matches [] m path = None"
| "api_answer matches ((m1, pattern, h) # routes) m path =
     (if m1 = m \<and> matches pattern path then Some (api_handler h) else api_answer matches routes m path)"

lemma api_routes_distinct: "distinct (map (\<lambda>(m, p, h). (m, p)) api_routes)"
  by code_simp

end
