(* ===== verification/Spec2Isabelle.thy ===== *)
theory Spec2Isabelle
  imports Collector_Rounds System_Properties Scheduler_Properties Device_Manager Batch_Loop
    Bacnet_Listeners Side_Channels
begin

text \<open>
  A verification development for sensor-edge, an edge gateway written in Go: it polls devices,
  converts and filters what they return, applies edge rules, and reports upstream.

  \<^bold>\<open>The program.\<close> \<open>main.go\<close> merges the configuration of each device with its protocol's,
  takes a client from a pool and starts one poller per point set. A round of a poller reads each
  function group through the client with retries, converts the values of its points, runs the rule
  engine, encodes a report and gives it to every uplink channel. The binary links two protocol
  drivers, Modbus TCP and a simulated BACnet; two listeners register BACnet devices that announce
  themselves. Beside this the repository has five drivers more, three schedulers and a device
  manager that \<open>main.go\<close> does not call, a Sparkplug B uplink with an outbound queue, and the
  skeleton of a web API.

  \<^bold>\<open>Conventions.\<close> \<open>Prelude\<close> has Go's machine integers as words, \<open>interface{}\<close> as the
  datatype \<open>goval\<close>, maps as partial functions, and the result type \<open>out\<close>: \<open>Ok\<close>, \<open>Err\<close> (an
  \<open>error\<close> that is returned) or \<open>Panic\<close> (the process stops). A slice that a library returns has the
  bytes of its capacity too, since slicing reaches them. Time is a function of the world \<open>'w\<close>,
  which the library operations thread; sleeps and log lines are left out. \<open>Go_Float\<close> has the
  binary64 operations the code uses, on bit patterns, rounded to even; \<open>Go_Strings\<close> has
  \<open>ToUpper\<close>, \<open>Contains\<close>, decimal printing and \<open>Sscanf("%d")\<close> for ASCII; \<open>Data_Types\<close> the
  records of \<open>types/\<close>, \<open>schema/\<close> and \<open>protocols/\<close>.

  \<^bold>\<open>Components.\<close>
  \<^item> \<open>Modbus_Client\<close>, \<open>Modbus_Session\<close>: \<open>protocols/modbus/modbus_tcp.go\<close> without the batches. The
    client keeps pointers to handlers in a heap, as \<open>SetSlave\<close> changes the handler that the
    library's client reads. Lemmas: a well-formedness invariant over every reachable session, reads
    do not panic, recovery after a broken connection, round trips of writes and reads.
  \<^item> \<open>Modbus_Batch\<close>, \<open>Modbus_Registers\<close>, \<open>Modbus_Coils\<close>: the batch reads. \<open>scan_group\<close> and
    \<open>scan_coils\<close> are the grouping loops on 16-bit addresses. Lemmas: a batch refines single reads,
    every request is legal, one value per point, where a batch panics. \<open>Batch_Loop\<close> has the loop
    with its indexes as it is written, under \<open>while_option\<close>: it ends, and agrees with the recursion.
  \<^item> \<open>Format_Parser\<close>: \<open>utils/format_parser.go\<close>. Lemmas: each layout reads back its bytes, the
    layout that does not, when a cast fails.
  \<^item> \<open>Rule_Engine\<close>: \<open>edgecompute/rule_engine.go\<close>, \<open>types/edge_rule.go\<close>,
    \<open>config/edge_rule_loader.go\<close>, \<open>mapping/mapper.go\<close>. The locale \<open>window\<close> is the contract of a
    bounded buffer, interpreted on \<open>PointBuffer\<close>; the engine's buffers are the last samples of
    their keys, and the alarms are those of the rules that hold.
  \<^item> \<open>Outbound_Queue\<close>: \<open>uplink/sparkplugb/queue.go\<close>, with an invariant over enqueues, passes and
    restarts in which any call of storage and broker may fail: no message that was saved is lost.
  \<^item> \<open>Uplink\<close>: \<open>uplink/\<close> and \<open>uplink/sparkplugb/\<close>: channels, report encoding, payloads, mapping.
    \<open>Side_Channels\<close>: the south-bound subscriber, the TLS reloader and the routes of the web API.
  \<^item> \<open>Bacnet\<close>, \<open>Bacnet_Discover\<close>: \<open>protocols/bacnet/\<close>: the point table and its lookups, the outcomes
    of a write and how long it stays, the announcement parsers, and the pollers as a step relation. \<open>Bacnet_Listeners\<close>:
    the two goroutines of \<open>main.go\<close> and \<open>discover.go\<close> that listen on one UDP port, with what the
    standard library's read returns on an error and on a nil connection.
  \<^item> \<open>Config_Loaders\<close>: the loaders of \<open>config/\<close>, each with its error path.
  \<^item> \<open>Collector\<close>: \<open>main.go\<close> and \<open>protocols/registry.go\<close>. \<open>Collector_Laws\<close> has the locale
    \<open>protocol_contract\<close>, what reads with retries rely on, interpreted on the Modbus client and on
    the clients of the pool; \<open>Collector_Values\<close> the conversion and configuration of one point;
    \<open>Collector_Rounds\<close> whole rounds.
  \<^item> \<open>Collector_System\<close>: the whole of \<open>main\<close>, from the files it needs over the loop that starts the
    pollers to the pollers themselves: a record with the pool, the engine, the world and the phase
    of every poller, and a step relation in which each call of a poller is a step and reloads and
    outside changes come between. \<open>System_Properties\<close>: its invariant by rule induction, the
    refinement of a round by the steps that one poller takes \<open>alone\<close>, the slaves that two pollers
    of a client mix, and what ends the process.
  \<^item> \<open>Field_Drivers\<close>: the SLMP, TCP, SNMP, HTTP and S7 drivers under \<open>protocols/\<close>.
    \<open>Protocol_Table\<close>: the interface \<open>Protocol\<close> over all seven implementations, and the contract of
    batch reads interpreted on it; \<open>Driver_Properties\<close>: what the drivers ask, accept and panic on.
  \<^item> \<open>Scheduler\<close>: \<open>core/scheduler.go\<close>, with its tickers as a step relation;
    \<open>Scheduler_Properties\<close>: the three starts and ticks agree, which points are never read, failed starts, and
    the runner that \<open>SetInterval\<close> starves. \<open>Device_Manager\<close>: \<open>core/device_manager.go\<close>, registrations
    and monitors interleaved.

  \<^bold>\<open>Parameters.\<close> Code outside the repository is an argument: the Modbus library (\<open>mblib\<close>),
  \<open>sort.Slice\<close> (any permutation in which no element is less than an earlier one), govaluate,
  \<open>ParseFloat\<close>, \<open>ParseDuration\<close>, the JSON and YAML libraries, the files, the network of the
  uplinks and of the drivers, gosnmp, gos7, the TLS library and the message broker. Hypotheses
  such as \<open>serves_regs\<close> or \<open>full_answers\<close> state their documented behaviour, \<open>storage_keeps\<close> what a
  storage without an error has done, and every property with a hypothesis has a witness on a concrete one.

  \<^bold>\<open>Bounds.\<close> No definition uses fuel: the batch loops end because each pass removes its group
  (\<open>Batch_Loop\<close> proves it for the loop as written), and a poller, a runner and a monitor are the
  steps they take. Three tries of a read are the \<open>3\<close> of \<open>main.go\<close>.

  \<^bold>\<open>Not modelled.\<close> What is printed, apart from a scheduler's lines, and the log files; waiting
  times; the order in which Go ranges over a map, where it is not an argument; interleavings
  within one call of a client or of the rule engine, which hold no lock: two pollers in one call
  at once are a data race. The command declarations of \<open>cli/\<close>, the interface declarations without
  an implementation, and the front end have no logic to model.
\<close>

end
